(* ===== verification/JS_Prelude.thy ===== *)
theory JS_Prelude
  imports Complex_Main
begin

text \<open>
  Shared vocabulary of the development: JavaScript strings and the operations the
  sources use on them, results that may be a thrown error, and the generic list lemmas
  the component theories need.

  A JavaScript string is modelled as a \<^typ>\<open>string\<close>, one character per code unit
  (the model ranges over code units below 256).  \<open>trim\<close> and \<open>\s\<close> use the white space
  of ECMAScript in that range; \<open>toLowerCase\<close> is the Latin-1 case mapping.  Optional
  values (\<open>undefined\<close> or \<open>null\<close>) are \<^typ>\<open>string option\<close>.
\<close>

named_theorems handler_defs \<open>handlers of a page that change a few fields of its state\<close>

section \<open>Results: a thrown error or a value\<close>

fun bindE :: "'e + 'a \<Rightarrow> ('a \<Rightarrow> 'e + 'b) \<Rightarrow> 'e + 'b" where
  "bindE (Inl e) f = Inl e"
| "bindE (Inr x) f = f x"

lemma bindE_Inr_iff [simp]: "bindE m f = Inr y \<longleftrightarrow> (\<exists>x. m = Inr x \<and> f x = Inr y)"
  by (cases m) auto

lemma bindE_Inl_iff: "bindE m f = Inl e \<longleftrightarrow> m = Inl e \<or> (\<exists>x. m = Inr x \<and> f x = Inl e)"
  by (cases m) auto

lemma bindE_assoc: "bindE (bindE m f) g = bindE m (\<lambda>x. bindE (f x) g)"
  by (cases m) auto

lemma bindE_cong [fundef_cong]:
  "m = m' \<Longrightarrow> (\<And>x. m' = Inr x \<Longrightarrow> f x = g x) \<Longrightarrow> bindE m f = bindE m' g"
  by (cases m') auto

text \<open>\<open>xs.map(f)\<close> where \<open>f\<close> may throw: the first error in list order wins.\<close>

fun mapE :: "('a \<Rightarrow> 'e + 'b) \<Rightarrow> 'a list \<Rightarrow> 'e + 'b list" where
  "mapE f [] = Inr []"
| "mapE f (x # xs) = bindE (f x) (\<lambda>y. bindE (mapE f xs) (\<lambda>ys. Inr (y # ys)))"

lemma mapE_Inr_iff: "mapE f xs = Inr ys \<longleftrightarrow> list_all2 (\<lambda>x y. f x = Inr y) xs ys"
  by (induction xs arbitrary: ys) (auto simp: list_all2_Cons1)

lemma mapE_length: "mapE f xs = Inr ys \<Longrightarrow> length ys = length xs"
  by (auto simp: mapE_Inr_iff dest: list_all2_lengthD)

lemma mapE_mem: "mapE f xs = Inr ys \<Longrightarrow> y \<in> set ys \<Longrightarrow> \<exists>x \<in> set xs. f x = Inr y"
  by (induction xs arbitrary: ys) auto

lemma mapE_mem_in: "mapE f xs = Inr ys \<Longrightarrow> x \<in> set xs \<Longrightarrow> \<exists>y \<in> set ys. f x = Inr y"
  by (induction xs arbitrary: ys) auto

lemma mapE_all_Inr: "(\<And>x. x \<in> set xs \<Longrightarrow> f x = Inr (g x)) \<Longrightarrow> mapE f xs = Inr (map g xs)"
  by (induction xs) auto

lemma mapE_cong [fundef_cong]:
  "xs = ys \<Longrightarrow> (\<And>x. x \<in> set ys \<Longrightarrow> f x = g x) \<Longrightarrow> mapE f xs = mapE g ys"
  by (induction ys arbitrary: xs) auto

lemma mapE_Inl: "mapE f xs = Inl e \<Longrightarrow> \<exists>x \<in> set xs. f x = Inl e"
  by (induction xs) (auto simp: bindE_Inl_iff)

section \<open>Character classes\<close>

abbreviation code :: "char \<Rightarrow> nat" where
  "code c \<equiv> of_char c"

abbreviation newline :: char where
  "newline \<equiv> CHR 0x0A"

definition js_ws :: "char \<Rightarrow> bool" where
  "js_ws c \<longleftrightarrow> code c \<in> {9, 10, 11, 12, 13, 32, 160}"

definition is_digit :: "char \<Rightarrow> bool" where
  "is_digit c \<longleftrightarrow> 48 \<le> code c \<and> code c \<le> 57"

definition is_upper :: "char \<Rightarrow> bool" where
  "is_upper c \<longleftrightarrow> 65 \<le> code c \<and> code c \<le> 90"

definition is_lower :: "char \<Rightarrow> bool" where
  "is_lower c \<longleftrightarrow> 97 \<le> code c \<and> code c \<le> 122"

definition is_line_end :: "char \<Rightarrow> bool" where
  "is_line_end c \<longleftrightarrow> code c \<in> {10, 13}"

definition lower_char :: "char \<Rightarrow> char" where
  "lower_char c =
     (if is_upper c \<or> (192 \<le> code c \<and> code c \<le> 222 \<and> code c \<noteq> 215)
      then char_of (code c + 32) else c)"

definition js_lower :: "string \<Rightarrow> string" where
  "js_lower s = map lower_char s"

lemmas char_class_defs = js_ws_def is_digit_def is_upper_def is_lower_def is_line_end_def

lemma code_char_of_lower: "code c < 224 \<Longrightarrow> code (char_of (code c + 32)) = code c + 32"
  by (simp add: of_char_of)

lemma code_lower_char:
  "code (lower_char c) =
     (if is_upper c \<or> (192 \<le> code c \<and> code c \<le> 222 \<and> code c \<noteq> 215)
      then code c + 32 else code c)"
  by (auto simp: lower_char_def is_upper_def code_char_of_lower)

lemma lower_char_idem [simp]: "lower_char (lower_char c) = lower_char c"
proof -
  have "\<not> (is_upper (lower_char c) \<or> (192 \<le> code (lower_char c) \<and>
      code (lower_char c) \<le> 222 \<and> code (lower_char c) \<noteq> 215))"
    by (auto simp: code_lower_char is_upper_def split: if_splits)
  then show ?thesis unfolding lower_char_def [of "lower_char c"] by (rule if_not_P)
qed

lemma js_lower_idem [simp]: "js_lower (js_lower s) = js_lower s"
  by (simp add: js_lower_def)

lemma js_lower_Nil_iff [simp]: "js_lower s = [] \<longleftrightarrow> s = []"
  by (simp add: js_lower_def)

lemma lower_char_id: "is_lower c \<or> is_digit c \<or> code c < 65 \<Longrightarrow> lower_char c = c"
  by (auto simp: lower_char_def is_lower_def is_digit_def is_upper_def)

section \<open>Trimming\<close>

definition trim :: "string \<Rightarrow> string" where
  "trim s = rev (dropWhile js_ws (rev (dropWhile js_ws s)))"

definition str_or_empty :: "string option \<Rightarrow> string" where
  "str_or_empty v = (case v of None \<Rightarrow> [] | Some s \<Rightarrow> s)"

lemma str_or_empty_simps [simp]: "str_or_empty None = []" "str_or_empty (Some s) = s"
  by (simp_all add: str_or_empty_def)

lemma set_dropWhile_sub: "set (dropWhile P xs) \<subseteq> set xs"
  by (meson set_dropWhileD subsetI)

lemma set_trim: "set (trim s) \<subseteq> set s"
  unfolding trim_def using set_dropWhile_sub by (metis set_rev subset_trans)

lemma trim_hd: "trim s \<noteq> [] \<Longrightarrow> \<not> js_ws (hd (trim s))"
proof -
  assume ne: "trim s \<noteq> []"
  let ?d = "dropWhile js_ws s"
  obtain zs where zs: "?d = trim s @ zs"
    using takeWhile_dropWhile_id [of js_ws "rev ?d"]
    by (metis rev_append rev_rev_ident trim_def)
  with ne have "?d \<noteq> []" by auto
  then have "\<not> js_ws (hd ?d)" using hd_dropWhile by blast
  with zs ne show ?thesis by simp
qed

lemma trim_last: "trim s \<noteq> [] \<Longrightarrow> \<not> js_ws (last (trim s))"
  unfolding trim_def by (metis hd_dropWhile last_rev rev_is_Nil_conv)

lemma trim_id: "s = [] \<or> \<not> js_ws (hd s) \<and> \<not> js_ws (last s) \<Longrightarrow> trim s = s"
proof (cases "s = []")
  case True
  then show ?thesis by (simp add: trim_def)
next
  case False
  assume "s = [] \<or> \<not> js_ws (hd s) \<and> \<not> js_ws (last s)"
  with False have h: "\<not> js_ws (hd s)" and l: "\<not> js_ws (last s)" by auto
  have 1: "dropWhile js_ws s = s" using h False by (metis dropWhile.simps(2) list.exhaust_sel)
  have 2: "dropWhile js_ws (rev s) = rev s"
    using l False by (metis dropWhile.simps(2) hd_rev list.exhaust_sel rev_is_Nil_conv)
  show ?thesis by (simp add: trim_def 1 2)
qed

lemma trim_idem [simp]: "trim (trim s) = trim s"
  using trim_hd trim_last by (intro trim_id) blast

lemma trim_Nil [simp]: "trim [] = []"
  by (simp add: trim_def)

lemma trim_no_ws: "\<forall>c \<in> set s. \<not> js_ws c \<Longrightarrow> trim s = s"
  by (intro trim_id) (metis last_in_set list.set_sel(1))

section \<open>Prefixes, slices, splitting and joining\<close>

definition startsWith :: "string \<Rightarrow> string \<Rightarrow> bool" where
  "startsWith s p \<longleftrightarrow> take (length p) s = p"

lemma startsWith_iff: "startsWith s p \<longleftrightarrow> (\<exists>t. s = p @ t)"
  unfolding startsWith_def by (metis append_eq_conv_conj append_take_drop_id)

lemma startsWith_append [simp]: "startsWith (p @ t) p"
  by (simp add: startsWith_def)

definition endsWith :: "string \<Rightarrow> string \<Rightarrow> bool" where
  "endsWith s p \<longleftrightarrow> startsWith (rev s) (rev p)"

text \<open>\<open>s.indexOf(c)\<close>, with \<^const>\<open>None\<close> for \<open>-1\<close>.\<close>

fun index_of :: "char \<Rightarrow> string \<Rightarrow> nat option" where
  "index_of c [] = None"
| "index_of c (x # xs) = (if x = c then Some 0 else map_option Suc (index_of c xs))"

lemma index_of_None_iff [simp]: "index_of c s = None \<longleftrightarrow> c \<notin> set s"
  by (induction s) auto

lemma index_of_append: "c \<notin> set k \<Longrightarrow> index_of c (k @ c # v) = Some (length k)"
  by (induction k) auto

lemma index_of_Some:
  "index_of c s = Some i \<Longrightarrow> i < length s \<and> s = take i s @ c # drop (Suc i) s \<and> c \<notin> set (take i s)"
proof (induction s arbitrary: i)
  case Nil
  then show ?case by simp
next
  case (Cons x xs)
  show ?case
  proof (cases "x = c")
    case True
    with Cons.prems show ?thesis by simp
  next
    case False
    with Cons.prems obtain j where j: "index_of c xs = Some j" "i = Suc j" by auto
    with Cons.IH [OF j(1)] False show ?thesis by auto
  qed
qed

text \<open>\<open>s.split(c)\<close> for a one-character separator.\<close>

fun split_on :: "char \<Rightarrow> string \<Rightarrow> string list" where
  "split_on c [] = [[]]"
| "split_on c (x # xs) =
     (if x = c then [] # split_on c xs
      else case split_on c xs of [] \<Rightarrow> [[x]] | y # ys \<Rightarrow> (x # y) # ys)"

text \<open>\<open>xs.join(sep)\<close>.\<close>

fun join :: "string \<Rightarrow> string list \<Rightarrow> string" where
  "join sep [] = []"
| "join sep [x] = x"
| "join sep (x # y # ys) = x @ sep @ join sep (y # ys)"

lemma split_on_nonempty [simp]: "split_on c s \<noteq> []"
  by (induction s) (auto split: list.splits)

lemma split_on_no_sep: "p \<in> set (split_on c s) \<Longrightarrow> c \<notin> set p"
  by (induction s arbitrary: p) (auto split: list.splits if_splits)

lemma split_on_id: "c \<notin> set s \<Longrightarrow> split_on c s = [s]"
  by (induction s) auto

lemma split_on_append: "c \<notin> set s \<Longrightarrow> split_on c (s @ c # t) = s # split_on c t"
  by (induction s) auto

lemma join_Cons: "join sep (x # xs) = x @ (if xs = [] then [] else sep @ join sep xs)"
  by (cases xs) auto

lemma join_split_on: "join [c] (split_on c s) = s"
proof (induction s)
  case Nil
  then show ?case by simp
next
  case (Cons x s)
  obtain y ys where ys: "split_on c s = y # ys" by (cases "split_on c s") auto
  with Cons show ?case by (cases "x = c") (auto simp: join_Cons)
qed

lemma split_on_join: "ps \<noteq> [] \<Longrightarrow> \<forall>p \<in> set ps. c \<notin> set p \<Longrightarrow> split_on c (join [c] ps) = ps"
  by (induction ps) (auto simp: join_Cons split_on_id split_on_append)

lemma set_split_on: "p \<in> set (split_on c s) \<Longrightarrow> set p \<subseteq> set s"
  by (induction s arbitrary: p) (fastforce split: list.splits if_splits)+

text \<open>\<open>s.split(/[..]+/)\<close>: maximal runs of characters satisfying \<open>P\<close> separate the pieces.\<close>

function split_runs :: "(char \<Rightarrow> bool) \<Rightarrow> string \<Rightarrow> string list" where
  "split_runs P s =
     (case dropWhile (\<lambda>c. \<not> P c) s of
        [] \<Rightarrow> [takeWhile (\<lambda>c. \<not> P c) s]
      | r # rs \<Rightarrow> takeWhile (\<lambda>c. \<not> P c) s # split_runs P (dropWhile P (r # rs)))"
  by pat_completeness auto
termination
proof (relation "measure (\<lambda>(P, s). length s)")
  show "wf (measure (\<lambda>(P :: char \<Rightarrow> bool, s :: string). length s))" by simp
next
  fix P :: "char \<Rightarrow> bool" and s :: string and r rs
  assume d: "dropWhile (\<lambda>c. \<not> P c) s = r # rs"
  then have "P r" by (metis hd_dropWhile list.distinct(1) list.sel(1))
  then have "length (dropWhile P (r # rs)) \<le> length rs" by (simp add: length_dropWhile_le)
  also have "\<dots> < length (dropWhile (\<lambda>c. \<not> P c) s)" using d by simp
  also have "\<dots> \<le> length s" by (rule length_dropWhile_le)
  finally show "((P, dropWhile P (r # rs)), P, s) \<in> measure (\<lambda>(P, s). length s)" by simp
qed

declare split_runs.simps [simp del]

lemma split_runs_no_sep: "p \<in> set (split_runs P s) \<Longrightarrow> \<forall>c \<in> set p. \<not> P c"
proof (induction P s rule: split_runs.induct)
  case (1 P s)
  have t: "\<forall>c \<in> set (takeWhile (\<lambda>c. \<not> P c) s). \<not> P c" by (auto dest: set_takeWhileD)
  show ?case
  proof (cases "dropWhile (\<lambda>c. \<not> P c) s")
    case Nil
    with 1(2) t show ?thesis by (simp add: split_runs.simps [of P s])
  next
    case (Cons r rs)
    with 1(2) have "p = takeWhile (\<lambda>c. \<not> P c) s \<or> p \<in> set (split_runs P (dropWhile P (r # rs)))"
      by (simp add: split_runs.simps [of P s])
    then show ?thesis using t 1(1) [OF Cons] by blast
  qed
qed

text \<open>\<open>s.replace(/c+$/, '')\<close>: the trailing run of one character is dropped.\<close>

definition strip_trailing :: "char \<Rightarrow> string \<Rightarrow> string" where
  "strip_trailing c s = rev (dropWhile (\<lambda>x. x = c) (rev s))"

lemma strip_trailing_last: "strip_trailing c s \<noteq> [] \<Longrightarrow> last (strip_trailing c s) \<noteq> c"
  unfolding strip_trailing_def by (metis (mono_tags) hd_dropWhile last_rev rev_is_Nil_conv)

lemma strip_trailing_id: "s = [] \<or> last s \<noteq> c \<Longrightarrow> strip_trailing c s = s"
  unfolding strip_trailing_def
  by (cases s rule: rev_cases) auto

lemma strip_trailing_idem [simp]: "strip_trailing c (strip_trailing c s) = strip_trailing c s"
  by (metis strip_trailing_id strip_trailing_last)

lemma set_strip_trailing: "set (strip_trailing c s) \<subseteq> set s"
  unfolding strip_trailing_def by (metis set_dropWhile_sub set_rev)

text \<open>\<open>[...new Set(xs)]\<close>: first occurrences, in order.\<close>

fun uniq_from :: "'a list \<Rightarrow> 'a list \<Rightarrow> 'a list" where
  "uniq_from seen [] = []"
| "uniq_from seen (x # xs) =
     (if x \<in> set seen then uniq_from seen xs else x # uniq_from (x # seen) xs)"

definition uniq :: "'a list \<Rightarrow> 'a list" where
  "uniq xs = uniq_from [] xs"

lemma uniq_from_set: "set (uniq_from seen xs) = set xs - set seen"
  by (induction xs arbitrary: seen) auto

lemma uniq_from_distinct: "distinct (uniq_from seen xs)"
  by (induction xs arbitrary: seen) (auto simp: uniq_from_set)

lemma set_uniq [simp]: "set (uniq xs) = set xs"
  by (simp add: uniq_def uniq_from_set)

lemma distinct_uniq [simp]: "distinct (uniq xs)"
  by (simp add: uniq_def uniq_from_distinct)

lemma uniq_from_id: "distinct xs \<Longrightarrow> set xs \<inter> set seen = {} \<Longrightarrow> uniq_from seen xs = xs"
  by (induction xs arbitrary: seen) auto

lemma uniq_id: "distinct xs \<Longrightarrow> uniq xs = xs"
  by (simp add: uniq_def uniq_from_id)

lemma uniq_Nil_iff [simp]: "uniq xs = [] \<longleftrightarrow> xs = []"
  by (metis set_empty set_uniq)

text \<open>Array reads: \<open>xs[i]\<close> is \<open>undefined\<close> out of range.\<close>

definition nth_opt :: "'a list \<Rightarrow> nat \<Rightarrow> 'a option" where
  "nth_opt xs i = (if i < length xs then Some (xs ! i) else None)"

lemmas string_defs = trim_def startsWith_def endsWith_def strip_trailing_def nth_opt_def
  str_or_empty_def js_lower_def lower_char_def

end
