(* ===== verification/Action_Errors.thy ===== *)
theory Action_Errors
  imports JS_Prelude
begin

text \<open>
  Every \<open>throw\<close> of the publishing scripts (\<open>.forgejo/scripts/*.mjs\<close>) as a value.  A
  constructor carries what its message interpolates; the prose around it is not kept.
\<close>

text \<open>Where an unsupported expression was found (the \<open>where\<close> argument of
  \<open>assertSupportedExpressions\<close>).\<close>

datatype expr_site = SemverPattern | TagRule string | FlavorSite | LabelSite

datatype (plugins only: code size) action_error =
  \<comment> \<open>config.mjs\<close>
    ErrKeyValue string string
  | ErrVariantBuildArg string
  | ErrPlatform string
  | ErrNoVariants
  | ErrVariantName string
  | ErrDuplicateVariant string
  | ErrManyDefaults "string list"
  | ErrNoDefault "string list"
  | ErrUnknownVariants "string list" "string list"
  | ErrEmptyTag string
  | ErrLongTag string
  | ErrEmptyImage
  | ErrForeignRegistry string
  | ErrGhcrImage string
  | ErrImageChars string
  | ErrImageNamespace string
  | ErrImageToken string string
  | ErrNoImageName
  \<comment> \<open>resolve.mjs and matrix.mjs\<close>
  | ErrVersionMismatch string string
  | ErrNotATag string
  | ErrNoVersion
  | ErrNotSemver string
  | ErrEmptyMatrix
  \<comment> \<open>meta.mjs\<close>
  | ErrNoRules
  | ErrRuleSegment string
  | ErrUnsupportedType string
  | ErrUnknownType string
  | ErrEnable string
  | ErrFlavorLatest string
  | ErrFlavorFlag string string
  | ErrFlavorKey string
  | ErrExpression expr_site "string list" "string list"
  | ErrRefEvent string
  | ErrMatchPattern
  | ErrRegExp string
  | ErrNoTags
  | ErrDuplicateTags "(string \<times> string list) list"
  \<comment> \<open>build-push.mjs\<close>
  | ErrNoBuildPlan
  | ErrDockerUnavailable
  | ErrBuildFailed string int
  | ErrBuilderCreate string
  \<comment> \<open>publish.mjs\<close>
  | ErrNothingToPublish
  | ErrMissingStaging "string list"
  | ErrPromotion string "string list" int
  \<comment> \<open>login.mjs\<close>
  | ErrMissingToken string
  | ErrNoRegistry
  | ErrLogin string string int
  \<comment> \<open>prepare.mjs\<close>
  | ErrNoPackageManager "string list"
  | ErrInstallFailed string "string list" string
  | ErrNoBuildx
  | ErrNoDockerCli
  | ErrNoDockerd
  | ErrDaemonLog string
  | ErrDaemonStart string

type_synonym 'a result = "action_error + 'a"

text \<open>The process environment: unset variables are \<^const>\<open>None\<close>.\<close>

type_synonym env = "string \<Rightarrow> string option"

end
