(* ===== verification/Config.thy ===== *)
theory Config
  imports Action_Errors
begin

text \<open>
  \<open>config.mjs\<close>: the repository variables turned into one normalized configuration.
  Pure functions from the environment and the variant table to records.
\<close>

section \<open>Reading variables\<close>

text \<open>\<open>DEFAULT_VARIANTS\<close>: the built-in table, one row per line.\<close>

definition DEFAULT_VARIANTS :: string where
  "DEFAULT_VARIANTS = join [newline]
     [''alpine|Dockerfile.alpine||-alpine|false||linux/amd64,linux/arm64'',
      ''trixie-slim|Dockerfile.trixie-slim||-trixie-slim|true||linux/amd64,linux/arm64'']"

definition readOptional :: "string option \<Rightarrow> string" where
  "readOptional value = trim (str_or_empty value)"

text \<open>\<open>readFile\<close> gives the text of a file, or \<^const>\<open>None\<close> when reading throws.\<close>

definition variantTableRaw :: "(string \<Rightarrow> string option) \<Rightarrow> env \<Rightarrow> string" where
  "variantTableRaw readFile env =
     (let explicit = readOptional (env ''DOCKER_VARIANTS'') in
      if explicit \<noteq> [] then explicit
      else let file = readOptional (env ''DOCKER_VARIANTS_FILE'') in
        (case (if file \<noteq> [] then readFile file else None) of
           Some text \<Rightarrow> if readOptional (Some text) \<noteq> [] then text else DEFAULT_VARIANTS
         | None \<Rightarrow> DEFAULT_VARIANTS))"

definition list_item :: "string \<Rightarrow> bool" where
  "list_item item \<longleftrightarrow> item \<noteq> [] \<and> \<not> startsWith item ''#''"

definition list_sep :: "char \<Rightarrow> bool" where
  "list_sep c \<longleftrightarrow> c = newline \<or> c = CHR '','' \<or> c = CHR '';''"

definition splitList :: "string option \<Rightarrow> string list" where
  "splitList raw = filter list_item (map trim (split_runs list_sep (str_or_empty raw)))"

definition splitLines :: "string option \<Rightarrow> string list" where
  "splitLines raw = filter list_item (map trim (split_on newline (str_or_empty raw)))"

text \<open>A \<open>KEY=VALUE\<close> pair: everything before the first \<open>=\<close>, trimmed, and everything after.\<close>

definition keyValue :: "action_error \<Rightarrow> string \<Rightarrow> (string \<times> string) result" where
  "keyValue err line =
     (case index_of CHR ''='' line of
        None \<Rightarrow> Inl err
      | Some index \<Rightarrow> if index = 0 then Inl err
                      else Inr (trim (take index line), drop (Suc index) line))"

definition parseKeyValues :: "string option \<Rightarrow> string \<Rightarrow> (string \<times> string) list result" where
  "parseKeyValues raw what = mapE (\<lambda>line. keyValue (ErrKeyValue what line) line) (splitLines raw)"

definition name_start :: "char \<Rightarrow> bool" where
  "name_start c \<longleftrightarrow> is_lower c \<or> is_digit c"

definition name_char :: "char \<Rightarrow> bool" where
  "name_char c \<longleftrightarrow> is_lower c \<or> is_digit c \<or> c = CHR ''.'' \<or> c = CHR ''_'' \<or> c = CHR ''-''"

definition VARIANT_NAME :: "string \<Rightarrow> bool" where
  "VARIANT_NAME name \<longleftrightarrow> name \<noteq> [] \<and> name_start (hd name) \<and> list_all name_char (tl name)"

definition parseVariantBuildArgs :: "string \<Rightarrow> (string \<times> string) list result" where
  "parseVariantBuildArgs raw =
     mapE (\<lambda>item. keyValue (ErrVariantBuildArg item) item)
       (filter (\<lambda>item. item \<noteq> []) (map trim (split_on CHR '';'' raw)))"

definition platform_segment :: "string \<Rightarrow> bool" where
  "platform_segment s \<longleftrightarrow> s \<noteq> [] \<and> list_all name_start s"

definition PLATFORM :: "string \<Rightarrow> bool" where
  "PLATFORM s \<longleftrightarrow> (let segs = split_on CHR ''/'' s in
     (length segs = 2 \<or> length segs = 3) \<and> list_all platform_segment segs)"

definition parsePlatforms :: "string \<Rightarrow> string list result" where
  "parsePlatforms raw =
     mapE (\<lambda>item. if PLATFORM item then Inr item else Inl (ErrPlatform item))
       (filter (\<lambda>item. item \<noteq> []) (map trim (split_on CHR '','' raw)))"

text \<open>\<open>platformsFor\<close> reads the \<open>platforms\<close> field of its two arguments.\<close>

definition platformsFor :: "string list \<Rightarrow> string list \<Rightarrow> string list" where
  "platformsFor own global = (if own \<noteq> [] then own else global)"

definition isTruthy :: "string option \<Rightarrow> bool" where
  "isTruthy value \<longleftrightarrow> js_lower (readOptional value) \<in> {''1'', ''true'', ''yes'', ''on''}"

section \<open>Tag names\<close>

definition tag_char :: "char \<Rightarrow> bool" where
  "tag_char c \<longleftrightarrow> is_upper c \<or> is_lower c \<or> is_digit c \<or> c = CHR ''_'' \<or> c = CHR ''.'' \<or> c = CHR ''-''"

definition tag_strip :: "char \<Rightarrow> bool" where
  "tag_strip c \<longleftrightarrow> c = CHR ''.'' \<or> c = CHR ''-''"

text \<open>\<open>replace(/[^A-Za-z0-9_.-]+/g, '-')\<close>: \<open>inside\<close> is set within a run already replaced.\<close>

fun collapse_from :: "bool \<Rightarrow> string \<Rightarrow> string" where
  "collapse_from inside [] = []"
| "collapse_from inside (c # cs) =
     (if tag_char c then c # collapse_from False cs
      else if inside then collapse_from True cs
      else CHR ''-'' # collapse_from True cs)"

definition sanitizeTagName :: "string \<Rightarrow> string result" where
  "sanitizeTagName value =
     (let name = dropWhile tag_strip (collapse_from False (trim value)) in
      if name = [] then Inl (ErrEmptyTag value)
      else if 128 < length name then Inl (ErrLongTag name)
      else Inr name)"

section \<open>The variant table\<close>

record variant =
  v_name :: string
  v_dockerfile :: string
  v_target :: string
  v_suffix :: string
  v_isDefault :: bool
  v_buildArgs :: "(string \<times> string) list"
  v_platforms :: "string list"

text \<open>One row; \<open>parts\<close> are its trimmed columns, missing columns default to the empty text.\<close>

definition parseVariantRow :: "string list \<Rightarrow> string list \<Rightarrow> variant result" where
  "parseVariantRow seen parts =
     (let col = (\<lambda>i. str_or_empty (nth_opt parts i));
          name = col 0; dockerfile = col 1; target = col 2; suffix = col 3; flag = col 4 in
      if \<not> VARIANT_NAME name then Inl (ErrVariantName name)
      else if name \<in> set seen then Inl (ErrDuplicateVariant name)
      else bindE (parseVariantBuildArgs (col 5)) (\<lambda>buildArgs.
           bindE (parsePlatforms (col 6)) (\<lambda>platforms.
           Inr \<lparr>v_name = name,
                v_dockerfile = (if dockerfile \<noteq> [] then dockerfile else ''Dockerfile.'' @ name),
                v_target = target,
                v_suffix = (if suffix = [] then CHR ''-'' # name
                            else if suffix = ''none'' then [] else suffix),
                v_isDefault = (flag = ''true''),
                v_buildArgs = buildArgs,
                v_platforms = platforms\<rparr>)))"

fun parseVariantRows :: "string list \<Rightarrow> string list \<Rightarrow> variant list result" where
  "parseVariantRows seen [] = Inr []"
| "parseVariantRows seen (line # lines) =
     bindE (parseVariantRow seen (map trim (split_on CHR ''|'' line))) (\<lambda>v.
     bindE (parseVariantRows (v_name v # seen) lines) (\<lambda>vs. Inr (v # vs)))"

definition chooseDefault :: "variant list \<Rightarrow> variant list result" where
  "chooseDefault variants =
     (let flagged = filter v_isDefault variants in
      if 1 < length flagged then Inl (ErrManyDefaults (map v_name flagged))
      else if flagged = [] \<and> 1 < length variants then Inl (ErrNoDefault (map v_name variants))
      else if flagged = [] then
        (case variants of [] \<Rightarrow> Inr [] | v # vs \<Rightarrow> Inr (v\<lparr>v_isDefault := True\<rparr> # vs))
      else Inr variants)"

definition parseVariants :: "string \<Rightarrow> variant list result" where
  "parseVariants raw =
     (let lines = splitLines (Some raw) in
      if lines = [] then Inl ErrNoVariants
      else bindE (parseVariantRows [] lines) chooseDefault)"

definition variantSelection :: "variant list \<Rightarrow> string option \<Rightarrow> variant list result" where
  "variantSelection variants raw =
     (let wanted = splitList raw in
      if wanted = [] then Inr variants
      else let names = uniq (map v_name variants);
               unknown = filter (\<lambda>n. n \<notin> set names) wanted in
        if unknown \<noteq> [] then Inl (ErrUnknownVariants unknown names)
        else Inr (filter (\<lambda>v. v_name v \<in> set wanted) variants))"

section \<open>Images and registries\<close>

text \<open>\<open>replace(/^https?:\/\//, '')\<close>\<close>

definition strip_scheme :: "string \<Rightarrow> string" where
  "strip_scheme s = (if startsWith s ''http://'' then drop 7 s
                     else if startsWith s ''https://'' then drop 8 s else s)"

definition image_char :: "char \<Rightarrow> bool" where
  "image_char c \<longleftrightarrow> name_char c \<or> c = CHR ''/''"

definition normalizeImageBase :: "string \<Rightarrow> string result" where
  "normalizeImageBase base =
     (let value = js_lower (strip_trailing CHR ''/'' (strip_scheme (readOptional (Some base)))) in
      if value = [] then Inl ErrEmptyImage
      else let value = (if startsWith value ''docker.io/'' then drop 10 value else value);
               head = hd (split_on CHR ''/'' value) in
        if (CHR ''.'' \<in> set head \<or> CHR '':'' \<in> set head) \<and> head \<noteq> ''ghcr.io''
        then Inl (ErrForeignRegistry base)
        else if (CHR ''.'' \<in> set head \<or> CHR '':'' \<in> set head) \<and> \<not> startsWith value ''ghcr.io/''
        then Inl (ErrGhcrImage base)
        else if \<not> (value \<noteq> [] \<and> name_start (hd value) \<and> list_all image_char (tl value))
        then Inl (ErrImageChars base)
        else Inr value)"

datatype registry_id = Ghcr | Dockerhub

record registry =
  reg_id :: registry_id
  reg_registry :: string
  reg_tokenVar :: string
  reg_user :: string
  reg_namespace :: string
  reg_enabled :: bool

text \<open>The \<open>REGISTRIES\<close> table: host and token variable of each registry.\<close>

fun registry_host :: "registry_id \<Rightarrow> string" where
  "registry_host Ghcr = ''ghcr.io''"
| "registry_host Dockerhub = ''docker.io''"

fun token_var :: "registry_id \<Rightarrow> string" where
  "token_var Ghcr = ''GHCR_TOKEN''"
| "token_var Dockerhub = ''DOCKERHUB_TOKEN''"

definition imageRegistryOf :: "string \<Rightarrow> registry_id result" where
  "imageRegistryOf base =
     bindE (normalizeImageBase base) (\<lambda>value.
       if startsWith value ''ghcr.io/'' then Inr Ghcr
       else if 2 \<le> length (split_on CHR ''/'' value) then Inr Dockerhub
       else Inl (ErrImageNamespace base))"

definition ghcrNamespaceFrom :: "env \<Rightarrow> string" where
  "ghcrNamespaceFrom env =
     (let repoOwner = hd (split_on CHR ''/'' (readOptional (env ''GITHUB_REPOSITORY'')));
          image = js_lower (strip_trailing CHR ''/'' (strip_scheme (readOptional (env ''GHCR_IMAGE'')))) in
      if image \<noteq> [] then
        (let parts = split_on CHR ''/'' image in
         if hd parts = ''ghcr.io'' then str_or_empty (nth_opt parts 1) else hd parts)
      else repoOwner)"

definition registryEntry :: "env \<Rightarrow> registry_id \<Rightarrow> string \<Rightarrow> registry" where
  "registryEntry env rid user =
     \<lparr>reg_id = rid, reg_registry = registry_host rid, reg_tokenVar = token_var rid,
      reg_user = user, reg_namespace = user,
      reg_enabled = (readOptional (env (token_var rid)) \<noteq> [] \<and> user \<noteq> [])\<rparr>"

definition registriesFrom :: "env \<Rightarrow> registry list" where
  "registriesFrom env =
     [registryEntry env Ghcr (ghcrNamespaceFrom env),
      registryEntry env Dockerhub (readOptional (env ''DOCKERHUB_USERNAME''))]"

record image =
  img_base :: string
  img_registryId :: registry_id
  img_preview :: bool

definition explicitImage :: "registry list \<Rightarrow> bool \<Rightarrow> string \<Rightarrow> image result" where
  "explicitImage registries preview raw =
     bindE (normalizeImageBase raw) (\<lambda>base.
     bindE (imageRegistryOf base) (\<lambda>rid.
       if rid \<notin> reg_id ` set (filter reg_enabled registries) \<and> \<not> preview
       then Inl (ErrImageToken raw (token_var rid))
       else Inr \<lparr>img_base = base, img_registryId = rid, img_preview = False\<rparr>))"

definition derivedImage :: "string \<Rightarrow> registry \<Rightarrow> image result" where
  "derivedImage name entry =
     bindE (normalizeImageBase
       ((if reg_id entry = Ghcr then ''ghcr.io/'' else []) @ reg_namespace entry @ ''/'' @ name))
     (\<lambda>base. Inr \<lparr>img_base = base,
        img_registryId = (if reg_id entry = Ghcr then Ghcr else Dockerhub), img_preview = False\<rparr>)"

definition previewImage :: "env \<Rightarrow> string \<Rightarrow> image list result" where
  "previewImage env name =
     (let owner = hd (split_on CHR ''/'' (readOptional (env ''GITHUB_REPOSITORY''))) in
      if owner \<noteq> [] then
        bindE (normalizeImageBase (''ghcr.io/'' @ owner @ ''/'' @ name)) (\<lambda>base.
          Inr [\<lparr>img_base = base, img_registryId = Ghcr, img_preview = True\<rparr>])
      else Inr [])"

definition imagesFrom :: "env \<Rightarrow> registry list \<Rightarrow> string \<Rightarrow> bool \<Rightarrow> image list result" where
  "imagesFrom env registries repoName preview =
     (let explicit = splitList (env ''DOCKER_META_IMAGES'') in
      if explicit \<noteq> [] then mapE (explicitImage registries preview) explicit
      else let name = readOptional (Some repoName) in
        if name = [] then Inl ErrNoImageName
        else bindE (mapE (derivedImage name) (filter reg_enabled registries)) (\<lambda>images.
          if images = [] \<and> preview then previewImage env name else Inr images))"

record build_options =
  o_context :: string
  o_platforms :: "string list"
  o_buildArgs :: "(string \<times> string) list"
  o_dryRun :: bool
  o_push :: bool

definition buildOptionsFrom :: "env \<Rightarrow> bool \<Rightarrow> build_options result" where
  "buildOptionsFrom env dryRun =
     bindE (parseKeyValues (env ''DOCKER_BUILD_ARGS'') ''DOCKER_BUILD_ARGS'') (\<lambda>args.
       Inr \<lparr>o_context = ''.'', o_platforms = splitList (env ''DOCKER_PLATFORMS''),
            o_buildArgs = args, o_dryRun = dryRun, o_push = (\<not> dryRun)\<rparr>)"


text \<open>The staging tag of one variant, \<open>staging-<version>-<sha>-<variant>\<close>.\<close>

definition stagingTagName :: "string \<Rightarrow> string \<Rightarrow> string \<Rightarrow> string result" where
  "stagingTagName version shortSha variant =
     sanitizeTagName (''staging-'' @ version @ ''-'' @
       (if shortSha \<noteq> [] then shortSha else ''nosha'') @ ''-'' @ variant)"

record tagged_image =
  ti_base :: string
  ti_registryId :: registry_id
  ti_tags :: "string list"

text \<open>An entry of \<open>stagingRefsFor\<close>; its \<open>tags\<close> field is the one-element list of \<open>ref\<close>.\<close>

record staging_ref =
  sr_base :: string
  sr_registryId :: registry_id
  sr_tag :: string
  sr_ref :: string

text \<open>The arguments are \<open>build.variant\<close>, \<open>build.images\<close>, \<open>state.version\<close> and \<open>state.shortSha\<close>.\<close>

definition stagingRefsFor ::
    "string \<Rightarrow> tagged_image list \<Rightarrow> string \<Rightarrow> string \<Rightarrow> staging_ref list result" where
  "stagingRefsFor variant images version shortSha =
     bindE (stagingTagName version shortSha variant) (\<lambda>tag.
       Inr (map (\<lambda>image. \<lparr>sr_base = ti_base image, sr_registryId = ti_registryId image,
                            sr_tag = tag, sr_ref = ti_base image @ '':'' @ tag\<rparr>) images))"

section \<open>Facts about sanitized tag names\<close>

text \<open>What a client of the sanitizer relies on.\<close>

locale tag_names =
  fixes san :: "string \<Rightarrow> 'e + string"
    and legal :: "string \<Rightarrow> bool"
  assumes san_legal: "san x = Inr y \<Longrightarrow> legal y"
    and san_fix: "legal y \<Longrightarrow> san y = Inr y"
begin

lemma san_idem: "san x = Inr y \<Longrightarrow> san y = Inr y"
  by (rule san_fix) (rule san_legal)

lemma mapE_san_legal: "mapE san xs = Inr ys \<Longrightarrow> y \<in> set ys \<Longrightarrow> legal y"
  by (auto dest: mapE_mem san_legal)

lemma mapE_san_fix: "(\<And>x. x \<in> set xs \<Longrightarrow> legal x) \<Longrightarrow> mapE san xs = Inr xs"
  using mapE_all_Inr [of xs san "\<lambda>x. x"] by (simp add: san_fix)

lemma mapE_san_idem: "mapE san xs = Inr ys \<Longrightarrow> mapE san ys = Inr ys"
  by (rule mapE_san_fix) (rule mapE_san_legal)

end

definition legal_tag :: "string \<Rightarrow> bool" where
  "legal_tag name \<longleftrightarrow> name \<noteq> [] \<and> length name \<le> 128 \<and> list_all tag_char name \<and>
     \<not> tag_strip (hd name)"

lemma tag_char_dash [simp]: "tag_char CHR ''-''"
  by (simp add: tag_char_def)

lemma tag_char_not_ws: "tag_char c \<Longrightarrow> \<not> js_ws c"
  by (auto simp: tag_char_def js_ws_def is_upper_def is_lower_def is_digit_def)

lemma name_char_tag_char: "name_char c \<Longrightarrow> tag_char c"
  by (auto simp: name_char_def tag_char_def)

lemma name_start_char: "name_start c \<Longrightarrow> name_char c \<and> \<not> tag_strip c"
  by (auto simp: name_start_def name_char_def tag_strip_def is_lower_def is_digit_def)

lemma collapse_legal: "list_all tag_char (collapse_from b s)"
  by (induction b s rule: collapse_from.induct) auto

lemma collapse_id: "list_all tag_char s \<Longrightarrow> collapse_from b s = s"
  by (induction b s rule: collapse_from.induct) auto

lemma collapse_append:
  "tag_char c \<Longrightarrow> collapse_from b (s @ c # t) = collapse_from b s @ c # collapse_from False t"
  by (induction b s rule: collapse_from.induct) auto

lemma list_all_dropWhile: "list_all P xs \<Longrightarrow> list_all P (dropWhile Q xs)"
  by (induction xs) auto

lemma sanitize_legal: "sanitizeTagName x = Inr y \<Longrightarrow> legal_tag y"
  using hd_dropWhile [of tag_strip "collapse_from False (trim x)"]
  by (auto simp: sanitizeTagName_def legal_tag_def Let_def list_all_dropWhile collapse_legal
      split: if_splits)

lemma trim_tag: "list_all tag_char s \<Longrightarrow> trim s = s"
  by (rule trim_no_ws) (auto simp: list_all_iff tag_char_not_ws)

lemma dropWhile_hd: "xs \<noteq> [] \<Longrightarrow> \<not> P (hd xs) \<Longrightarrow> dropWhile P xs = xs"
  by (cases xs) auto

lemma sanitize_fix: "legal_tag y \<Longrightarrow> sanitizeTagName y = Inr y"
  by (auto simp: legal_tag_def sanitizeTagName_def trim_tag collapse_id dropWhile_hd)

interpretation tags: tag_names sanitizeTagName legal_tag
  by unfold_locales (auto simp: sanitize_fix dest: sanitize_legal)

lemma variant_name_tag: "VARIANT_NAME v \<Longrightarrow> v \<noteq> [] \<and> list_all tag_char v"
  by (cases v) (auto simp: VARIANT_NAME_def list_all_iff name_char_tag_char name_start_char)

lemma sanitize_plain:
  "trim s = s \<Longrightarrow> collapse_from False s = n \<Longrightarrow> n \<noteq> [] \<Longrightarrow> \<not> tag_strip (hd n) \<Longrightarrow>
   sanitizeTagName s = (if 128 < length n then Inl (ErrLongTag n) else Inr n)"
  by (simp add: sanitizeTagName_def dropWhile_hd)

text \<open>The staging tag in closed form: the variant name is kept as it is, at the end.\<close>

lemma stagingTagName_eq:
  assumes v: "VARIANT_NAME v"
  shows "stagingTagName version sha v =
    (let name = ''staging-'' @ collapse_from False
        (version @ ''-'' @ (if sha \<noteq> [] then sha else ''nosha'')) @ ''-'' @ v
     in if 128 < length name then Inl (ErrLongTag name) else Inr name)"
proof -
  let ?sha = "if sha \<noteq> [] then sha else ''nosha''"
  let ?mid = "version @ ''-'' @ ?sha"
  let ?s = "''staging-'' @ version @ ''-'' @ ?sha @ ''-'' @ v"
  from v have ne: "v \<noteq> []" and legal: "list_all tag_char v" by (auto dest: variant_name_tag)
  have "\<not> js_ws (last v)" using ne legal by (simp add: list_all_iff tag_char_not_ws)
  then have trim: "trim ?s = ?s" using ne by (intro trim_id) (auto simp: js_ws_def)
  have col: "collapse_from False ?s = ''staging-'' @ collapse_from False ?mid @ ''-'' @ v"
  proof -
    have "collapse_from False ?s = ''staging-'' @ collapse_from False (?mid @ CHR ''-'' # v)"
      by (simp add: tag_char_def is_lower_def)
    also have "\<dots> = ''staging-'' @ collapse_from False ?mid @ ''-'' @ v"
      by (subst collapse_append) (simp_all add: collapse_id legal)
    finally show ?thesis .
  qed
  show ?thesis
    unfolding stagingTagName_def Let_def
    by (rule sanitize_plain [OF trim col]) (simp_all add: tag_strip_def)
qed

lemma staging_tag_inj:
  assumes "VARIANT_NAME v" "VARIANT_NAME w"
    and "stagingTagName version sha v = Inr t" "stagingTagName version sha w = Inr t"
  shows "v = w"
  using assms by (auto simp: stagingTagName_eq Let_def split: if_splits)


section \<open>The variant table\<close>

text \<open>What \<open>parseVariants\<close> guarantees of the table every later step works on.\<close>

definition variant_ok :: "variant \<Rightarrow> bool" where
  "variant_ok v \<longleftrightarrow> VARIANT_NAME (v_name v) \<and> v_dockerfile v \<noteq> [] \<and>
     list_all PLATFORM (v_platforms v) \<and> list_all (\<lambda>(k, _). k \<noteq> []) (v_buildArgs v)"

definition variant_table_ok :: "variant list \<Rightarrow> bool" where
  "variant_table_ok vs \<longleftrightarrow> vs \<noteq> [] \<and> distinct (map v_name vs) \<and> list_all variant_ok vs \<and>
     length (filter v_isDefault vs) = 1"

lemma keyValue_Inr:
  "keyValue err line = Inr (k, v) \<Longrightarrow>
   \<exists>k'. k = trim k' \<and> k' \<noteq> [] \<and> CHR ''='' \<notin> set k' \<and> line = k' @ CHR ''='' # v"
  by (auto simp: keyValue_def dest!: index_of_Some split: option.splits if_splits)

lemma trim_ne: "s \<noteq> [] \<Longrightarrow> \<not> js_ws (hd s) \<Longrightarrow> trim s \<noteq> []"
proof -
  assume "s \<noteq> []" "\<not> js_ws (hd s)"
  then obtain c cs where s: "s = c # cs" "\<not> js_ws c" by (cases s) auto
  then have "c \<in> set (dropWhile js_ws (rev s))"
    by (simp add: dropWhile_append dropWhile_eq_Nil_conv)
  then show ?thesis by (auto simp: trim_def s)
qed

lemma keyValue_key: "keyValue err (trim line) = Inr (k, v) \<Longrightarrow> k \<noteq> []"
proof -
  assume "keyValue err (trim line) = Inr (k, v)"
  then obtain k' where k: "k = trim k'" "k' \<noteq> []" and l: "trim line = k' @ CHR ''='' # v"
    by (blast dest: keyValue_Inr)
  then have "\<not> js_ws (hd k')" using trim_hd [of line] by simp
  with k show ?thesis by (simp add: trim_ne)
qed

lemma parsePlatforms_ok: "parsePlatforms raw = Inr ps \<Longrightarrow> list_all PLATFORM ps"
  by (auto simp: parsePlatforms_def list_all_iff dest!: mapE_mem split: if_splits)

lemma parseVariantBuildArgs_ok: "parseVariantBuildArgs raw = Inr args \<Longrightarrow> list_all (\<lambda>(k, _). k \<noteq> []) args"
  by (auto simp: parseVariantBuildArgs_def list_all_iff dest!: mapE_mem dest: keyValue_key)

lemma parseVariantRow_ok:
  "parseVariantRow seen parts = Inr v \<Longrightarrow> variant_ok v \<and> v_name v \<notin> set seen"
  by (auto simp: parseVariantRow_def variant_ok_def Let_def parsePlatforms_ok
      parseVariantBuildArgs_ok split: if_splits)

lemma parseVariantRows_ok:
  "parseVariantRows seen lines = Inr vs \<Longrightarrow>
   list_all variant_ok vs \<and> distinct (map v_name vs) \<and> set (map v_name vs) \<inter> set seen = {} \<and>
   length vs = length lines"
proof (induction lines arbitrary: seen vs)
  case Nil
  then show ?case by simp
next
  case (Cons line lines)
  then obtain v ws where row: "parseVariantRow seen (map trim (split_on CHR ''|'' line)) = Inr v"
    and rest: "parseVariantRows (v_name v # seen) lines = Inr ws" and vs: "vs = v # ws" by auto
  from parseVariantRow_ok [OF row] Cons.IH [OF rest] show ?case by (auto simp: vs)
qed

lemma chooseDefault_ok:
  "chooseDefault vs = Inr ws \<Longrightarrow> vs \<noteq> [] \<Longrightarrow>
   map v_name ws = map v_name vs \<and> length (filter v_isDefault ws) = 1 \<and>
   list_all variant_ok ws = list_all variant_ok vs"
proof -
  assume ok: "chooseDefault vs = Inr ws" and ne: "vs \<noteq> []"
  obtain v vs' where vs: "vs = v # vs'" using ne by (cases vs) auto
  show ?thesis
  proof (cases "filter v_isDefault vs = []")
    case True
    with ok vs have "vs' = []" and "ws = [v\<lparr>v_isDefault := True\<rparr>]"
      by (auto simp: chooseDefault_def Let_def split: if_splits)
    with vs show ?thesis by (simp add: variant_ok_def)
  next
    case False
    with ok have "ws = vs" and "\<not> 1 < length (filter v_isDefault vs)"
      by (auto simp: chooseDefault_def Let_def split: if_splits)
    with False show ?thesis by (cases "filter v_isDefault vs") auto
  qed
qed

lemma parseVariants_table_ok: "parseVariants raw = Inr vs \<Longrightarrow> variant_table_ok vs"
proof -
  assume "parseVariants raw = Inr vs"
  then obtain ws where lines: "splitLines (Some raw) \<noteq> []"
    and rows: "parseVariantRows [] (splitLines (Some raw)) = Inr ws"
    and dflt: "chooseDefault ws = Inr vs"
    by (auto simp: parseVariants_def Let_def split: if_splits)
  note r = parseVariantRows_ok [OF rows]
  with lines have ne: "ws \<noteq> []" by auto
  note d = chooseDefault_ok [OF dflt ne]
  have "length vs = length ws" using d by (metis length_map)
  then have "vs \<noteq> []" using ne by auto
  with d r show ?thesis by (simp add: variant_table_ok_def)
qed

text \<open>Which tables are refused: nothing decides the owner of \<open>latest\<close> but the fifth column.\<close>

lemma chooseDefault_accepts:
  "vs \<noteq> [] \<Longrightarrow> (\<exists>ws. chooseDefault vs = Inr ws) \<longleftrightarrow>
     length (filter v_isDefault vs) = 1 \<or> (length vs = 1 \<and> filter v_isDefault vs = [])"
  by (cases vs; cases "filter v_isDefault vs")
    (auto simp: chooseDefault_def Let_def split: if_splits list.splits)

section \<open>Selecting variants\<close>

lemma variantSelection_result:
  "variantSelection vs raw = Inr ws \<Longrightarrow>
   ws = (if splitList raw = [] then vs else filter (\<lambda>v. v_name v \<in> set (splitList raw)) vs) \<and>
   set (splitList raw) \<subseteq> set (map v_name vs)"
  by (auto simp: variantSelection_def Let_def filter_empty_conv split: if_splits)

lemma variantSelection_error:
  "variantSelection vs raw = Inl e \<longleftrightarrow>
   \<not> set (splitList raw) \<subseteq> set (map v_name vs) \<and>
   e = ErrUnknownVariants (filter (\<lambda>n. n \<notin> set (map v_name vs)) (splitList raw)) (uniq (map v_name vs))"
  by (auto simp: variantSelection_def Let_def filter_empty_conv)

lemma variantSelection_nonempty: "variantSelection vs raw = Inr ws \<Longrightarrow> vs \<noteq> [] \<Longrightarrow> ws \<noteq> []"
proof -
  assume s: "variantSelection vs raw = Inr ws" and ne: "vs \<noteq> []"
  note r = variantSelection_result [OF s]
  show ?thesis
  proof (cases "splitList raw")
    case Nil
    with r ne show ?thesis by simp
  next
    case (Cons w rest)
    with r obtain v where "v \<in> set vs" "v_name v = w" by auto
    with r Cons show ?thesis by (auto simp: filter_empty_conv)
  qed
qed


section \<open>Key-value lines\<close>

text \<open>The pairs a \<open>KEY=VALUE\<close> line can carry.\<close>

definition kv_ok :: "string \<times> string \<Rightarrow> bool" where
  "kv_ok kv \<longleftrightarrow> (case kv of (k, v) \<Rightarrow>
     k \<noteq> [] \<and> trim k = k \<and> CHR ''='' \<notin> set k \<and> hd k \<noteq> CHR ''#'' \<and>
     newline \<notin> set k \<and> newline \<notin> set v \<and> (v = [] \<or> \<not> js_ws (last v)))"

definition kv_line :: "string \<times> string \<Rightarrow> string" where
  "kv_line kv = fst kv @ ''='' @ snd kv"

lemma kv_line_trim: "kv_ok kv \<Longrightarrow> trim (kv_line kv) = kv_line kv"
proof (rule trim_id)
  assume ok: "kv_ok kv"
  then have "fst kv \<noteq> []" "\<not> js_ws (hd (fst kv))"
    using trim_hd [of "fst kv"] by (auto simp: kv_ok_def)
  moreover have "\<not> js_ws (last (kv_line kv))"
    using ok by (cases "snd kv = []") (auto simp: kv_line_def kv_ok_def js_ws_def)
  ultimately show "kv_line kv = [] \<or> \<not> js_ws (hd (kv_line kv)) \<and> \<not> js_ws (last (kv_line kv))"
    by (simp add: kv_line_def)
qed

lemma kv_line_item: "kv_ok kv \<Longrightarrow> list_item (kv_line kv)"
  by (cases "fst kv") (auto simp: kv_ok_def kv_line_def list_item_def startsWith_def)

lemma keyValue_line: "kv_ok kv \<Longrightarrow> keyValue err (kv_line kv) = Inr kv"
  by (cases kv) (auto simp: kv_ok_def kv_line_def keyValue_def index_of_append)

lemma splitLines_kv_lines:
  assumes ok: "\<forall>kv \<in> set kvs. kv_ok kv"
  shows "splitLines (Some (join [newline] (map kv_line kvs))) = map kv_line kvs"
proof (cases kvs)
  case Nil
  then show ?thesis by (simp add: splitLines_def list_item_def)
next
  case (Cons kv kvs')
  have "\<forall>p \<in> set (map kv_line kvs). newline \<notin> set p"
    using ok by (auto simp: kv_ok_def kv_line_def)
  then have "split_on newline (join [newline] (map kv_line kvs)) = map kv_line kvs"
    using Cons by (intro split_on_join) auto
  moreover have "map trim (map kv_line kvs) = map kv_line kvs"
    using ok by (simp add: kv_line_trim)
  moreover have "filter list_item (map kv_line kvs) = map kv_line kvs"
    using ok by (simp add: kv_line_item)
  ultimately show ?thesis by (simp only: splitLines_def str_or_empty_simps)
qed

section \<open>Image bases\<close>

lemma image_char_facts:
  "image_char c \<Longrightarrow> \<not> js_ws c \<and> lower_char c = c \<and> c \<noteq> CHR '':''"
  by (auto simp: image_char_def name_char_def lower_char_def char_class_defs)

lemma lower_char_slash: "lower_char c = CHR ''/'' \<Longrightarrow> c = CHR ''/''"
proof -
  assume "lower_char c = CHR ''/''"
  then have "code (lower_char c) = 47" by simp
  then have "code c = code CHR ''/''" by (auto simp: code_lower_char is_upper_def split: if_splits)
  then show ?thesis by (simp only: of_char_eq_iff)
qed

definition image_base_ok :: "string \<Rightarrow> bool" where
  "image_base_ok v \<longleftrightarrow> v \<noteq> [] \<and> name_start (hd v) \<and> list_all image_char v \<and> last v \<noteq> CHR ''/'' \<and>
     (let head = hd (split_on CHR ''/'' v) in CHR ''.'' \<in> set head \<longrightarrow> startsWith v ''ghcr.io/'')"

lemma hd_split_on: "hd (split_on c s) = takeWhile (\<lambda>x. x \<noteq> c) s"
  by (induction s) (auto split: list.splits)

lemma image_char_start: "name_start c \<Longrightarrow> image_char c"
  by (simp add: name_start_char image_char_def)

lemma normalizeImageBase_ok: "normalizeImageBase base = Inr v \<Longrightarrow> image_base_ok v"
proof -
  assume ok: "normalizeImageBase base = Inr v"
  let ?w = "strip_trailing CHR ''/'' (strip_scheme (readOptional (Some base)))"
  let ?val = "js_lower ?w"
  have ne: "?val \<noteq> []" using ok by (auto simp: normalizeImageBase_def Let_def split: if_splits)
  have "last ?val \<noteq> CHR ''/''"
    using ne strip_trailing_last [of "CHR ''/''" "strip_scheme (readOptional (Some base))"]
    by (auto simp: js_lower_def last_map dest: lower_char_slash)
  moreover have v: "v = (if startsWith ?val ''docker.io/'' then drop 10 ?val else ?val)"
    and shape: "v \<noteq> []" "name_start (hd v)" "list_all image_char (tl v)"
    and host: "CHR ''.'' \<in> set (hd (split_on CHR ''/'' v)) \<longrightarrow> startsWith v ''ghcr.io/''"
    using ok by (auto simp: normalizeImageBase_def Let_def split: if_splits)
  ultimately have "last v \<noteq> CHR ''/''" by (auto simp: last_drop)
  moreover have "list_all image_char v" using shape by (cases v) (auto simp: image_char_start)
  ultimately show ?thesis using shape host by (simp add: image_base_ok_def)
qed

lemma startsWith_set: "startsWith s p \<Longrightarrow> set p \<subseteq> set s"
  by (auto simp: startsWith_iff)

lemma normalizeImageBase_fix: "image_base_ok v \<Longrightarrow> normalizeImageBase v = Inr v"
proof -
  assume ok: "image_base_ok v"
  then have chars: "\<forall>c \<in> set v. \<not> js_ws c \<and> lower_char c = c \<and> c \<noteq> CHR '':''"
    and ne: "v \<noteq> []" and start: "name_start (hd v)" and last: "last v \<noteq> CHR ''/''"
    and img: "list_all image_char v"
    and host: "CHR ''.'' \<in> set (hd (split_on CHR ''/'' v)) \<longrightarrow> startsWith v ''ghcr.io/''"
    by (auto simp: image_base_ok_def list_all_iff image_char_facts)
  have 1: "readOptional (Some v) = v" using chars by (simp add: readOptional_def trim_no_ws)
  have 2: "strip_scheme v = v"
    using chars startsWith_set [of v "''http://''"] startsWith_set [of v "''https://''"]
    by (auto simp: strip_scheme_def)
  have 3: "strip_trailing CHR ''/'' v = v" using last by (simp add: strip_trailing_id)
  have 4: "js_lower v = v" using chars by (simp add: js_lower_def map_idI)
  have 5: "\<not> startsWith v ''docker.io/''"
  proof
    assume "startsWith v ''docker.io/''"
    then obtain t where t: "v = ''docker.io/'' @ t" by (auto simp: startsWith_iff)
    then have "CHR ''.'' \<in> set (hd (split_on CHR ''/'' v))" by (simp add: hd_split_on)
    with host t show False by (simp add: startsWith_def)
  qed
  have 6: "CHR '':'' \<notin> set (hd (split_on CHR ''/'' v))"
    using chars by (auto simp: hd_split_on dest: set_takeWhileD)
  have 7: "startsWith v ''ghcr.io/'' \<Longrightarrow> hd (split_on CHR ''/'' v) = ''ghcr.io''"
    by (auto simp: startsWith_iff hd_split_on)
  have 8: "list_all image_char (tl v)" using img by (cases v) auto
  show ?thesis
    using ne start host 5 6 7 8 by (auto simp: normalizeImageBase_def 1 2 3 4 Let_def)
qed

section \<open>Images and credentials\<close>

lemma explicitImage_enabled:
  "explicitImage regs False raw = Inr i \<Longrightarrow>
   \<exists>r \<in> set regs. reg_enabled r \<and> reg_id r = img_registryId i"
  by (auto simp: explicitImage_def split: if_splits)

lemma derivedImage_registry: "derivedImage name r = Inr i \<Longrightarrow> img_registryId i = reg_id r"
  by (cases "reg_id r") (auto simp: derivedImage_def)

lemma imagesFrom_enabled:
  assumes "imagesFrom env regs repoName False = Inr imgs" and "i \<in> set imgs"
  shows "\<exists>r \<in> set regs. reg_enabled r \<and> reg_id r = img_registryId i"
proof (cases "splitList (env ''DOCKER_META_IMAGES'') = []")
  case True
  with assms(1) have "mapE (derivedImage (readOptional (Some repoName))) (filter reg_enabled regs) = Inr imgs"
    by (auto simp: imagesFrom_def Let_def split: if_splits)
  from mapE_mem [OF this assms(2)] show ?thesis by (fastforce dest: derivedImage_registry)
next
  case False
  with assms(1) have "mapE (explicitImage regs False) (splitList (env ''DOCKER_META_IMAGES'')) = Inr imgs"
    by (simp add: imagesFrom_def Let_def)
  from mapE_mem [OF this assms(2)] show ?thesis by (auto dest: explicitImage_enabled)
qed

lemma registriesFrom_enabled:
  "r \<in> set (registriesFrom env) \<Longrightarrow> reg_enabled r \<Longrightarrow>
   readOptional (env (reg_tokenVar r)) \<noteq> [] \<and> reg_user r \<noteq> [] \<and> reg_tokenVar r = token_var (reg_id r)"
  by (auto simp: registriesFrom_def registryEntry_def)

lemma explicitImage_base: "explicitImage regs p raw = Inr i \<Longrightarrow> image_base_ok (img_base i)"
  by (auto simp: explicitImage_def dest: normalizeImageBase_ok split: if_splits)

lemma derivedImage_base: "derivedImage name r = Inr i \<Longrightarrow> image_base_ok (img_base i)"
  by (auto simp: derivedImage_def dest: normalizeImageBase_ok)

lemma previewImage_base: "previewImage env name = Inr imgs \<Longrightarrow> i \<in> set imgs \<Longrightarrow> image_base_ok (img_base i)"
  by (auto simp: previewImage_def Let_def dest: normalizeImageBase_ok split: if_splits)

lemma imagesFrom_base:
  "imagesFrom env regs repoName preview = Inr imgs \<Longrightarrow> i \<in> set imgs \<Longrightarrow> image_base_ok (img_base i)"
  by (auto simp: imagesFrom_def Let_def dest!: mapE_mem
      dest: explicitImage_base derivedImage_base previewImage_base split: if_splits)


section \<open>Properties\<close>

text \<open>The built-in table, parsed.\<close>

definition default_table :: "variant list" where
  "default_table =
     [\<lparr>v_name = ''alpine'', v_dockerfile = ''Dockerfile.alpine'', v_target = [], v_suffix = ''-alpine'',
        v_isDefault = False, v_buildArgs = [], v_platforms = [''linux/amd64'', ''linux/arm64'']\<rparr>,
      \<lparr>v_name = ''trixie-slim'', v_dockerfile = ''Dockerfile.trixie-slim'', v_target = [], v_suffix = ''-trixie-slim'',
        v_isDefault = True, v_buildArgs = [], v_platforms = [''linux/amd64'', ''linux/arm64'']\<rparr>]"

lemma parse_default_table: "parseVariants DEFAULT_VARIANTS = Inr default_table"
  by code_simp

text \<open>The variants of an accepted table are its rows; a row that stands alone is the default.\<close>

lemma chooseDefault_rows:
  "chooseDefault vs = Inr ws \<Longrightarrow> ws = (if length vs = 1 then map (\<lambda>v. v\<lparr>v_isDefault := True\<rparr>) vs else vs)"
  by (cases vs) (auto simp: chooseDefault_def Let_def split: if_splits)

text \<open>C26: A variant table that is accepted is well formed: it has variants, their names are distinct and
  legal, every one has a Dockerfile and legal platforms, and exactly one of them is the default (the
  owner of \<open>latest\<close>).  In a table of several rows the default is the row whose fifth column says
  \<open>true\<close>; a row that stands alone is the default whatever its fifth column says, \<open>false\<close> included
  (which \<open>.forgejo/README.md\<close> denies).\<close>

theorem parseVariants_well_formed:
  assumes "parseVariants raw = Inr vs"
  shows "vs \<noteq> [] \<and> distinct (map v_name vs) \<and> length (filter v_isDefault vs) = 1 \<and>
    list_all (\<lambda>v. VARIANT_NAME (v_name v) \<and> v_dockerfile v \<noteq> [] \<and> list_all PLATFORM (v_platforms v)) vs \<and>
    (\<exists>rows. parseVariantRows [] (splitLines (Some raw)) = Inr rows \<and>
       vs = (if length rows = 1 then map (\<lambda>v. v\<lparr>v_isDefault := True\<rparr>) rows else rows))"
proof -
  obtain rows where "parseVariantRows [] (splitLines (Some raw)) = Inr rows" "chooseDefault rows = Inr vs"
    using assms by (auto simp: parseVariants_def Let_def bindE_Inr_iff split: if_splits)
  then have "\<exists>rows. parseVariantRows [] (splitLines (Some raw)) = Inr rows \<and>
      vs = (if length rows = 1 then map (\<lambda>v. v\<lparr>v_isDefault := True\<rparr>) rows else rows)"
    using chooseDefault_rows by blast
  then show ?thesis using parseVariants_table_ok [OF assms] by (auto simp: variant_table_ok_def variant_ok_def list_all_iff)
qed

text \<open>The case of \<open>.forgejo/README.md\<close>: a row that is marked \<open>false\<close> and stands alone.\<close>

theorem false_row_is_default:
  "\<exists>v. parseVariants ''alpine|Dockerfile.alpine||-alpine|false'' = Inr [v] \<and> v_isDefault v"
proof -
  have "parseVariants ''alpine|Dockerfile.alpine||-alpine|false'' =
      Inr [\<lparr>v_name = ''alpine'', v_dockerfile = ''Dockerfile.alpine'', v_target = [], v_suffix = ''-alpine'',
        v_isDefault = True, v_buildArgs = [], v_platforms = []\<rparr>]" by code_simp
  then show ?thesis by simp
qed

theorem parseVariants_well_formed_witness:
  "length (filter v_isDefault default_table) = 1 \<and> distinct (map v_name default_table)"
  using parseVariants_well_formed [OF parse_default_table] by simp

text \<open>Which tables are refused for their default column: more than one default, or none
  in a table of several variants (a single variant is the default without saying so).\<close>

theorem chooseDefault_decides:
  assumes "vs \<noteq> []"
  shows "(\<exists>ws. chooseDefault vs = Inr ws \<and> length (filter v_isDefault ws) = 1) \<longleftrightarrow>
    length (filter v_isDefault vs) = 1 \<or> (length vs = 1 \<and> filter v_isDefault vs = [])"
proof -
  have "length (filter v_isDefault ws) = 1" if "chooseDefault vs = Inr ws" for ws
    using chooseDefault_ok [OF that assms] by simp
  then show ?thesis using chooseDefault_accepts [OF assms] by metis
qed

theorem chooseDefault_decides_witness:
  "\<exists>ws. chooseDefault default_table = Inr ws \<and> length (filter v_isDefault ws) = 1"
proof -
  have "default_table \<noteq> []" "length (filter v_isDefault default_table) = 1" by (simp_all add: default_table_def)
  then show ?thesis using chooseDefault_decides [of default_table] by blast
qed

text \<open>Sanitizing a name gives a legal tag (at most 128 characters, no leading separator),
  and sanitizing it again changes nothing.\<close>

theorem sanitizeTagName_legal_idem:
  assumes "sanitizeTagName x = Inr name"
  shows "name \<noteq> [] \<and> length name \<le> 128 \<and> list_all tag_char name \<and>
    hd name \<noteq> CHR ''.'' \<and> hd name \<noteq> CHR ''-'' \<and> sanitizeTagName name = Inr name"
  using tags.san_legal [OF assms] tags.san_idem [OF assms] by (auto simp: legal_tag_def tag_strip_def)

theorem sanitizeTagName_legal_idem_witness: "sanitizeTagName ''releases-v1'' = Inr ''releases-v1''"
proof -
  have "sanitizeTagName ''releases/v1'' = Inr ''releases-v1''" by code_simp
  from sanitizeTagName_legal_idem [OF this] show ?thesis by simp
qed

text \<open>Staging tags never collide: two variants of one release (same version and commit)
  with the same staging tag are the same variant.\<close>

theorem staging_tags_distinct:
  assumes "VARIANT_NAME v" "VARIANT_NAME w" "stagingTagName version sha v = Inr t"
    "stagingTagName version sha w = Inr t"
  shows "v = w"
  by (rule staging_tag_inj [OF assms])

theorem staging_tags_distinct_witness:
  "\<not> (stagingTagName ''1.0.0'' ''abc'' ''alpine'' = Inr ''staging-1.0.0-abc-alpine'' \<and>
      stagingTagName ''1.0.0'' ''abc'' ''slim'' = Inr ''staging-1.0.0-abc-alpine'')"
proof -
  have "VARIANT_NAME ''alpine''" "VARIANT_NAME ''slim''" by code_simp+
  then show ?thesis using staging_tags_distinct [of "''alpine''" "''slim''"] by auto
qed

text \<open>C27: Writing pairs one per line as \<open>KEY=VALUE\<close> and parsing them gives the pairs back, in
  order: values may hold commas, semicolons and equals signs.  (A key is not empty, has no blanks around
  it, no equals sign and no leading hash; neither part holds a line break, and a value does not end in a
  blank.)\<close>

theorem parseKeyValues_roundtrip:
  assumes "\<forall>kv \<in> set kvs. kv_ok kv"
  shows "parseKeyValues (Some (join [newline] (map kv_line kvs))) what = Inr kvs"
proof -
  have "mapE (\<lambda>line. keyValue (ErrKeyValue what line) line) (map kv_line kvs) = Inr kvs"
    using assms by (induction kvs) (simp_all add: keyValue_line)
  then show ?thesis by (simp add: parseKeyValues_def splitLines_kv_lines [OF assms])
qed

theorem parseKeyValues_roundtrip_witness:
  "parseKeyValues (Some (join [newline] (map kv_line [(''A'', ''x=1,y''), (''B'', [])]))) ''ARGS'' =
     Inr [(''A'', ''x=1,y''), (''B'', [])]"
  by (rule parseKeyValues_roundtrip) code_simp

text \<open>Every image that is published belongs to a registry whose credentials are there,
  and its name is normalized: normalizing it again changes nothing.\<close>

theorem images_have_credentials:
  assumes "imagesFrom env (registriesFrom env) repoName False = Inr imgs" and "i \<in> set imgs"
  shows "readOptional (env (token_var (img_registryId i))) \<noteq> [] \<and>
    normalizeImageBase (img_base i) = Inr (img_base i)"
proof -
  obtain r where r: "r \<in> set (registriesFrom env)" "reg_enabled r" "reg_id r = img_registryId i"
    using imagesFrom_enabled [OF assms] by blast
  then have "readOptional (env (token_var (img_registryId i))) \<noteq> []"
    using registriesFrom_enabled [OF r(1,2)] r(3) by metis
  with imagesFrom_base [OF assms, THEN normalizeImageBase_fix] show "readOptional (env (token_var (img_registryId i))) \<noteq> [] \<and>
    normalizeImageBase (img_base i) = Inr (img_base i)"
    by blast
qed

theorem images_have_credentials_witness:
  "readOptional (([''GHCR_TOKEN'' \<mapsto> ''t'', ''GITHUB_REPOSITORY'' \<mapsto> ''Own/app''] :: env) (token_var Ghcr)) \<noteq> []"
proof -
  have "imagesFrom [''GHCR_TOKEN'' \<mapsto> ''t'', ''GITHUB_REPOSITORY'' \<mapsto> ''Own/app'']
      (registriesFrom [''GHCR_TOKEN'' \<mapsto> ''t'', ''GITHUB_REPOSITORY'' \<mapsto> ''Own/app'']) ''App'' False =
      Inr [\<lparr>img_base = ''ghcr.io/own/app'', img_registryId = Ghcr, img_preview = False\<rparr>]" by code_simp
  from images_have_credentials [OF this] show ?thesis by simp
qed

end
