(* ===== verification/Release_State.thy ===== *)
theory Release_State
  imports Config
begin

text \<open>
  The state file \<open>docker-publish.json\<close>: what \<open>resolve\<close> writes and the later steps read
  and extend (\<open>builds\<close> by \<open>meta\<close>, \<open>results\<close> by \<open>build-push\<close> and \<open>publish\<close>).
  Writing and reading it as JSON is the identity on this data, so the steps pass the record.
\<close>

text \<open>One entry of \<open>state.builds\<close>.\<close>

record build =
  b_variant :: string
  b_suffix :: string
  b_dockerfile :: string
  b_target :: string
  b_isDefault :: bool
  b_buildArgs :: "(string \<times> string) list"
  b_platforms :: "string list"
  b_tagNames :: "string list"
  b_labels :: "(string \<times> string) list"
  b_images :: "tagged_image list"

text \<open>One entry of \<open>state.results\<close>.  \<open>build-push\<close> fills the staging refs, the platforms and
  \<open>skipped\<close>; \<open>publish\<close> fills the published refs.  A field the writer leaves out is empty.\<close>

datatype result_builder = Buildx | Imagetools

record run_result =
  r_variant :: string
  r_builder :: result_builder
  r_digest :: string
  r_platforms :: "string list"
  r_staging :: "string list"
  r_published :: "string list"
  r_tagNames :: "string list"
  r_images :: "(string \<times> string list) list" \<comment> \<open>base and tags\<close>
  r_skipped :: bool

datatype version_source = FromInput | FromRef

record release_state =
  st_version :: string
  st_tag :: string
  st_versionSource :: version_source
  st_prerelease :: bool
  st_sha :: string
  st_shortSha :: string
  st_repo :: string
  st_repoName :: string
  st_serverUrl :: string
  st_runUrl :: string
  st_runNumber :: string
  st_runAttempt :: string
  st_eventName :: string
  st_refName :: string
  st_ref :: string
  st_isTagEvent :: bool
  st_isBranchEvent :: bool
  st_isPrEvent :: bool
  st_dryRun :: bool
  st_variants :: "variant list"
  st_registries :: "registry list"
  st_images :: "image list"
  st_options :: build_options
  st_builds :: "build list"
  st_results :: "run_result list"

end
