(* ===== verification/JS_Host.thy ===== *)
theory JS_Host
  imports JS_Prelude
begin

text \<open>
  The outside of the scripts.  \<open>spawnSync\<close> is a parameter \<open>run\<close> that answers a command
  and may change the world \<open>'w\<close> (docker, the registries, the package manager live there);
  the file system is read through a parameter \<open>exists\<close>.  What the scripts do to the
  outside is recorded: every command that was started, in order.
\<close>

record proc =
  p_status :: "int option" \<comment> \<open>\<open>null\<close> when the process was not started or was killed\<close>
  p_stdout :: string
  p_stderr :: string
  p_error :: "string option" \<comment> \<open>\<open>result.error.message\<close>\<close>

record cmd =
  c_program :: string
  c_args :: "string list"
  c_input :: "string option" \<comment> \<open>text fed through standard input\<close>
  c_env :: "(string \<times> string) list" \<comment> \<open>variables added to the environment\<close>

type_synonym 'w runner = "cmd \<Rightarrow> 'w \<Rightarrow> proc \<times> 'w"
type_synonym 'w file_test = "'w \<Rightarrow> string \<Rightarrow> bool"

record 'w sys =
  world :: 'w
  log :: "cmd list"

definition command :: "string \<Rightarrow> string list \<Rightarrow> cmd" where
  "command program args = \<lparr>c_program = program, c_args = args, c_input = None, c_env = []\<rparr>"

definition run_cmd :: "'w runner \<Rightarrow> cmd \<Rightarrow> 'w sys \<Rightarrow> proc \<times> 'w sys" where
  "run_cmd run c s =
     (let (p, w) = run c (world s) in (p, s\<lparr>world := w, log := log s @ [c]\<rparr>))"

lemma run_cmd_log [simp]: "log (snd (run_cmd run c s)) = log s @ [c]"
  by (simp add: run_cmd_def split_beta Let_def)

lemma run_cmd_world: "world (snd (run_cmd run c s)) = snd (run c (world s))"
  by (simp add: run_cmd_def split_beta Let_def)

lemma run_cmd_proc: "fst (run_cmd run c s) = fst (run c (world s))"
  by (simp add: run_cmd_def split_beta Let_def)

lemma run_cmd_pair: "run_cmd run c s = (p, s') \<Longrightarrow>
   log s' = log s @ [c] \<and> world s' = snd (run c (world s)) \<and> p = fst (run c (world s))"
  by (auto simp: run_cmd_def split_beta Let_def)

text \<open>\<open>result.status === 0\<close>, and \<open>result.status === 0 ? 0 : result.status ?? 1\<close>.\<close>

definition succeeded :: "proc \<Rightarrow> bool" where
  "succeeded p \<longleftrightarrow> p_status p = Some 0"

definition exit_status :: "proc \<Rightarrow> int" where
  "exit_status p = (case p_status p of Some n \<Rightarrow> n | None \<Rightarrow> 1)"

lemma exit_status_0: "exit_status p = 0 \<longleftrightarrow> succeeded p"
  by (auto simp: exit_status_def succeeded_def split: option.splits)

end
