(* ===== verification/JS_Map.thy ===== *)
theory JS_Map
  imports JS_Prelude
begin

text \<open>
  The JavaScript \<open>Map\<close>: entries in insertion order, an overwrite keeps its place.  The
  interface \<open>js_map\<close> states what the clients rely on (lookup after an insertion, the
  order of the keys); its lemmas about loops of insertions are proved once here and reach
  the components through the interpretation \<open>jm\<close> on the association-list model.
\<close>

section \<open>The interface\<close>

locale js_map =
  fixes empty :: "'m"
    and insert :: "'k \<Rightarrow> 'v \<Rightarrow> 'm \<Rightarrow> 'm"
    and get :: "'k \<Rightarrow> 'm \<Rightarrow> 'v option"
    and keys :: "'m \<Rightarrow> 'k list"
    and inv :: "'m \<Rightarrow> bool"
  assumes inv_empty: "inv empty"
    and inv_insert: "inv m \<Longrightarrow> inv (insert k v m)"
    and keys_empty: "keys empty = []"
    and keys_insert: "inv m \<Longrightarrow>
      keys (insert k v m) = (if get k m = None then keys m @ [k] else keys m)"
    and get_None: "inv m \<Longrightarrow> get k m = None \<longleftrightarrow> k \<notin> set (keys m)"
    and get_insert: "inv m \<Longrightarrow> get k' (insert k v m) = (if k' = k then Some v else get k' m)"
    and distinct_keys: "inv m \<Longrightarrow> distinct (keys m)"
begin

lemma get_empty: "get k empty = None"
  by (simp add: get_None inv_empty keys_empty)

lemma set_keys_insert: "inv m \<Longrightarrow> set (keys (insert k v m)) = set (keys m) \<union> {k}"
  by (auto simp: keys_insert get_None)

text \<open>A loop of insertions: the last write of a key wins.\<close>

lemma inv_fold_insert: "inv m \<Longrightarrow> inv (fold (\<lambda>(k, v). insert k v) kvs m)"
  by (induction kvs arbitrary: m) (auto simp: inv_insert)

lemma set_keys_fold_insert:
  "inv m \<Longrightarrow> set (keys (fold (\<lambda>(k, v). insert k v) kvs m)) = set (keys m) \<union> fst ` set kvs"
  by (induction kvs arbitrary: m) (simp_all add: inv_insert set_keys_insert split_beta Un_assoc)

lemma get_fold_insert:
  "inv m \<Longrightarrow> get k (fold (\<lambda>(k, v). insert k v) kvs m) =
     (case map_of (rev kvs) k of None \<Rightarrow> get k m | Some v \<Rightarrow> Some v)"
proof (induction kvs arbitrary: m)
  case Nil
  then show ?case by simp
next
  case (Cons kv kvs)
  then show ?case
    by (cases kv) (auto simp: inv_insert get_insert map_add_def split: option.splits)
qed

text \<open>A loop that only inserts missing keys: the first write wins.\<close>

abbreviation insert_new :: "'k \<times> 'v \<Rightarrow> 'm \<Rightarrow> 'm" where
  "insert_new \<equiv> \<lambda>(k, v) m. if get k m = None then insert k v m else m"

lemma inv_fold_insert_new: "inv m \<Longrightarrow> inv (fold insert_new kvs m)"
  by (induction kvs arbitrary: m) (auto simp: inv_insert)

lemma set_keys_fold_insert_new:
  "inv m \<Longrightarrow> set (keys (fold insert_new kvs m)) = set (keys m) \<union> fst ` set kvs"
  by (induction kvs arbitrary: m)
    (auto simp: inv_insert set_keys_insert get_None split_beta split: if_splits)

lemma get_fold_insert_new:
  "inv m \<Longrightarrow> get k (fold insert_new kvs m) =
     (case get k m of None \<Rightarrow> map_of kvs k | Some v \<Rightarrow> Some v)"
proof (induction kvs arbitrary: m)
  case Nil
  then show ?case by (simp split: option.splits)
next
  case (Cons kv kvs)
  then show ?case
    by (cases kv) (auto simp: inv_insert get_insert split: option.splits)
qed

end

section \<open>The model: an association list\<close>

type_synonym ('k, 'v) jmap = "('k \<times> 'v) list"

fun jm_set :: "'k \<Rightarrow> 'v \<Rightarrow> ('k, 'v) jmap \<Rightarrow> ('k, 'v) jmap" where
  "jm_set k v [] = [(k, v)]"
| "jm_set k v ((k', v') # m) = (if k' = k then (k, v) # m else (k', v') # jm_set k v m)"

definition jm_get :: "'k \<Rightarrow> ('k, 'v) jmap \<Rightarrow> 'v option" where
  "jm_get k m = map_of m k"

definition jm_keys :: "('k, 'v) jmap \<Rightarrow> 'k list" where
  "jm_keys m = map fst m"

definition jm_values :: "('k, 'v) jmap \<Rightarrow> 'v list" where
  "jm_values m = map snd m"

definition jm_inv :: "('k, 'v) jmap \<Rightarrow> bool" where
  "jm_inv m \<longleftrightarrow> distinct (map fst m)"

lemma jm_get_Nil [simp]: "jm_get k [] = None"
  by (simp add: jm_get_def)

lemma jm_get_Cons [simp]: "jm_get k ((k', v) # m) = (if k' = k then Some v else jm_get k m)"
  by (simp add: jm_get_def)

lemma jm_get_set: "jm_get k' (jm_set k v m) = (if k' = k then Some v else jm_get k' m)"
  by (induction m) auto

lemma jm_keys_set:
  "map fst (jm_set k v m) = (if jm_get k m = None then map fst m @ [k] else map fst m)"
  by (induction m) (auto split: if_splits)

lemma jm_get_None: "jm_get k m = None \<longleftrightarrow> k \<notin> fst ` set m"
  by (simp add: jm_get_def map_of_eq_None_iff)

lemma jm_inv_set: "jm_inv m \<Longrightarrow> jm_inv (jm_set k v m)"
  by (auto simp: jm_inv_def jm_keys_set jm_get_None)

interpretation jm: js_map "[]" jm_set jm_get jm_keys jm_inv
proof unfold_locales
  show "jm_inv []" by (simp add: jm_inv_def)
  show "jm_keys [] = []" by (simp add: jm_keys_def)
qed (auto simp: jm_inv_set jm_get_set jm_get_None jm_keys_set jm_keys_def, simp add: jm_inv_def)

lemma jm_get_mem: "jm_inv m \<Longrightarrow> jm_get k m = Some v \<longleftrightarrow> (k, v) \<in> set m"
  by (simp add: jm_inv_def jm_get_def)

lemma jm_set_entries:
  "jm_inv m \<Longrightarrow> set (jm_set k v m) = {(k', v') \<in> set m. k' \<noteq> k} \<union> {(k, v)}"
  by (induction m) (force simp: jm_inv_def)+

section \<open>Plain objects used as dictionaries\<close>

text \<open>
  An object literal filled by \<open>o[key] = value\<close>.  Assigning a string to \<open>__proto__\<close> sets
  no own property.  \<open>Object.entries\<close> lists integer-like keys first, in ascending order,
  then the other keys in insertion order.
\<close>

definition jo_set :: "string \<Rightarrow> 'v \<Rightarrow> (string, 'v) jmap \<Rightarrow> (string, 'v) jmap" where
  "jo_set k v m = (if k = ''__proto__'' then m else jm_set k v m)"

fun digits_value :: "nat \<Rightarrow> string \<Rightarrow> nat" where
  "digits_value n [] = n"
| "digits_value n (c # cs) = digits_value (10 * n + (code c - 48)) cs"

definition index_key :: "string \<Rightarrow> bool" where
  "index_key k \<longleftrightarrow> k \<noteq> [] \<and> list_all is_digit k \<and> (k = ''0'' \<or> hd k \<noteq> CHR ''0'') \<and>
     length k \<le> 10 \<and> digits_value 0 k < 4294967295"

fun insert_index :: "string \<times> 'v \<Rightarrow> (string, 'v) jmap \<Rightarrow> (string, 'v) jmap" where
  "insert_index e [] = [e]"
| "insert_index e (x # xs) =
     (if digits_value 0 (fst e) \<le> digits_value 0 (fst x) then e # x # xs
      else x # insert_index e xs)"

definition jo_entries :: "(string, 'v) jmap \<Rightarrow> (string, 'v) jmap" where
  "jo_entries m =
     foldr insert_index (filter (\<lambda>(k, v). index_key k) m) [] @ filter (\<lambda>(k, v). \<not> index_key k) m"

lemma set_insert_index: "set (insert_index e xs) = insert e (set xs)"
  by (induction xs) auto

lemma set_jo_entries: "set (jo_entries m) = set m"
proof -
  have sub: "set (foldr insert_index xs []) = set xs" for xs :: "(string, 'a) jmap"
    by (induction xs) (auto simp: set_insert_index)
  show ?thesis by (auto simp: jo_entries_def sub)
qed

lemma jo_inv_set: "jm_inv m \<Longrightarrow> jm_inv (jo_set k v m)"
  by (simp add: jo_set_def jm_inv_set)

lemma jo_get_set:
  "jm_get k' (jo_set k v m) = (if k' = k \<and> k \<noteq> ''__proto__'' then Some v else jm_get k' m)"
  by (auto simp: jo_set_def jm_get_set)

end
