(* ===== verification/Endpoints.thy ===== *)
theory Endpoints
  imports Config JS_Host JS_Map
begin

text \<open>
  \<open>endpoints.mjs\<close>: is a configured \<open>*_PROXY\<close> value a mirror or a forward proxy, and what
  docker can the runner offer.  \<open>fetch\<close> is a parameter: the answer to a probe request.
\<close>

section \<open>Reading endpoint variables\<close>

definition PROXY_VARS :: "string list" where
  "PROXY_VARS = [''ALL_PROXY'', ''HTTPS_PROXY'', ''HTTP_PROXY'', ''NO_PROXY'', ''APT_PROXY'']"

definition MANAGER_PROXY_VARS :: "string \<Rightarrow> string list" where
  "MANAGER_PROXY_VARS manager =
     (if manager = ''apt-get'' then [''APT_PROXY'']
      else if manager = ''npm'' then [''NPM_PROXY''] else [])"

fun envValue :: "env \<Rightarrow> string list \<Rightarrow> string" where
  "envValue env [] = []"
| "envValue env (name # names) =
     (let value = (case env name of Some v \<Rightarrow> Some v | None \<Rightarrow> env (js_lower name)) in
      if trim (str_or_empty value) \<noteq> [] then strip_trailing CHR ''/'' (trim (str_or_empty value))
      else envValue env names)"

definition goProxyFrom :: "env \<Rightarrow> string" where
  "goProxyFrom env = envValue env [''GOPROXY'']"

section \<open>os-release\<close>

definition os_key_char :: "char \<Rightarrow> bool" where
  "os_key_char c \<longleftrightarrow> is_upper c \<or> c = CHR ''_''"

definition is_quote :: "char \<Rightarrow> bool" where
  "is_quote c \<longleftrightarrow> code c = 34 \<or> code c = 39"

text \<open>\<open>replace(/^["']|["']$/g, '')\<close>\<close>

definition unquote :: "string \<Rightarrow> string" where
  "unquote v =
     (let v1 = (if v \<noteq> [] \<and> is_quote (hd v) then tl v else v) in
      if v1 \<noteq> [] \<and> is_quote (last v1) then butlast v1 else v1)"

text \<open>One line against \<open>/^\s*([A-Z_]+)\s*=\s*(.*?)\s*$/\<close>; \<open>.\<close> does not match a line end.\<close>

definition os_release_line :: "string \<Rightarrow> (string \<times> string) option" where
  "os_release_line line =
     (let l = dropWhile js_ws line;
          key = takeWhile os_key_char l;
          r = dropWhile js_ws (dropWhile os_key_char l) in
      case r of
        [] \<Rightarrow> None
      | c # cs \<Rightarrow>
          if key \<noteq> [] \<and> c = CHR ''='' \<and> \<not> list_ex is_line_end (trim cs)
          then Some (key, unquote (trim cs)) else None)"

definition parseOsRelease :: "string \<Rightarrow> (string, string) jmap" where
  "parseOsRelease text =
     fold (\<lambda>line out. case os_release_line line of None \<Rightarrow> out | Some (k, v) \<Rightarrow> jm_set k v out)
       (split_on newline text) []"

section \<open>Classifying an endpoint\<close>

definition os_field :: "string \<Rightarrow> (string, string) jmap \<Rightarrow> string" where
  "os_field k osRelease = str_or_empty (jm_get k osRelease)"

definition has_apt_path :: "string \<Rightarrow> bool" where
  "has_apt_path url \<longleftrightarrow>
     endsWith url ''/debian'' \<or> endsWith url ''/ubuntu'' \<or> endsWith url ''/debian-security''"

definition expandEndpoint :: "string \<Rightarrow> string \<Rightarrow> (string, string) jmap \<Rightarrow> string list" where
  "expandEndpoint manager base osRelease =
     (let url = strip_trailing CHR ''/'' base in
      if url = [] then []
      else if manager = ''apt-get'' then
        [url @ (if has_apt_path url then []
                else if os_field ''ID'' osRelease = ''ubuntu'' then ''/ubuntu'' else ''/debian'')]
      else [url])"

definition endpointProbeUrl :: "string \<Rightarrow> string \<Rightarrow> (string, string) jmap \<Rightarrow> string" where
  "endpointProbeUrl manager endpoint osRelease =
     (if manager = ''apt-get'' then
        (let suite = (if os_field ''VERSION_CODENAME'' osRelease \<noteq> []
                      then os_field ''VERSION_CODENAME'' osRelease
                      else os_field ''VERSION_ID'' osRelease) in
         if suite \<noteq> [] then endpoint @ ''/dists/'' @ suite @ ''/InRelease'' else [])
      else if manager = ''npm'' then endpoint @ ''/-/ping''
      else [])"

text \<open>\<open>fetch(url)\<close>: it throws (no answer within the time limit) or answers, \<open>ok\<close> or not.\<close>

datatype fetch_result = FetchThrows | FetchOk bool

definition probeEndpoint ::
    "(string \<Rightarrow> fetch_result) \<Rightarrow> string \<Rightarrow> string \<Rightarrow> (string, string) jmap \<Rightarrow> bool" where
  "probeEndpoint fetch base manager osRelease =
     (case expandEndpoint manager base osRelease of
        [] \<Rightarrow> False
      | endpoint # _ \<Rightarrow>
          (let url = endpointProbeUrl manager endpoint osRelease in
           if url = [] then True
           else case fetch url of FetchOk b \<Rightarrow> b | FetchThrows \<Rightarrow> True))"

datatype endpoint_source = Unconfigured | ProxyAsMirror | ForwardProxy

record endpoint =
  e_mirror :: "string list"
  e_proxy :: string
  e_source :: endpoint_source

definition resolveEndpoint ::
    "(string \<Rightarrow> fetch_result) \<Rightarrow> string \<Rightarrow> env \<Rightarrow> (string, string) jmap \<Rightarrow> endpoint" where
  "resolveEndpoint fetch manager env osRelease =
     (let candidate = envValue env (MANAGER_PROXY_VARS manager) in
      if candidate = [] then \<lparr>e_mirror = [], e_proxy = [], e_source = Unconfigured\<rparr>
      else if probeEndpoint fetch candidate manager osRelease
      then \<lparr>e_mirror = expandEndpoint manager candidate osRelease, e_proxy = [],
            e_source = ProxyAsMirror\<rparr>
      else \<lparr>e_mirror = [], e_proxy = candidate, e_source = ForwardProxy\<rparr>)"

section \<open>Probing docker\<close>

definition hasBinary :: "'w runner \<Rightarrow> string \<Rightarrow> 'w sys \<Rightarrow> bool \<times> 'w sys" where
  "hasBinary run binary s =
     (let (p, s') = run_cmd run
        (if binary = ''buildx'' then command ''docker'' [''buildx'', ''version'']
         else command ''sh'' [''-c'', ''command -v '' @ binary]) s
      in (succeeded p, s'))"

text \<open>The \<open>error\<close> field: nothing, the CLI is missing, docker's own words, or the fixed
  fallback text.\<close>

datatype docker_error = NoDockerError | DockerMissing | DockerSays string | DockerVersionFailed

record docker =
  d_cli :: bool
  d_daemon :: bool
  d_buildx :: bool
  d_server :: string
  d_host :: string
  d_socketPath :: string
  d_socketPresent :: "bool option"
  d_error :: docker_error

definition socketPathOf :: "string \<Rightarrow> string" where
  "socketPathOf host =
     (if startsWith host ''unix://'' then drop 7 host
      else if host = [] then ''/var/run/docker.sock'' else [])"

definition probeDocker :: "env \<Rightarrow> 'w runner \<Rightarrow> 'w file_test \<Rightarrow> 'w sys \<Rightarrow> docker \<times> 'w sys" where
  "probeDocker env run exists s =
     (let (cli, s1) = hasBinary run ''docker'' s in
      if \<not> cli then
        (\<lparr>d_cli = False, d_daemon = False, d_buildx = False, d_server = [], d_host = [],
          d_socketPath = [], d_socketPresent = None, d_error = DockerMissing\<rparr>, s1)
      else
        let (version, s2) = run_cmd run
              (command ''docker'' [''version'', ''--format'', ''{{.Server.Version}}'']) s1;
            server = (if succeeded version then trim (p_stdout version) else []);
            host = trim (str_or_empty (env ''DOCKER_HOST''));
            socketPath = socketPathOf host;
            socketPresent = (if socketPath \<noteq> [] then Some (exists (world s2) socketPath) else None);
            (buildx, s3) = hasBinary run ''buildx'' s2
        in (\<lparr>d_cli = True, d_daemon = succeeded version, d_buildx = buildx, d_server = server,
             d_host = host, d_socketPath = socketPath, d_socketPresent = socketPresent,
             d_error = (if succeeded version then NoDockerError
                        else if p_stderr version \<noteq> [] then DockerSays (trim (p_stderr version))
                        else DockerVersionFailed)\<rparr>, s3))"

section \<open>What the classification guarantees\<close>

lemma endsWith_append [simp]: "endsWith (t @ p) p"
  by (simp add: endsWith_def)

lemma resolveEndpoint_cases:
  fixes fetch manager env osRelease
  defines "e \<equiv> resolveEndpoint fetch manager env osRelease"
    and "c \<equiv> envValue env (MANAGER_PROXY_VARS manager)"
  shows "e_source e = Unconfigured \<Longrightarrow> c = [] \<and> e_mirror e = [] \<and> e_proxy e = []"
    and "e_source e = ForwardProxy \<Longrightarrow> e_mirror e = [] \<and> e_proxy e = c"
    and "e_source e = ProxyAsMirror \<Longrightarrow>
           e_mirror e = expandEndpoint manager c osRelease \<and> e_mirror e \<noteq> [] \<and> e_proxy e = []"
  by (auto simp: e_def c_def resolveEndpoint_def probeEndpoint_def Let_def
      split: if_splits list.splits)

lemma has_apt_path_added: "has_apt_path (url @ ''/ubuntu'')" "has_apt_path (url @ ''/debian'')"
  by (simp_all add: has_apt_path_def del: append_Cons)

text \<open>Expanding an expanded endpoint changes nothing.\<close>

lemma expandEndpoint_idem:
  "expandEndpoint manager base os = [u] \<Longrightarrow> expandEndpoint manager u os = [u]"
proof -
  assume u: "expandEndpoint manager base os = [u]"
  let ?url = "strip_trailing CHR ''/'' base"
  from u have ne: "?url \<noteq> []" by (auto simp: expandEndpoint_def Let_def split: if_splits)
  show ?thesis
  proof (cases "manager = ''apt-get''")
    case False
    with u ne have "u = ?url" by (simp add: expandEndpoint_def)
    with False ne show ?thesis by (simp add: expandEndpoint_def)
  next
    case True
    with u ne have uq: "u = ?url @ (if has_apt_path ?url then []
        else if os_field ''ID'' os = ''ubuntu'' then ''/ubuntu'' else ''/debian'')"
      by (auto simp: expandEndpoint_def Let_def split: if_splits)
    then have path: "has_apt_path u" using has_apt_path_added by (auto split: if_splits)
    have "last u \<noteq> CHR ''/''" using uq ne strip_trailing_last [of "CHR ''/''" base] by auto
    then have "strip_trailing CHR ''/'' u = u" by (simp add: strip_trailing_id)
    with True path ne uq show ?thesis by (simp add: expandEndpoint_def Let_def)
  qed
qed

lemma probeDocker_consistent:
  "probeDocker env run exists s = (d, s') \<Longrightarrow>
   (d_daemon d \<or> d_buildx d \<longrightarrow> d_cli d) \<and> (d_daemon d \<longleftrightarrow> d_error d = NoDockerError)"
  by (auto simp: probeDocker_def Let_def split_beta split: if_splits)

lemma hasBinary_log: "hasBinary run b s = (r, s') \<Longrightarrow> \<exists>c. log s' = log s @ [c] \<and>
   (c_args c = [''buildx'', ''version''] \<or> c_program c = ''sh'')"
  by (auto simp: hasBinary_def Let_def split_beta command_def)

end
