(* ===== verification/Resolve.thy ===== *)
theory Resolve
  imports Release_State Endpoints
begin

text \<open>
  \<open>resolve.mjs\<close>: the release identity from the triggering tag or the typed version, the
  skeleton of the build plan, and the build arguments filled in at run time.
\<close>

section \<open>Versions\<close>

definition numeric_id :: "string \<Rightarrow> bool" where
  "numeric_id s \<longleftrightarrow> s = ''0'' \<or> (s \<noteq> [] \<and> hd s \<noteq> CHR ''0'')"

definition prerelease_char :: "char \<Rightarrow> bool" where
  "prerelease_char c \<longleftrightarrow>
     is_digit c \<or> is_upper c \<or> is_lower c \<or> c = CHR ''.'' \<or> c = CHR ''-''"

text \<open>A number, which must be followed by a dot: the rest after the dot.\<close>

definition semver_part :: "string \<Rightarrow> string option" where
  "semver_part s =
     (let n = takeWhile is_digit s; r = dropWhile is_digit s in
      if numeric_id n \<and> r \<noteq> [] \<and> hd r = CHR ''.'' then Some (tl r) else None)"

definition SEMVER :: "string \<Rightarrow> bool" where
  "SEMVER s =
     (case Option.bind (semver_part s) semver_part of
        None \<Rightarrow> False
      | Some t \<Rightarrow>
          (let n = takeWhile is_digit t; r = dropWhile is_digit t in
           numeric_id n \<and>
           (r = [] \<or> (hd r = CHR ''-'' \<and> tl r \<noteq> [] \<and> list_all prerelease_char (tl r)))))"

definition stripTagPrefix :: "string \<Rightarrow> string" where
  "stripTagPrefix tag =
     (let value = trim tag;
          value = (if startsWith value ''refs/tags/'' then drop 10 value else value)
      in if startsWith value ''v'' then drop 1 value else value)"

definition tagVersionFromRef :: "string \<Rightarrow> string" where
  "tagVersionFromRef ref =
     (let rest = drop 10 ref in
      if startsWith ref ''refs/tags/'' \<and> rest \<noteq> [] \<and> \<not> list_ex is_line_end rest then rest else [])"

section \<open>Dispatch inputs\<close>

text \<open>\<open>/^\s*\$\{\{[^}]*\}\}\s*$/\<close>: the characters \<open>$\<close>, \<open>{\<close> and \<open>}\<close> have codes 36, 123, 125.\<close>

definition UNEXPANDED_EXPRESSION :: "string \<Rightarrow> bool" where
  "UNEXPANDED_EXPRESSION s =
     (let t = trim s in
      startsWith t [CHR 0x24, CHR 0x7B, CHR 0x7B] \<and>
      dropWhile (\<lambda>c. c \<noteq> CHR 0x7D) (drop 3 t) = [CHR 0x7D, CHR 0x7D])"

text \<open>The \<open>inputs\<close> of the event payload: \<open>readInputs file\<close> is \<^const>\<open>None\<close> when the file
  cannot be read or parsed, or holds no \<open>inputs\<close> object.\<close>

definition readEventInputs ::
    "(string \<Rightarrow> (string \<Rightarrow> string option) option) \<Rightarrow> env \<Rightarrow> string \<Rightarrow> string option" where
  "readEventInputs readInputs env =
     (let file = readOptional (env ''GITHUB_EVENT_PATH'') in
      if file = [] then Map.empty
      else case readInputs file of None \<Rightarrow> Map.empty | Some inputs \<Rightarrow> inputs)"

text \<open>The value of one input, and the warning given for an unexpanded expression (the
  variable, its raw text, the value taken from the event instead).\<close>

definition dispatchInput ::
    "env \<Rightarrow> string \<Rightarrow> (string \<Rightarrow> string option) \<Rightarrow> string \<times> (string \<times> string \<times> string) list" where
  "dispatchInput env name eventInputs =
     (let key = ''INPUT_'' @ name;
          raw = readOptional (env key);
          fromEvent = readOptional
            (case eventInputs (js_lower name) of Some v \<Rightarrow> Some v | None \<Rightarrow> eventInputs name)
      in if raw \<noteq> [] \<and> UNEXPANDED_EXPRESSION raw then (fromEvent, [(key, raw, fromEvent)])
         else (if raw \<noteq> [] then raw else fromEvent, []))"

section \<open>The release\<close>

definition last_segment :: "string \<Rightarrow> string" where
  "last_segment repo = last (split_on CHR ''/'' repo)"

text \<open>The version this run publishes, with the checks that guard it.\<close>

definition releaseTag :: "env \<Rightarrow> string \<Rightarrow> string result" where
  "releaseTag env inputVersion =
     (let refName = readOptional (env ''GITHUB_REF_NAME'');
          ref = readOptional (env ''GITHUB_REF'');
          isRefTag = startsWith ref ''refs/tags/'' in
      if inputVersion \<noteq> [] \<and> isRefTag \<and> stripTagPrefix inputVersion \<noteq> stripTagPrefix refName
      then Inl (ErrVersionMismatch inputVersion refName)
      else if inputVersion = [] \<and> \<not> isRefTag \<and> tagVersionFromRef ref = [] then Inl (ErrNotATag ref)
      else
        let rawTag = (if inputVersion \<noteq> [] then inputVersion
                      else if refName \<noteq> [] then refName else tagVersionFromRef ref) in
        if rawTag = [] then Inl ErrNoVersion
        else if \<not> SEMVER (stripTagPrefix rawTag) then Inl (ErrNotSemver rawTag)
        else Inr rawTag)"

definition dry_run_word :: "string \<Rightarrow> bool" where
  "dry_run_word s \<longleftrightarrow> js_lower s \<in> {''1'', ''true'', ''yes'', ''on''}"

definition releaseTable :: "(string \<Rightarrow> string option) \<Rightarrow> string \<Rightarrow> env \<Rightarrow> string" where
  "releaseTable readFile variantsOverride env =
     (let explicit = readOptional (env ''DOCKER_VARIANTS'') in
      if explicit \<noteq> [] then explicit
      else if variantsOverride \<noteq> [] then variantsOverride
      else variantTableRaw readFile env)"

definition resolveRelease ::
    "(string \<Rightarrow> (string \<Rightarrow> string option) option) \<Rightarrow> (string \<Rightarrow> string option) \<Rightarrow>
     string \<Rightarrow> env \<Rightarrow> release_state result" where
  "resolveRelease readInputs readFile variantsOverride env =
     (let eventInputs = readEventInputs readInputs env;
          inputVersion = fst (dispatchInput env ''VERSION'' eventInputs);
          inputVariants = fst (dispatchInput env ''VARIANTS'' eventInputs);
          inputDryRun = fst (dispatchInput env ''DRY_RUN'' eventInputs);
          refName = readOptional (env ''GITHUB_REF_NAME'');
          ref = readOptional (env ''GITHUB_REF'') in
      bindE (releaseTag env inputVersion) (\<lambda>rawTag.
      let version = stripTagPrefix rawTag;
          repo = readOptional (env ''GITHUB_REPOSITORY'');
          serverUrl = readOptional (env ''GITHUB_SERVER_URL'');
          runNumber = readOptional (env ''GITHUB_RUN_NUMBER'');
          sha = readOptional (env ''GITHUB_SHA'');
          dryRun = dry_run_word inputDryRun in
      bindE (parseVariants (releaseTable readFile variantsOverride env)) (\<lambda>allVariants.
      bindE (variantSelection allVariants (Some inputVariants)) (\<lambda>variants.
      let registries = registriesFrom env in
      bindE (imagesFrom env registries (last_segment repo) dryRun) (\<lambda>images.
      bindE (buildOptionsFrom env dryRun) (\<lambda>options.
      Inr \<lparr>st_version = version, st_tag = rawTag,
           st_versionSource = (if inputVersion \<noteq> [] then FromInput else FromRef),
           st_prerelease = (CHR ''-'' \<in> set version),
           st_sha = sha, st_shortSha = take 7 sha, st_repo = repo,
           st_repoName = last_segment repo, st_serverUrl = serverUrl,
           st_runUrl = serverUrl @ ''/'' @ repo @ ''/actions/runs/'' @ runNumber,
           st_runNumber = runNumber,
           st_runAttempt = readOptional (env ''GITHUB_RUN_ATTEMPT''),
           st_eventName = readOptional (env ''GITHUB_EVENT_NAME''),
           st_refName = refName, st_ref = ref,
           st_isTagEvent = (startsWith ref ''refs/tags/'' \<or>
              readOptional (env ''GITHUB_EVENT_NAME'') = ''workflow_dispatch''),
           st_isBranchEvent = startsWith ref ''refs/heads/'',
           st_isPrEvent = startsWith ref ''refs/pull/'',
           st_dryRun = dryRun, st_variants = variants, st_registries = registries,
           st_images = images, st_options = options, st_builds = [], st_results = []\<rparr>))))))"

section \<open>Build arguments known at run time\<close>

record endpoints =
  npmRegistry :: "string option"
  aptMirror :: "string option"

text \<open>The raw configured value, without a trailing slash.\<close>

definition envValueOf :: "env \<Rightarrow> string \<Rightarrow> string" where
  "envValueOf env name = strip_trailing CHR ''/'' (readOptional (env name))"

definition classifyEndpoints :: "(string \<Rightarrow> env \<Rightarrow> endpoint) \<Rightarrow> env \<Rightarrow> endpoints" where
  "classifyEndpoints resolve env =
     (let apt = resolve ''apt-get'' env; npm = resolve ''npm'' env in
      \<lparr>npmRegistry = (if e_source npm = ProxyAsMirror then nth_opt (e_mirror npm) 0 else None),
       aptMirror = (if e_source apt = ProxyAsMirror then Some (envValueOf env ''APT_PROXY'') else None)\<rparr>)"

definition buildArgCandidates :: "string \<Rightarrow> env \<Rightarrow> endpoints \<Rightarrow> (string \<times> string) list" where
  "buildArgCandidates version env eps =
     [(''VERSION'', version),
      (''GOPROXY'', goProxyFrom env),
      (''NPM_REGISTRY'', readOptional (npmRegistry eps)),
      (''APT_PROXY'', readOptional (aptMirror eps)),
      (''APK_PROXY'', (let repo = readOptional (env ''APK_REPO'') in
                      if repo \<noteq> [] then repo else readOptional (aptMirror eps))),
      (''YUM_REPO'', readOptional (env ''YUM_REPO''))]"

definition withDefaultBuildArgs ::
    "build_options \<Rightarrow> string \<Rightarrow> env \<Rightarrow> endpoints \<Rightarrow> build_options" where
  "withDefaultBuildArgs options version env eps =
     (let injected = filter (\<lambda>(k, _). k \<notin> fst ` set (o_buildArgs options))
                       (filter (\<lambda>(_, v). v \<noteq> []) (buildArgCandidates version env eps))
      in options\<lparr>o_buildArgs := injected @ o_buildArgs options\<rparr>)"

definition bool_text :: "bool \<Rightarrow> string" where
  "bool_text b = (if b then ''true'' else ''false'')"

text \<open>\<open>main\<close>: the state that is written and the step outputs that are emitted.\<close>

definition resolve_main ::
    "(string \<Rightarrow> (string \<Rightarrow> string option) option) \<Rightarrow> (string \<Rightarrow> string option) \<Rightarrow>
     (string \<Rightarrow> env \<Rightarrow> endpoint) \<Rightarrow> env \<Rightarrow> (release_state \<times> (string \<times> string) list) result" where
  "resolve_main readInputs readFile resolve env =
     bindE (resolveRelease readInputs readFile [] env) (\<lambda>state.
     let eps = classifyEndpoints resolve env;
         state = state\<lparr>st_options := withDefaultBuildArgs (st_options state) (st_version state) env eps\<rparr>
     in Inr (state,
       [(''version'', st_version state), (''tag'', st_tag state),
        (''version_source'', (case st_versionSource state of FromInput \<Rightarrow> ''input'' | FromRef \<Rightarrow> ''ref'')),
        (''prerelease'', bool_text (st_prerelease state)),
        (''dry_run'', bool_text (st_dryRun state)),
        (''push'', bool_text (o_push (st_options state))),
        (''variants'', join '','' (map v_name (st_variants state))),
        (''images'', join '','' (map img_base (st_images state)))]))"


section \<open>Facts about versions\<close>

lemma digit_facts: "is_digit c \<Longrightarrow> tag_char c \<and> c \<noteq> CHR ''v'' \<and> c \<noteq> CHR ''r'' \<and> \<not> js_ws c \<and> \<not> tag_strip c"
  by (auto simp: tag_char_def tag_strip_def is_digit_def js_ws_def)

lemma prerelease_tag_char: "prerelease_char c \<Longrightarrow> tag_char c"
  by (auto simp: prerelease_char_def tag_char_def)

lemma takeWhile_all: "list_all P (takeWhile P s)"
  by (induction s) auto

lemma semver_part_Some:
  "semver_part s = Some t \<Longrightarrow> \<exists>n. s = n @ CHR ''.'' # t \<and> n \<noteq> [] \<and> list_all is_digit n"
proof -
  assume "semver_part s = Some t"
  then have n: "numeric_id (takeWhile is_digit s)" and r: "dropWhile is_digit s = CHR ''.'' # t"
    by (cases "dropWhile is_digit s"; auto simp: semver_part_def Let_def split: if_splits)+
  from n have "takeWhile is_digit s \<noteq> []" by (auto simp: numeric_id_def)
  with r show ?thesis
    by (metis takeWhile_all takeWhile_dropWhile_id)
qed

text \<open>The shape of a version: three numbers and an optional suffix of legal characters.\<close>

lemma SEMVER_shape:
  assumes "SEMVER s"
  shows "\<exists>a b c r. s = a @ ''.'' @ b @ ''.'' @ c @ r \<and>
    a \<noteq> [] \<and> b \<noteq> [] \<and> c \<noteq> [] \<and> list_all is_digit (a @ b @ c) \<and>
    (r = [] \<or> (\<exists>p. r = CHR ''-'' # p \<and> p \<noteq> [] \<and> list_all prerelease_char p))"
proof -
  from assms obtain t where t: "Option.bind (semver_part s) semver_part = Some t"
    and n: "numeric_id (takeWhile is_digit t)"
    and r: "dropWhile is_digit t = [] \<or> (hd (dropWhile is_digit t) = CHR ''-'' \<and>
      tl (dropWhile is_digit t) \<noteq> [] \<and> list_all prerelease_char (tl (dropWhile is_digit t)))"
    by (auto simp: SEMVER_def Let_def split: option.splits)
  from t obtain u where u: "semver_part s = Some u" "semver_part u = Some t"
    by (cases "semver_part s") auto
  from semver_part_Some [OF u(1)] semver_part_Some [OF u(2)] obtain a b where
    ab: "s = a @ CHR ''.'' # b @ CHR ''.'' # t" "a \<noteq> []" "b \<noteq> []"
      "list_all is_digit a" "list_all is_digit b" by auto
  have "takeWhile is_digit t \<noteq> []" using n by (auto simp: numeric_id_def)
  moreover have "dropWhile is_digit t = [] \<or> (\<exists>p. dropWhile is_digit t = CHR ''-'' # p \<and> p \<noteq> [] \<and>
      list_all prerelease_char p)"
    using r by (cases "dropWhile is_digit t") auto
  ultimately show ?thesis using ab takeWhile_all [of is_digit t]
    by (intro exI [of _ a] exI [of _ b] exI [of _ "takeWhile is_digit t"]
        exI [of _ "dropWhile is_digit t"]) simp
qed

lemma SEMVER_tag_chars: "SEMVER s \<Longrightarrow> s \<noteq> [] \<and> list_all tag_char s \<and> is_digit (hd s)"
proof -
  assume "SEMVER s"
  then obtain a b c r where s: "s = a @ ''.'' @ b @ ''.'' @ c @ r" and ne: "a \<noteq> []"
    and d: "list_all is_digit (a @ b @ c)"
    and r: "r = [] \<or> (\<exists>p. r = CHR ''-'' # p \<and> p \<noteq> [] \<and> list_all prerelease_char p)"
    by (blast dest: SEMVER_shape)
  have "list_all tag_char (a @ b @ c)" using d by (auto simp: list_all_iff digit_facts)
  moreover have "list_all tag_char r" using r by (auto simp: list_all_iff prerelease_tag_char)
  moreover have "tag_char CHR ''.''" by (simp add: tag_char_def)
  ultimately show ?thesis using s ne d by (cases a) auto
qed

text \<open>A version is its own tag: nothing is left to strip.\<close>

lemma startsWith_hd: "startsWith s (c # p) \<Longrightarrow> s \<noteq> [] \<and> hd s = c"
  by (auto simp: startsWith_iff)

lemma SEMVER_strip_fix: "SEMVER v \<Longrightarrow> stripTagPrefix v = v"
proof -
  assume "SEMVER v"
  then have c: "list_all tag_char v" and d: "is_digit (hd v)" by (auto dest: SEMVER_tag_chars)
  have "trim v = v" using c by (rule trim_tag)
  then show ?thesis
    using d digit_facts [OF d]
    by (auto simp: stripTagPrefix_def Let_def dest!: startsWith_hd)
qed

section \<open>The release identity\<close>

lemma releaseTag_ok: "releaseTag env input = Inr tag \<Longrightarrow> SEMVER (stripTagPrefix tag) \<and> tag \<noteq> []"
  by (auto simp: releaseTag_def Let_def split: if_splits)

lemma releaseTag_input: "releaseTag env input = Inr tag \<Longrightarrow> input \<noteq> [] \<Longrightarrow> tag = input"
  by (auto simp: releaseTag_def Let_def split: if_splits)

text \<open>On a tag push the pushed tag is the version, whatever was typed.\<close>

lemma releaseTag_pushed:
  "releaseTag env input = Inr tag \<Longrightarrow> startsWith (readOptional (env ''GITHUB_REF'')) ''refs/tags/'' \<Longrightarrow>
   readOptional (env ''GITHUB_REF_NAME'') \<noteq> [] \<Longrightarrow>
   stripTagPrefix tag = stripTagPrefix (readOptional (env ''GITHUB_REF_NAME''))"
  by (auto simp: releaseTag_def Let_def split: if_splits)

lemma tagVersionFromRef_tag: "\<not> startsWith ref ''refs/tags/'' \<Longrightarrow> tagVersionFromRef ref = []"
  by (simp add: tagVersionFromRef_def Let_def)

lemma releaseTag_branch:
  "\<not> startsWith (readOptional (env ''GITHUB_REF'')) ''refs/tags/'' \<Longrightarrow>
   releaseTag env [] = Inl (ErrNotATag (readOptional (env ''GITHUB_REF'')))"
  by (simp add: releaseTag_def Let_def tagVersionFromRef_tag)

lemma releaseTag_mismatch:
  "input \<noteq> [] \<Longrightarrow> startsWith (readOptional (env ''GITHUB_REF'')) ''refs/tags/'' \<Longrightarrow>
   stripTagPrefix input \<noteq> stripTagPrefix (readOptional (env ''GITHUB_REF_NAME'')) \<Longrightarrow>
   releaseTag env input = Inl (ErrVersionMismatch input (readOptional (env ''GITHUB_REF_NAME'')))"
  by (simp add: releaseTag_def Let_def)

section \<open>The state that is written\<close>

definition release_ok :: "release_state \<Rightarrow> bool" where
  "release_ok s \<longleftrightarrow>
     SEMVER (st_version s) \<and> st_version s = stripTagPrefix (st_tag s) \<and>
     st_prerelease s = (CHR ''-'' \<in> set (st_version s)) \<and>
     st_shortSha s = take 7 (st_sha s) \<and>
     st_variants s \<noteq> [] \<and> distinct (map v_name (st_variants s)) \<and>
     list_all variant_ok (st_variants s) \<and> length (filter v_isDefault (st_variants s)) \<le> 1 \<and>
     (\<forall>i \<in> set (st_images s). image_base_ok (img_base i)) \<and>
     o_push (st_options s) = (\<not> st_dryRun s) \<and>
     (\<not> st_dryRun s \<longrightarrow> (\<forall>i \<in> set (st_images s). \<exists>r \<in> set (st_registries s).
        reg_enabled r \<and> reg_id r = img_registryId i))"

lemma variantSelection_ok:
  assumes sel: "variantSelection vs raw = Inr ws" and ok: "variant_table_ok vs"
  shows "ws \<noteq> [] \<and> distinct (map v_name ws) \<and> list_all variant_ok ws \<and>
    length (filter v_isDefault ws) \<le> 1"
proof -
  obtain P where ws: "ws = filter P vs"
  proof (cases "splitList raw = []")
    case True
    then have "ws = filter (\<lambda>_. True) vs" using variantSelection_result [OF sel] by simp
    then show thesis by (rule that)
  next
    case False
    then have "ws = filter (\<lambda>v. v_name v \<in> set (splitList raw)) vs"
      using variantSelection_result [OF sel] by simp
    then show thesis by (rule that)
  qed
  have "length (filter v_isDefault ws) = length (filter P (filter v_isDefault vs))"
    by (simp add: ws conj_commute)
  also have "\<dots> \<le> length (filter v_isDefault vs)" by (rule length_filter_le)
  finally show ?thesis
    using ok variantSelection_nonempty [OF sel]
    by (auto simp: variant_table_ok_def ws list_all_iff distinct_map_filter)
qed

lemma resolveRelease_ok:
  assumes "resolveRelease readInputs readFile variantsOverride env = Inr s"
  shows "release_ok s"
proof -
  let ?ev = "readEventInputs readInputs env"
  from assms obtain rawTag allVariants variants images options where
    tag: "releaseTag env (fst (dispatchInput env ''VERSION'' ?ev)) = Inr rawTag"
    and vs: "parseVariants (releaseTable readFile variantsOverride env) = Inr allVariants"
    and sel: "variantSelection allVariants (Some (fst (dispatchInput env ''VARIANTS'' ?ev))) = Inr variants"
    and img: "imagesFrom env (registriesFrom env) (last_segment (readOptional (env ''GITHUB_REPOSITORY'')))
               (st_dryRun s) = Inr images"
    and opt: "buildOptionsFrom env (st_dryRun s) = Inr options"
    and s: "st_version s = stripTagPrefix rawTag" "st_tag s = rawTag"
      "st_prerelease s = (CHR ''-'' \<in> set (stripTagPrefix rawTag))"
      "st_shortSha s = take 7 (st_sha s)" "st_variants s = variants" "st_images s = images"
      "st_options s = options" "st_registries s = registriesFrom env"
    by (auto simp: resolveRelease_def Let_def)
  from vs have "variant_table_ok allVariants" by (auto dest: parseVariants_table_ok)
  note v = variantSelection_ok [OF sel this]
  have pu: "o_push options = (\<not> st_dryRun s)" using opt by (auto simp: buildOptionsFrom_def)
  have i: "\<not> st_dryRun s \<Longrightarrow> x \<in> set images \<Longrightarrow>
      \<exists>r \<in> set (registriesFrom env). reg_enabled r \<and> reg_id r = img_registryId x" for x
    using imagesFrom_enabled [of env "registriesFrom env"] img by auto
  have b: "x \<in> set images \<Longrightarrow> image_base_ok (img_base x)" for x
    using imagesFrom_base [OF img] .
  show ?thesis using v pu i b releaseTag_ok [OF tag] by (auto simp: release_ok_def s)
qed

lemma resolveRelease_tag:
  assumes "resolveRelease readInputs readFile variantsOverride env = Inr s"
  shows "releaseTag env (fst (dispatchInput env ''VERSION'' (readEventInputs readInputs env))) = Inr (st_tag s)
    \<and> st_version s = stripTagPrefix (st_tag s)"
  using assms by (auto simp: resolveRelease_def Let_def)

lemma resolveRelease_tag_error:
  "releaseTag env (fst (dispatchInput env ''VERSION'' (readEventInputs readInputs env))) = Inl e \<Longrightarrow>
   resolveRelease readInputs readFile variantsOverride env = Inl e"
  by (simp add: resolveRelease_def Let_def)

section \<open>Injected build arguments\<close>

lemma withDefaultBuildArgs_frame:
  "o_push (withDefaultBuildArgs opts v env eps) = o_push opts"
  "o_platforms (withDefaultBuildArgs opts v env eps) = o_platforms opts"
  "o_context (withDefaultBuildArgs opts v env eps) = o_context opts"
  by (simp_all add: withDefaultBuildArgs_def Let_def)

lemma candidate_keys: "map fst (buildArgCandidates v env eps) =
  [''VERSION'', ''GOPROXY'', ''NPM_REGISTRY'', ''APT_PROXY'', ''APK_PROXY'', ''YUM_REPO'']"
  by (simp add: buildArgCandidates_def)

text \<open>What each key is set to afterwards: the explicit entry if there is one, otherwise the
  run-time value unless it is empty.\<close>

lemma map_of_filter_value:
  "distinct (map fst xs) \<Longrightarrow> map_of (filter (\<lambda>(_, v). v \<noteq> []) xs) k =
     (case map_of xs k of Some v \<Rightarrow> if v = [] then None else Some v | None \<Rightarrow> None)"
  by (induction xs) (auto simp: map_of_eq_None_iff split: option.splits)

lemma map_of_filter_fst: "map_of (filter (\<lambda>(k, _). P k) xs) k = (if P k then map_of xs k else None)"
  by (induction xs) auto

lemma withDefaultBuildArgs_lookup:
  "map_of (o_buildArgs (withDefaultBuildArgs opts v env eps)) k =
     (case map_of (o_buildArgs opts) k of
        Some x \<Rightarrow> Some x
      | None \<Rightarrow> (case map_of (buildArgCandidates v env eps) k of
                   Some x \<Rightarrow> if x = [] then None else Some x | None \<Rightarrow> None))"
proof -
  have d: "distinct (map fst (buildArgCandidates v env eps))" by (simp only: candidate_keys) simp
  let ?args = "o_buildArgs opts"
  show ?thesis
  proof (cases "k \<in> fst ` set ?args")
    case True
    then obtain x where "map_of ?args k = Some x" by (metis map_of_eq_None_iff not_None_eq)
    with True show ?thesis
      by (simp add: withDefaultBuildArgs_def Let_def map_add_def
          map_of_filter_fst [where P = "\<lambda>k. k \<notin> fst ` set ?args"] del: filter_filter)
  next
    case False
    then have "map_of ?args k = None" by (simp add: map_of_eq_None_iff)
    with False show ?thesis
      by (simp add: withDefaultBuildArgs_def Let_def map_add_def
          map_of_filter_fst [where P = "\<lambda>k. k \<notin> fst ` set ?args"] map_of_filter_value [OF d] del: filter_filter split: option.splits)
  qed
qed


section \<open>Properties\<close>

text \<open>A tag push to a repository with a \<open>ghcr.io\<close> token, and the same push without the variants
  table in a file; the files of the runner are not readable.\<close>

definition sample_env :: env where
  "sample_env =
     [''GITHUB_REF'' \<mapsto> ''refs/tags/v1.2.3'', ''GITHUB_REF_NAME'' \<mapsto> ''v1.2.3'', ''GITHUB_REPOSITORY'' \<mapsto> ''own/app'',
      ''GITHUB_SHA'' \<mapsto> ''0123456789abcdef'', ''GHCR_TOKEN'' \<mapsto> ''secret'', ''INPUT_VERSION'' \<mapsto> ''1.2.3'']"

definition no_inputs :: "string \<Rightarrow> (string \<Rightarrow> string option) option" where
  "no_inputs file = None"

definition no_file :: "string \<Rightarrow> string option" where
  "no_file file = None"

definition sample_state :: release_state where
  "sample_state =
     \<lparr>st_version = ''1.2.3'', st_tag = ''1.2.3'', st_versionSource = FromInput, st_prerelease = False,
      st_sha = ''0123456789abcdef'', st_shortSha = ''0123456'', st_repo = ''own/app'', st_repoName = ''app'',
      st_serverUrl = [], st_runUrl = ''/own/app/actions/runs/'', st_runNumber = [], st_runAttempt = [],
      st_eventName = [], st_refName = ''v1.2.3'', st_ref = ''refs/tags/v1.2.3'', st_isTagEvent = True,
      st_isBranchEvent = False, st_isPrEvent = False, st_dryRun = False, st_variants = default_table,
      st_registries =
        [\<lparr>reg_id = Ghcr, reg_registry = ''ghcr.io'', reg_tokenVar = ''GHCR_TOKEN'', reg_user = ''own'',
           reg_namespace = ''own'', reg_enabled = True\<rparr>,
         \<lparr>reg_id = Dockerhub, reg_registry = ''docker.io'', reg_tokenVar = ''DOCKERHUB_TOKEN'', reg_user = [],
           reg_namespace = [], reg_enabled = False\<rparr>],
      st_images = [\<lparr>img_base = ''ghcr.io/own/app'', img_registryId = Ghcr, img_preview = False\<rparr>],
      st_options = \<lparr>o_context = ''.'', o_platforms = [], o_buildArgs = [], o_dryRun = False, o_push = True\<rparr>,
      st_builds = [], st_results = []\<rparr>"

lemma resolve_sample: "resolveRelease no_inputs no_file [] sample_env = Inr sample_state"
  by code_simp

text \<open>C10: A release that is resolved is consistent: its version is the semantic version in its
  tag, a prerelease is one with a dash, at most one of its distinctly named variants is the
  default, images are normalized and (outside a dry run) have an enabled registry, and it is
  pushed exactly when it is no dry run.\<close>

theorem resolveRelease_consistent:
  assumes "resolveRelease readInputs readFile table env = Inr s"
  shows "release_ok s"
  by (rule resolveRelease_ok [OF assms])

theorem resolveRelease_consistent_witness: "release_ok sample_state"
  by (rule resolveRelease_consistent [OF resolve_sample])

text \<open>A version that was typed in while a different tag was pushed aborts the release,
  whatever the rest of the configuration says.\<close>

theorem resolveRelease_mismatch_aborts:
  assumes "fst (dispatchInput env ''VERSION'' (readEventInputs readInputs env)) = version" and "version \<noteq> []"
    and "startsWith (readOptional (env ''GITHUB_REF'')) ''refs/tags/''"
    and "stripTagPrefix version \<noteq> stripTagPrefix (readOptional (env ''GITHUB_REF_NAME''))"
  shows "resolveRelease readInputs readFile table env =
    Inl (ErrVersionMismatch version (readOptional (env ''GITHUB_REF_NAME'')))"
  using assms by (intro resolveRelease_tag_error) (simp add: releaseTag_mismatch)

theorem resolveRelease_mismatch_aborts_witness:
  "resolveRelease no_inputs no_file [] (sample_env(''INPUT_VERSION'' \<mapsto> ''1.3.0'')) =
     Inl (ErrVersionMismatch ''1.3.0'' ''v1.2.3'')"
proof -
  let ?env = "sample_env(''INPUT_VERSION'' \<mapsto> ''1.3.0'')"
  have "fst (dispatchInput ?env ''VERSION'' (readEventInputs no_inputs ?env)) = ''1.3.0''"
    "startsWith (readOptional (?env ''GITHUB_REF'')) ''refs/tags/''"
    "stripTagPrefix ''1.3.0'' \<noteq> stripTagPrefix (readOptional (?env ''GITHUB_REF_NAME''))"
    "readOptional (?env ''GITHUB_REF_NAME'') = ''v1.2.3''" by code_simp+
  then show ?thesis using resolveRelease_mismatch_aborts [of ?env no_inputs "''1.3.0''"] by simp
qed

definition token_vars :: "string set" where
  "token_vars = {''GHCR_TOKEN'', ''DOCKERHUB_TOKEN''}"

text \<open>C36: No credential reaches the state file: two environments that differ only in the
  values of the registry tokens (set in both or in neither) give the same release.\<close>

theorem resolveRelease_keeps_tokens_out:
  assumes "\<And>k. k \<notin> token_vars \<Longrightarrow> env k = env' k"
    and "\<And>t. t \<in> token_vars \<Longrightarrow> readOptional (env t) = [] \<longleftrightarrow> readOptional (env' t) = []"
  shows "resolveRelease readInputs readFile table env = resolveRelease readInputs readFile table env'"
proof -
  have vars [simp]: "env ''GITHUB_EVENT_PATH'' = env' ''GITHUB_EVENT_PATH''" "env ''GITHUB_REF_NAME'' = env' ''GITHUB_REF_NAME''"
    "env ''GITHUB_REF'' = env' ''GITHUB_REF''" "env ''GITHUB_REPOSITORY'' = env' ''GITHUB_REPOSITORY''"
    "env ''GITHUB_SERVER_URL'' = env' ''GITHUB_SERVER_URL''" "env ''GITHUB_RUN_NUMBER'' = env' ''GITHUB_RUN_NUMBER''"
    "env ''GITHUB_SHA'' = env' ''GITHUB_SHA''" "env ''GITHUB_RUN_ATTEMPT'' = env' ''GITHUB_RUN_ATTEMPT''"
    "env ''GITHUB_EVENT_NAME'' = env' ''GITHUB_EVENT_NAME''" "env ''DOCKER_VARIANTS'' = env' ''DOCKER_VARIANTS''"
    "env ''DOCKER_VARIANTS_FILE'' = env' ''DOCKER_VARIANTS_FILE''" "env ''GHCR_IMAGE'' = env' ''GHCR_IMAGE''"
    "env ''DOCKERHUB_USERNAME'' = env' ''DOCKERHUB_USERNAME''" "env ''DOCKER_META_IMAGES'' = env' ''DOCKER_META_IMAGES''"
    "env ''DOCKER_BUILD_ARGS'' = env' ''DOCKER_BUILD_ARGS''" "env ''DOCKER_PLATFORMS'' = env' ''DOCKER_PLATFORMS''"
    "env ''INPUT_VERSION'' = env' ''INPUT_VERSION''" "env ''INPUT_VARIANTS'' = env' ''INPUT_VARIANTS''"
    "env ''INPUT_DRY_RUN'' = env' ''INPUT_DRY_RUN''"
    by (rule assms(1), simp add: token_vars_def)+
  have "readOptional (env t) = [] \<longleftrightarrow> readOptional (env' t) = []" if "t \<in> token_vars" for t
    using assms(2) [OF that] .
  then have regs: "registriesFrom env = registriesFrom env'"
    by (simp add: registriesFrom_def registryEntry_def ghcrNamespaceFrom_def token_vars_def)
  have inputs: "readEventInputs readInputs env = readEventInputs readInputs env'"
    by (simp add: readEventInputs_def)
  have dispatch: "dispatchInput env name i = dispatchInput env' name i"
    if "name \<in> {''VERSION'', ''VARIANTS'', ''DRY_RUN''}" for name i
    using that by (auto simp: dispatchInput_def)
  have tag: "releaseTag env i = releaseTag env' i" for i by (simp add: releaseTag_def Let_def)
  have tab: "releaseTable readFile table env = releaseTable readFile table env'"
    by (simp add: releaseTable_def variantTableRaw_def Let_def)
  have prev: "previewImage env n = previewImage env' n" for n by (simp add: previewImage_def)
  have imgs: "imagesFrom env r n p = imagesFrom env' r n p" for r n p
    by (simp add: imagesFrom_def prev Let_def cong: if_cong)
  have opts: "buildOptionsFrom env d = buildOptionsFrom env' d" for d by (simp add: buildOptionsFrom_def)
  note dispatched = dispatch [of "''VERSION''", simplified] dispatch [of "''VARIANTS''", simplified]
    dispatch [of "''DRY_RUN''", simplified]
  show ?thesis
    unfolding resolveRelease_def inputs dispatched tag tab imgs opts regs vars ..
qed

theorem resolveRelease_keeps_tokens_out_witness:
  "resolveRelease no_inputs no_file [] (sample_env(''GHCR_TOKEN'' \<mapsto> ''other'')) = Inr sample_state"
proof -
  have "resolveRelease no_inputs no_file [] (sample_env(''GHCR_TOKEN'' \<mapsto> ''other'')) =
      resolveRelease no_inputs no_file [] sample_env"
    by (rule resolveRelease_keeps_tokens_out) (auto simp: token_vars_def sample_env_def readOptional_def trim_def js_ws_def)
  then show ?thesis by (simp add: resolve_sample)
qed

text \<open>A build argument the repository wrote wins over the injected one, an injected one
  is used when its value is not empty, and nothing else is added.\<close>

theorem withDefaultBuildArgs_precedence:
  "map_of (o_buildArgs (withDefaultBuildArgs opts version env eps)) k =
     (case map_of (o_buildArgs opts) k of
        Some v \<Rightarrow> Some v
      | None \<Rightarrow> (case map_of (buildArgCandidates version env eps) k of
                   Some v \<Rightarrow> if v = [] then None else Some v | None \<Rightarrow> None))"
  by (rule withDefaultBuildArgs_lookup)

end
