(* ===== verification/JS_Number.thy ===== *)
theory JS_Number
  imports JS_Prelude
begin

text \<open>
  JavaScript numbers as the sources use them: \<open>Number(text)\<close>, \<open>Number.parseInt\<close>,
  \<open>Number.isFinite\<close>, \<open>Math.max\<close>, \<open>Math.min\<close> and comparison.  Finite values are kept
  exactly, as rationals (the rounding of doubles is not modelled); \<open>NaN\<close> and the
  infinities are values of their own, and every comparison with \<open>NaN\<close> is false.
\<close>

datatype jsnum = NaN | Infinity bool \<comment> \<open>\<open>True\<close>: positive\<close> | Num rat

instantiation jsnum :: ord
begin

fun less_eq_jsnum :: "jsnum \<Rightarrow> jsnum \<Rightarrow> bool" where
  "less_eq_jsnum NaN b = False"
| "less_eq_jsnum a NaN = False"
| "less_eq_jsnum (Num x) (Num y) = (x \<le> y)"
| "less_eq_jsnum (Infinity p) (Infinity q) = (p \<longrightarrow> q)"
| "less_eq_jsnum (Infinity p) (Num y) = (\<not> p)"
| "less_eq_jsnum (Num x) (Infinity q) = q"

definition less_jsnum :: "jsnum \<Rightarrow> jsnum \<Rightarrow> bool" where
  "less_jsnum a b \<longleftrightarrow> a \<le> b \<and> \<not> b \<le> a"

instance ..

end

definition is_finite :: "jsnum \<Rightarrow> bool" where
  "is_finite n = (case n of Num x \<Rightarrow> True | _ \<Rightarrow> False)"

definition js_max :: "jsnum \<Rightarrow> jsnum \<Rightarrow> jsnum" where
  "js_max a b = (if a = NaN \<or> b = NaN then NaN else if a \<le> b then b else a)"

lemma jsnum_refl: "a \<noteq> NaN \<Longrightarrow> a \<le> (a :: jsnum)"
  by (cases a) auto

lemma jsnum_trans: "a \<le> b \<Longrightarrow> b \<le> c \<Longrightarrow> a \<le> (c :: jsnum)"
  by (cases a; cases b; cases c) auto

lemma jsnum_linear: "a \<noteq> NaN \<Longrightarrow> b \<noteq> NaN \<Longrightarrow> a \<le> b \<or> b \<le> (a :: jsnum)"
  by (cases a; cases b) auto

lemma jsnum_not_less: "a \<noteq> NaN \<Longrightarrow> b \<noteq> NaN \<Longrightarrow> \<not> a < b \<longleftrightarrow> b \<le> (a :: jsnum)"
  using jsnum_linear by (auto simp: less_jsnum_def)

lemma NaN_compare [simp]: "\<not> NaN \<le> n" "\<not> n \<le> NaN" "\<not> NaN < n" "\<not> n < NaN"
  by (cases n; simp add: less_jsnum_def)+

section \<open>Reading numbers\<close>

definition digit_nat :: "char \<Rightarrow> nat" where
  "digit_nat c = code c - 48"

fun nat_of_digits :: "nat \<Rightarrow> string \<Rightarrow> nat" where
  "nat_of_digits n [] = n"
| "nat_of_digits n (c # cs) = nat_of_digits (10 * n + digit_nat c) cs"

definition all_digits :: "string \<Rightarrow> bool" where
  "all_digits s \<longleftrightarrow> s \<noteq> [] \<and> list_all is_digit s"

text \<open>A sign and the rest of a literal.\<close>

fun take_sign :: "string \<Rightarrow> bool \<times> string" where
  "take_sign (c # cs) =
     (if c = CHR ''+'' then (True, cs) else if c = CHR ''-'' then (False, cs) else (True, c # cs))"
| "take_sign [] = (True, [])"

text \<open>An optional exponent part, \<open>None\<close> when the text is not one.\<close>

fun exponent :: "string \<Rightarrow> int option" where
  "exponent [] = Some 0"
| "exponent (c # cs) =
     (if c = CHR ''e'' \<or> c = CHR ''E''
      then (let (pos, ds) = take_sign cs in
        if all_digits ds then Some ((if pos then 1 else -1) * int (nat_of_digits 0 ds)) else None)
      else None)"

definition scale10 :: "rat \<Rightarrow> int \<Rightarrow> rat" where
  "scale10 x e = (if 0 \<le> e then x * 10 ^ nat e else x / 10 ^ nat (- e))"

text \<open>An unsigned decimal literal: digits, an optional fraction, an optional exponent.\<close>

definition unsigned_decimal :: "string \<Rightarrow> jsnum" where
  "unsigned_decimal s =
     (let ip = takeWhile is_digit s; r = dropWhile is_digit s;
          (fp, r') = (case r of [] \<Rightarrow> ([], [])
                      | c # cs \<Rightarrow> if c = CHR ''.'' then (takeWhile is_digit cs, dropWhile is_digit cs)
                                  else ([], c # cs))
      in if ip = [] \<and> fp = [] then NaN
         else case exponent r' of None \<Rightarrow> NaN
              | Some e \<Rightarrow> Num (scale10 (of_nat (nat_of_digits 0 (ip @ fp))) (e - int (length fp))))"

definition negate :: "jsnum \<Rightarrow> jsnum" where
  "negate n = (case n of NaN \<Rightarrow> NaN | Infinity p \<Rightarrow> Infinity (\<not> p) | Num x \<Rightarrow> Num (- x))"

definition hex_value :: "char \<Rightarrow> nat" where
  "hex_value c = (if is_digit c then code c - 48 else if is_lower c then code c - 87 else code c - 55)"

fun radix_value :: "nat \<Rightarrow> nat \<Rightarrow> string \<Rightarrow> nat" where
  "radix_value b n [] = n"
| "radix_value b n (c # cs) = radix_value b (b * n + hex_value c) cs"

text \<open>\<open>0x\<close>, \<open>0o\<close> and \<open>0b\<close> literals (no sign is allowed in front of them).\<close>

definition radix_of :: "char \<Rightarrow> nat option" where
  "radix_of c =
     (if c = CHR ''x'' \<or> c = CHR ''X'' then Some 16
      else if c = CHR ''o'' \<or> c = CHR ''O'' then Some 8
      else if c = CHR ''b'' \<or> c = CHR ''B'' then Some 2 else None)"

definition radix_digit :: "nat \<Rightarrow> char \<Rightarrow> bool" where
  "radix_digit b c \<longleftrightarrow> (is_digit c \<or> is_lower c \<or> is_upper c) \<and> hex_value c < b"

text \<open>\<open>Number(text)\<close>.\<close>

definition to_number :: "string \<Rightarrow> jsnum" where
  "to_number text =
     (let s = trim text in
      if s = [] then Num 0
      else case (if 2 < length s \<and> hd s = CHR ''0'' then radix_of (s ! 1) else None) of
        Some b \<Rightarrow> (if list_all (radix_digit b) (drop 2 s)
                   then Num (of_nat (radix_value b 0 (drop 2 s))) else NaN)
      | None \<Rightarrow>
          (let (pos, r) = take_sign s;
               n = (if r = ''Infinity'' then Infinity True else unsigned_decimal r)
           in if pos then n else negate n))"

text \<open>\<open>Number.parseInt(text, 10)\<close>; \<^const>\<open>None\<close> is \<open>NaN\<close>.\<close>

definition parse_int :: "string \<Rightarrow> int option" where
  "parse_int text =
     (let (pos, r) = take_sign (dropWhile js_ws text); ds = takeWhile is_digit r in
      if ds = [] then None
      else Some ((if pos then 1 else -1) * int (nat_of_digits 0 ds)))"

lemmas number_defs = digit_nat_def all_digits_def scale10_def unsigned_decimal_def negate_def
  hex_value_def radix_of_def radix_digit_def to_number_def parse_int_def char_class_defs

lemma to_number_900: "to_number ''900'' = Num 900"
  by (simp add: number_defs trim_def Let_def)

lemma to_number_word: "to_number ''high'' = NaN"
  by (simp add: number_defs trim_def Let_def)

section \<open>Sorting with a comparator\<close>

text \<open>
  \<open>xs.sort(cmp)\<close> is stable, so for a comparator that is a consistent order the result is the
  one of a stable insertion sort.  \<open>bef a b\<close> is \<open>cmp(a, b) <= 0\<close>.
\<close>

fun insert_by :: "('a \<Rightarrow> 'a \<Rightarrow> bool) \<Rightarrow> 'a \<Rightarrow> 'a list \<Rightarrow> 'a list" where
  "insert_by bef x [] = [x]"
| "insert_by bef x (y # ys) = (if bef x y then x # y # ys else y # insert_by bef x ys)"

definition sort_by :: "('a \<Rightarrow> 'a \<Rightarrow> bool) \<Rightarrow> 'a list \<Rightarrow> 'a list" where
  "sort_by bef xs = foldr (insert_by bef) xs []"

lemma set_insert_by [simp]: "set (insert_by bef x xs) = insert x (set xs)"
  by (induction xs) auto

lemma length_insert_by [simp]: "length (insert_by bef x xs) = Suc (length xs)"
  by (induction xs) auto

lemma set_sort_by [simp]: "set (sort_by bef xs) = set xs"
  unfolding sort_by_def by (induction xs) auto

lemma length_sort_by [simp]: "length (sort_by bef xs) = length xs"
  unfolding sort_by_def by (induction xs) auto

lemma distinct_map_insert_by: "distinct (map f (insert_by b x xs)) = distinct (map f (x # xs))"
  by (induction xs) auto

lemma sort_by_Nil [simp]: "sort_by b [] = []"
  by (simp add: sort_by_def)

lemma sort_by_Cons: "sort_by b (x # xs) = insert_by b x (sort_by b xs)"
  by (simp add: sort_by_def)

lemma distinct_map_sort_by: "distinct (map f (sort_by b xs)) = distinct (map f xs)"
proof (induction xs)
  case Nil
  then show ?case by simp
next
  case (Cons x xs)
  have "set (map f (sort_by b xs)) = set (map f xs)" by simp
  with Cons show ?case unfolding sort_by_Cons distinct_map_insert_by list.map distinct.simps by simp
qed

lemma sorted_insert_by:
  assumes total: "\<And>a b. a \<in> A \<Longrightarrow> b \<in> A \<Longrightarrow> bef a b \<or> bef b a"
    and trans: "\<And>a b c. bef a b \<Longrightarrow> bef b c \<Longrightarrow> bef a c"
  shows "set (x # xs) \<subseteq> A \<Longrightarrow> sorted_wrt bef xs \<Longrightarrow> sorted_wrt bef (insert_by bef x xs)"
proof (induction xs)
  case Nil
  then show ?case by simp
next
  case (Cons y ys)
  then have IH: "sorted_wrt bef (insert_by bef x ys)" and yx: "bef x y \<or> bef y x"
    using total by auto
  show ?case
  proof (cases "bef x y")
    case True
    with Cons.prems trans show ?thesis by auto
  next
    case False
    with yx IH Cons.prems show ?thesis by auto
  qed
qed

lemma sorted_sort_by:
  assumes "\<And>a b. a \<in> A \<Longrightarrow> b \<in> A \<Longrightarrow> bef a b \<or> bef b a"
    and "\<And>a b c. bef a b \<Longrightarrow> bef b c \<Longrightarrow> bef a c"
  shows "set xs \<subseteq> A \<Longrightarrow> sorted_wrt bef (sort_by bef xs)"
proof (induction xs)
  case Nil
  then show ?case by (simp add: sort_by_def)
next
  case (Cons x xs)
  then have s: "sorted_wrt bef (sort_by bef xs)" by simp
  have "set (x # sort_by bef xs) \<subseteq> A" using Cons.prems by simp
  from sorted_insert_by [OF assms this s] show ?case by (simp add: sort_by_def)
qed

end
