(* ===== verification/Meta_Rules.thy ===== *)
theory Meta_Rules
  imports Action_Errors JS_Map JS_Number Config
begin

text \<open>
  The input language of \<open>meta.mjs\<close>: the \<open>{{...}}\<close> expressions, the tag rules
  (\<open>DOCKER_META_TAGS\<close>) and the flavor (\<open>DOCKER_META_FLAVOR\<close>).
\<close>

section \<open>Expressions\<close>

abbreviation lbrace :: char where "lbrace \<equiv> CHR 0x7B"
abbreviation rbrace :: char where "rbrace \<equiv> CHR 0x7D"

text \<open>An expression at the start of a text: its trimmed content and what follows it.\<close>

definition match_expr :: "string \<Rightarrow> (string \<times> string) option" where
  "match_expr s =
     (let body = drop 2 s; content = takeWhile (\<lambda>c. c \<noteq> rbrace) body;
          rest = dropWhile (\<lambda>c. c \<noteq> rbrace) body in
      if startsWith s [lbrace, lbrace] \<and> startsWith rest [rbrace, rbrace]
      then Some (trim content, drop 2 rest) else None)"

lemma match_expr_shorter: "match_expr s = Some (e, rest) \<Longrightarrow> length rest < length s"
proof -
  assume m: "match_expr s = Some (e, rest)"
  then have "startsWith s [lbrace, lbrace]" and "rest = drop 2 (dropWhile (\<lambda>c. c \<noteq> rbrace) (drop 2 s))"
    by (auto simp: match_expr_def Let_def split: if_splits)
  moreover have "length (dropWhile (\<lambda>c. c \<noteq> rbrace) (drop 2 s)) \<le> length s - 2"
    by (metis length_drop length_dropWhile_le)
  ultimately show ?thesis by (auto simp: startsWith_iff)
qed

text \<open>\<open>matchAll(/\{\{\s*([^}]*?)\s*\}\}/g)\<close>: the contents, left to right.\<close>

function scan_expr :: "string \<Rightarrow> string list" where
  "scan_expr s =
     (case s of [] \<Rightarrow> []
      | c # cs \<Rightarrow> (case match_expr s of Some (e, rest) \<Rightarrow> e # scan_expr rest | None \<Rightarrow> scan_expr cs))"
  by pat_completeness auto
termination
  by (relation "measure length") (auto dest: match_expr_shorter)

text \<open>\<open>replace\<close> of the expressions whose content \<open>f\<close> knows; the others stay as they are.\<close>

function replace_expr :: "(string \<Rightarrow> string option) \<Rightarrow> string \<Rightarrow> string" where
  "replace_expr f s =
     (case s of [] \<Rightarrow> []
      | c # cs \<Rightarrow>
          (case match_expr s of
             Some (e, rest) \<Rightarrow>
               (case f e of Some v \<Rightarrow> v @ replace_expr f rest | None \<Rightarrow> c # replace_expr f cs)
           | None \<Rightarrow> c # replace_expr f cs))"
  by pat_completeness auto
termination
  by (relation "measure (\<lambda>(f, s). length s)") (auto dest: match_expr_shorter)

declare scan_expr.simps [simp del] replace_expr.simps [simp del]

definition findExpressions :: "string \<Rightarrow> string list" where
  "findExpressions text = uniq (scan_expr text)"

definition first_word :: "string \<Rightarrow> string" where
  "first_word token = hd (split_runs js_ws token)"

definition assertSupportedExpressions ::
    "string \<Rightarrow> string list \<Rightarrow> expr_site \<Rightarrow> unit result" where
  "assertSupportedExpressions text allowed site =
     (let bad = filter (\<lambda>token. first_word token \<notin> set allowed) (findExpressions text) in
      if bad \<noteq> [] then Inl (ErrExpression site bad allowed) else Inr ())"

definition GENERAL_EXPRESSIONS :: "string list" where
  "GENERAL_EXPRESSIONS = [''branch'', ''tag'', ''sha'']"

definition SEMVER_EXPRESSIONS :: "string list" where
  "SEMVER_EXPRESSIONS = [''raw'', ''version'', ''major'', ''minor'', ''patch'']"

text \<open>What the rules see of the event.\<close>

record tag_ctx =
  x_branch :: string
  x_tag :: string
  x_sha :: string
  x_fullSha :: string
  x_ref :: string
  x_isTagEvent :: bool
  x_isBranchEvent :: bool
  x_isPrEvent :: bool
  x_isPrerelease :: bool

definition general_value :: "tag_ctx \<Rightarrow> string \<Rightarrow> string option" where
  "general_value ctx key =
     (if key = ''branch'' then Some (x_branch ctx)
      else if key = ''tag'' then Some (x_tag ctx)
      else if key = ''sha'' then Some (x_sha ctx) else None)"

definition renderExpression :: "string option \<Rightarrow> tag_ctx \<Rightarrow> string" where
  "renderExpression template ctx = replace_expr (general_value ctx) (str_or_empty template)"

section \<open>Tag rules\<close>

definition DEFAULT_TAGS :: string where
  "DEFAULT_TAGS = join [newline]
     [''type=ref,event=tag'',
      ''type=semver,pattern='' @ [lbrace, lbrace] @ ''version'' @ [rbrace, rbrace],
      ''type=semver,pattern='' @ [lbrace, lbrace] @ ''major'' @ [rbrace, rbrace] @ ''.'' @
        [lbrace, lbrace] @ ''minor'' @ [rbrace, rbrace],
      ''type=sha'']"

definition SUPPORTED_TYPES :: "string list" where
  "SUPPORTED_TYPES = [''semver'', ''ref'', ''sha'', ''raw'', ''match'']"

definition UNSUPPORTED_TYPES :: "string list" where
  "UNSUPPORTED_TYPES = [''schedule'', ''pep440'', ''edge'']"

type_synonym attrs = "string \<Rightarrow> string option"

record rule =
  ru_type :: string
  ru_attrs :: attrs
  ru_line :: string

definition set_attr :: "string \<Rightarrow> string \<Rightarrow> attrs \<Rightarrow> attrs" where
  "set_attr k v m = (if k = ''__proto__'' then m else m(k \<mapsto> v))"

definition firstSegment :: "string \<Rightarrow> attrs" where
  "firstSegment first =
     (if startsWith first ''type='' then [''type'' \<mapsto> trim (drop 5 first)]
      else case index_of CHR ''='' first of
        Some index \<Rightarrow> set_attr (trim (take index first)) (trim (drop (Suc index) first)) Map.empty
      | None \<Rightarrow> [''type'' \<mapsto> ''raw'', ''value'' \<mapsto> first])"

fun addSegments :: "attrs \<Rightarrow> string list \<Rightarrow> attrs result" where
  "addSegments attrs [] = Inr attrs"
| "addSegments attrs (part # parts) =
     (case index_of CHR ''='' part of
        None \<Rightarrow> Inl (ErrRuleSegment part)
      | Some index \<Rightarrow>
          if index = 0 then Inl (ErrRuleSegment part)
          else addSegments (set_attr (trim (take index part)) (trim (drop (Suc index) part)) attrs) parts)"

definition parseTagRule :: "string \<Rightarrow> rule result" where
  "parseTagRule line =
     (let parts = split_on CHR '','' line in
      bindE (addSegments (firstSegment (trim (hd parts))) (tl parts)) (\<lambda>attrs.
      let ty = (let t = str_or_empty (attrs ''type'') in if t \<noteq> [] then t else ''raw'') in
      if ty \<in> set UNSUPPORTED_TYPES then Inl (ErrUnsupportedType ty)
      else if ty \<notin> set SUPPORTED_TYPES then Inl (ErrUnknownType ty)
      else case attrs ''enable'' of
        Some e \<Rightarrow> if e \<in> {[], ''true'', ''false''} then Inr \<lparr>ru_type = ty, ru_attrs = attrs, ru_line = line\<rparr>
                  else Inl (ErrEnable e)
      | None \<Rightarrow> Inr \<lparr>ru_type = ty, ru_attrs = attrs, ru_line = line\<rparr>))"

definition line_sep :: "char \<Rightarrow> bool" where
  "line_sep c \<longleftrightarrow> c = newline \<or> c = CHR '';''"

definition parseTagRules :: "string \<Rightarrow> rule list result" where
  "parseTagRules raw =
     (let lines = filter list_item (map trim (split_runs line_sep raw)) in
      if lines = [] then Inl ErrNoRules else mapE parseTagRule lines)"

section \<open>Flavor\<close>

definition DEFAULT_FLAVOR :: string where
  "DEFAULT_FLAVOR = ''latest=auto''"

record flavor =
  fl_latest :: string
  fl_prefix :: string
  fl_suffix :: string
  fl_onlatest :: bool

text \<open>\<open>key=value\<close>, trimmed; a text without \<open>=\<close> is a key with an empty value.\<close>

definition keyOrFlag :: "string \<Rightarrow> string \<times> string" where
  "keyOrFlag item =
     (case index_of CHR ''='' item of
        None \<Rightarrow> (trim item, [])
      | Some index \<Rightarrow> (trim (take index item), trim (drop (Suc index) item)))"

fun affixFlags :: "string \<Rightarrow> bool \<Rightarrow> string list \<Rightarrow> bool result" where
  "affixFlags key on [] = Inr on"
| "affixFlags key on (flag # flags) =
     (let (flagKey, flagValue) = keyOrFlag flag in
      if flagKey \<noteq> ''onlatest'' then Inl (ErrFlavorFlag key flagKey)
      else affixFlags key (flagValue = ''true'') flags)"

definition flavorItem :: "flavor \<Rightarrow> string \<Rightarrow> flavor result" where
  "flavorItem fl item =
     (let (key, value) = keyOrFlag item in
      if key = ''latest'' then
        (if value \<in> {''auto'', ''true'', ''false''} then Inr (fl\<lparr>fl_latest := value\<rparr>)
         else Inl (ErrFlavorLatest value))
      else if key = ''prefix'' \<or> key = ''suffix'' then
        (let parts = split_on CHR '','' value; text = trim (hd parts) in
         bindE (affixFlags key (fl_onlatest fl) (tl parts)) (\<lambda>on.
           Inr (if key = ''prefix'' then fl\<lparr>fl_prefix := text, fl_onlatest := on\<rparr>
                else fl\<lparr>fl_suffix := text, fl_onlatest := on\<rparr>)))
      else if key = ''onlatest'' then Inr (fl\<lparr>fl_onlatest := (value = ''true'')\<rparr>)
      else Inl (ErrFlavorKey key))"

fun flavorItems :: "flavor \<Rightarrow> string list \<Rightarrow> flavor result" where
  "flavorItems fl [] = Inr fl"
| "flavorItems fl (item # items) = bindE (flavorItem fl item) (\<lambda>fl'. flavorItems fl' items)"

definition parseFlavor :: "string \<Rightarrow> flavor result" where
  "parseFlavor raw =
     flavorItems \<lparr>fl_latest = ''auto'', fl_prefix = [], fl_suffix = [], fl_onlatest = False\<rparr>
       (filter list_item (map trim (split_runs line_sep raw)))"

section \<open>Facts about the input language\<close>

text \<open>A text without \<open>{\<close> holds no expression and is rendered as it is.\<close>

lemma match_expr_no_brace: "lbrace \<notin> set s \<Longrightarrow> match_expr s = None"
  using startsWith_set [of s "[lbrace, lbrace]"] by (auto simp: match_expr_def Let_def)

lemma scan_expr_plain: "lbrace \<notin> set s \<Longrightarrow> scan_expr s = []"
  by (induction s) (simp_all add: scan_expr.simps match_expr_no_brace)

lemma replace_expr_plain: "lbrace \<notin> set s \<Longrightarrow> replace_expr f s = s"
  by (induction s) (simp_all add: replace_expr.simps match_expr_no_brace)

lemma renderExpression_plain: "lbrace \<notin> set (str_or_empty t) \<Longrightarrow> renderExpression t ctx = str_or_empty t"
  by (simp add: renderExpression_def replace_expr_plain)

lemma renderExpression_None [simp]: "renderExpression None ctx = []"
  by (simp add: renderExpression_plain)

text \<open>One expression is replaced by its value, and rendering goes on behind it.\<close>

lemma match_expr_expr:
  "rbrace \<notin> set e \<Longrightarrow> match_expr ([lbrace, lbrace] @ e @ [rbrace, rbrace] @ t) = Some (trim e, t)"
proof -
  assume e: "rbrace \<notin> set e"
  have "takeWhile (\<lambda>c. c \<noteq> rbrace) (e @ [rbrace, rbrace] @ t) = e"
    using e by (auto simp: takeWhile_append)
  moreover have "dropWhile (\<lambda>c. c \<noteq> rbrace) (e @ [rbrace, rbrace] @ t) = [rbrace, rbrace] @ t"
    using e by (auto simp: dropWhile_append)
  ultimately show ?thesis by (simp add: match_expr_def startsWith_def)
qed

lemma replace_expr_expr:
  assumes e: "rbrace \<notin> set e" and f: "f (trim e) = Some v"
  shows "replace_expr f ([lbrace, lbrace] @ e @ [rbrace, rbrace] @ t) = v @ replace_expr f t"
  using match_expr_expr [OF e, of t] f
  by (subst replace_expr.simps) simp

text \<open>Every rule has one of the implemented types.\<close>

lemma parseTagRule_type: "parseTagRule line = Inr r \<Longrightarrow> ru_type r \<in> set SUPPORTED_TYPES \<and> ru_line r = line"
  by (auto simp: parseTagRule_def Let_def split: if_splits option.splits)

lemma parseTagRules_type:
  assumes "parseTagRules raw = Inr rs"
  shows "rs \<noteq> [] \<and> (\<forall>r \<in> set rs. ru_type r \<in> set SUPPORTED_TYPES)"
proof -
  from assms obtain lines where ne: "lines \<noteq> []" and m: "mapE parseTagRule lines = Inr rs"
    by (auto simp: parseTagRules_def Let_def split: if_splits)
  have "rs \<noteq> []" using ne mapE_length [OF m] by auto
  moreover have "ru_type r \<in> set SUPPORTED_TYPES" if "r \<in> set rs" for r
    using mapE_mem [OF m that] by (auto dest: parseTagRule_type)
  ultimately show ?thesis by blast
qed

lemma flavorItem_latest:
  "flavorItem fl item = Inr fl' \<Longrightarrow> fl_latest fl \<in> {''auto'', ''true'', ''false''} \<Longrightarrow>
   fl_latest fl' \<in> {''auto'', ''true'', ''false''}"
  by (auto simp: flavorItem_def Let_def split_beta split: if_splits)

lemma flavorItems_latest:
  "flavorItems fl items = Inr fl' \<Longrightarrow> fl_latest fl \<in> {''auto'', ''true'', ''false''} \<Longrightarrow>
   fl_latest fl' \<in> {''auto'', ''true'', ''false''}"
  by (induction items arbitrary: fl) (auto simp del: insert_iff dest: flavorItem_latest)

lemma parseFlavor_latest: "parseFlavor raw = Inr fl \<Longrightarrow> fl_latest fl \<in> {''auto'', ''true'', ''false''}"
  unfolding parseFlavor_def by (erule flavorItems_latest) simp

end
