(* ===== verification/Meta.thy ===== *)
theory Meta
  imports Release_State Resolve Meta_Rules
begin

text \<open>
  \<open>meta.mjs\<close>: the tags of a release.  Rules and flavor give one base tag set; a variant gets
  every tag with its suffix, the default variant the plain set as well; two variants that
  would write the same tag are refused.  The host's regular expression engine (\<open>rx\<close>, for
  the patterns a repository writes) and \<open>localeCompare\<close> (\<open>lc\<close>) are parameters.
\<close>

section \<open>The tag of one rule\<close>

text \<open>\<open>new RegExp(pattern).exec(value)\<close>: the pattern may be malformed; a match lists the whole
  match and then its groups.\<close>

datatype rx_result = RxInvalid | RxNoMatch | RxMatch "string option list"

type_synonym regex = "string \<Rightarrow> string \<Rightarrow> rx_result"

definition has_version_expr :: "string \<Rightarrow> bool" where
  "has_version_expr text \<longleftrightarrow>
     list_ex (\<lambda>i. case match_expr (drop i text) of
       Some (e, _) \<Rightarrow> e \<in> {''version'', ''raw''} | None \<Rightarrow> False) [0..<length text]"

definition semver_value :: "string \<Rightarrow> string \<Rightarrow> string \<Rightarrow> string option" where
  "semver_value version raw key =
     (let parts = split_on CHR ''.'' (hd (split_on CHR ''-'' version));
          part = (\<lambda>i. str_or_empty (nth_opt parts i)) in
      if key = ''raw'' then Some raw
      else if key = ''version'' then Some version
      else if key = ''major'' then Some (part 0)
      else if key = ''minor'' then Some (part 1)
      else if key = ''patch'' then Some (part 2) else None)"

definition expandSemverPattern :: "string option \<Rightarrow> string \<Rightarrow> string \<Rightarrow> bool \<Rightarrow> string" where
  "expandSemverPattern pattern version raw isPrerelease =
     (let text = (if str_or_empty pattern \<noteq> [] then str_or_empty pattern
                  else [lbrace, lbrace] @ ''version'' @ [rbrace, rbrace]) in
      if isPrerelease \<and> \<not> has_version_expr text then []
      else replace_expr (semver_value version raw) text)"

text \<open>\<open>replace(/^refs\/(heads|tags)\//, '')\<close>\<close>

definition shortRef :: "string \<Rightarrow> string" where
  "shortRef ref = (if startsWith ref ''refs/heads/'' then drop 11 ref
                   else if startsWith ref ''refs/tags/'' then drop 10 ref else ref)"

text \<open>The number in \<open>refs/pull/<number>/\<close>.\<close>

definition pullNumber :: "string \<Rightarrow> string" where
  "pullNumber ref =
     (let r = drop 10 ref; n = takeWhile is_digit r in
      if startsWith ref ''refs/pull/'' \<and> n \<noteq> [] \<and> startsWith (dropWhile is_digit r) ''/''
      then n else [])"

text \<open>\<open>/^\d+\.\d+\.\d+/\<close>\<close>

definition versionLike :: "string \<Rightarrow> bool" where
  "versionLike s =
     (let part = (\<lambda>t. if takeWhile is_digit t \<noteq> [] \<and> startsWith (dropWhile is_digit t) ''.''
                      then Some (tl (dropWhile is_digit t)) else None) in
      case Option.bind (part s) part of
        None \<Rightarrow> False | Some t \<Rightarrow> takeWhile is_digit t \<noteq> [])"

definition rawTagName :: "attrs \<Rightarrow> tag_ctx \<Rightarrow> string" where
  "rawTagName attrs ctx = renderExpression (attrs ''value'') ctx"

definition shaTagName :: "attrs \<Rightarrow> tag_ctx \<Rightarrow> string" where
  "shaTagName attrs ctx =
     (let base = (if attrs ''format'' = Some ''long''
                  then (if x_fullSha ctx \<noteq> [] then x_fullSha ctx else x_sha ctx)
                  else take 7 (x_sha ctx));
          prefix = (case attrs ''prefix'' of None \<Rightarrow> ''sha-'' | Some p \<Rightarrow> renderExpression (Some p) ctx)
      in prefix @ base)"

definition refTagName :: "attrs \<Rightarrow> tag_ctx \<Rightarrow> string result" where
  "refTagName attrs ctx =
     (let event = (let e = str_or_empty (attrs ''event'') in if e \<noteq> [] then e else ''branch'');
          pre = renderExpression (attrs ''prefix'') ctx;
          suf = renderExpression (attrs ''suffix'') ctx in
      if event = ''pr'' then
        (if \<not> x_isPrEvent ctx then Inr []
         else let number = pullNumber (x_ref ctx);
                  prefix = (case attrs ''prefix'' of None \<Rightarrow> ''pr-'' | Some p \<Rightarrow> renderExpression (Some p) ctx)
              in Inr (if number \<noteq> [] then prefix @ number else []))
      else if event = ''tag'' then
        Inr (if \<not> x_isTagEvent ctx then [] else pre @ x_tag ctx @ suf)
      else if event \<noteq> ''branch'' then Inl (ErrRefEvent event)
      else Inr (if \<not> x_isBranchEvent ctx then [] else pre @ shortRef (x_ref ctx) @ suf))"

definition valueOrTag :: "attrs \<Rightarrow> tag_ctx \<Rightarrow> string" where
  "valueOrTag attrs ctx =
     (let value = renderExpression (attrs ''value'') ctx in if value \<noteq> [] then value else x_tag ctx)"

text \<open>\<open>matched[group] ?? ''\<close>: a group that is no index of the match gives the empty text.\<close>

definition group_text :: "string option list \<Rightarrow> int option \<Rightarrow> string" where
  "group_text groups index =
     (case index of
        None \<Rightarrow> []
      | Some i \<Rightarrow> if i < 0 then [] else (case nth_opt groups (nat i) of Some (Some g) \<Rightarrow> g | _ \<Rightarrow> []))"

definition matchTagName :: "regex \<Rightarrow> attrs \<Rightarrow> tag_ctx \<Rightarrow> string result" where
  "matchTagName rx attrs ctx =
     (let value = valueOrTag attrs ctx; pattern = str_or_empty (attrs ''pattern'') in
      if pattern = [] then Inl ErrMatchPattern
      else case rx pattern value of
        RxInvalid \<Rightarrow> Inl (ErrRegExp pattern)
      | RxNoMatch \<Rightarrow> Inr []
      | RxMatch groups \<Rightarrow>
          (let g = str_or_empty (attrs ''group'') in
           Inr (group_text groups (parse_int (if g \<noteq> [] then g else ''0'')))))"

definition semverTagName :: "regex \<Rightarrow> attrs \<Rightarrow> tag_ctx \<Rightarrow> string result" where
  "semverTagName rx attrs ctx =
     (let value = valueOrTag attrs ctx;
          semverValue = (if startsWith value ''v'' then drop 1 value else value);
          matchPattern = str_or_empty (attrs ''match'');
          render = (\<lambda>version. if \<not> versionLike version then []
             else expandSemverPattern (attrs ''pattern'') version value (CHR ''-'' \<in> set version)) in
      if matchPattern = [] then Inr (render semverValue)
      else case rx matchPattern semverValue of
        RxInvalid \<Rightarrow> Inl (ErrRegExp matchPattern)
      | RxNoMatch \<Rightarrow> Inr []
      | RxMatch groups \<Rightarrow>
          Inr (render (case nth_opt groups 1 of Some (Some g) \<Rightarrow> g | _ \<Rightarrow> semverValue)))"

definition ruleTagName :: "regex \<Rightarrow> rule \<Rightarrow> tag_ctx \<Rightarrow> string result" where
  "ruleTagName rx rule ctx =
     (let ty = ru_type rule; attrs = ru_attrs rule in
      if ty = ''raw'' then Inr (rawTagName attrs ctx)
      else if ty = ''sha'' then Inr (shaTagName attrs ctx)
      else if ty = ''ref'' then refTagName attrs ctx
      else if ty = ''match'' then matchTagName rx attrs ctx
      else if ty = ''semver'' then semverTagName rx attrs ctx
      else Inr [])"

section \<open>The base tag set\<close>

definition PRIORITY :: "string \<Rightarrow> jsnum" where
  "PRIORITY ty = (case map_of [(''schedule'', 1000), (''semver'', 900), (''pep440'', 900), (''match'', 800),
     (''edge'', 700), (''ref'', 600), (''raw'', 200), (''sha'', 100)] ty of
     Some n \<Rightarrow> Num n | None \<Rightarrow> NaN)"

record base_tag =
  bt_name :: string
  bt_priority :: jsnum
  bt_isLatest :: bool

type_synonym collected = "(string, base_tag) jmap"

text \<open>The closure \<open>add\<close>: names are sanitized, a higher or equal priority replaces an entry.\<close>

definition addTag :: "string \<Rightarrow> jsnum \<Rightarrow> bool \<Rightarrow> collected \<Rightarrow> collected result" where
  "addTag name priority isLatest collected =
     (if name = [] then Inr collected
      else bindE (sanitizeTagName name) (\<lambda>clean.
        let entry = \<lparr>bt_name = clean, bt_priority = priority, bt_isLatest = isLatest\<rparr> in
        case jm_get clean collected of
          None \<Rightarrow> Inr (jm_set clean entry collected)
        | Some existing \<Rightarrow> Inr (if bt_priority existing \<le> priority
                              then jm_set clean entry collected else collected)))"

definition rulePriority :: "rule \<Rightarrow> jsnum" where
  "rulePriority rule =
     (case ru_attrs rule ''priority'' of Some p \<Rightarrow> to_number p | None \<Rightarrow> PRIORITY (ru_type rule))"

definition latestCapable :: "rule \<Rightarrow> bool" where
  "latestCapable rule \<longleftrightarrow> ru_type rule = ''semver'' \<or> ru_type rule = ''match'' \<or>
     (ru_type rule = ''ref'' \<and>
      (let e = str_or_empty (ru_attrs rule ''event'') in if e \<noteq> [] then e else ''branch'') = ''tag'')"

text \<open>The loop over the rules; \<open>latestFrom\<close> is \<^const>\<open>None\<close> while no rule can own \<open>latest\<close>.\<close>

fun collectRules ::
    "regex \<Rightarrow> flavor \<Rightarrow> tag_ctx \<Rightarrow> rule list \<Rightarrow> collected \<Rightarrow> jsnum option \<Rightarrow>
     (collected \<times> jsnum option) result" where
  "collectRules rx fl ctx [] collected latestFrom = Inr (collected, latestFrom)"
| "collectRules rx fl ctx (rule # rules) collected latestFrom =
     (if ru_attrs rule ''enable'' = Some ''false'' then collectRules rx fl ctx rules collected latestFrom
      else bindE (ruleTagName rx rule ctx) (\<lambda>name.
        if name = [] then collectRules rx fl ctx rules collected latestFrom
        else
          let priority = rulePriority rule;
              full = renderExpression (ru_attrs rule ''prefix'') ctx @ name @
                     renderExpression (ru_attrs rule ''suffix'') ctx in
          bindE (addTag (fl_prefix fl @ full @ fl_suffix fl)
                   (if is_finite priority then priority else Num 0) False collected) (\<lambda>collected'.
          collectRules rx fl ctx rules collected'
            (if latestCapable rule \<and> \<not> x_isPrerelease ctx
             then Some (case latestFrom of None \<Rightarrow> priority | Some l \<Rightarrow> js_max l priority)
             else latestFrom))))"

text \<open>\<open>b.priority - a.priority || a.name.localeCompare(b.name)\<close> is at most zero.\<close>

definition tag_before :: "(string \<Rightarrow> string \<Rightarrow> int) \<Rightarrow> base_tag \<Rightarrow> base_tag \<Rightarrow> bool" where
  "tag_before lc a b \<longleftrightarrow>
     (if bt_priority b < bt_priority a then True
      else if bt_priority a < bt_priority b then False
      else lc (bt_name a) (bt_name b) \<le> 0)"

definition generateTags ::
    "regex \<Rightarrow> (string \<Rightarrow> string \<Rightarrow> int) \<Rightarrow> rule list \<Rightarrow> flavor \<Rightarrow> tag_ctx \<Rightarrow> base_tag list result" where
  "generateTags rx lc rules fl ctx =
     bindE (collectRules rx fl ctx rules [] None) (\<lambda>(collected, latestFrom).
     bindE (case latestFrom of
              Some l \<Rightarrow>
                if fl_latest fl \<noteq> ''false'' \<and> (fl_latest fl = ''true'' \<or> fl_latest fl = ''auto'')
                then addTag (if fl_onlatest fl then fl_prefix fl @ ''latest'' @ fl_suffix fl else ''latest'')
                       l True collected
                else Inr collected
            | None \<Rightarrow> Inr collected) (\<lambda>collected'.
     Inr (sort_by (tag_before lc) (jm_values collected'))))"

section \<open>The tags of a variant\<close>

definition variantTagNames :: "base_tag list \<Rightarrow> variant \<Rightarrow> bool \<Rightarrow> string list result" where
  "variantTagNames baseTags variant isTagEvent =
     (let suffixed = map (\<lambda>tag. bt_name tag @ v_suffix variant) (filter (\<lambda>tag. \<not> bt_isLatest tag) baseTags);
          names = (if v_isDefault variant then map bt_name baseTags @ suffixed else suffixed);
          names = (if isTagEvent then names @ [v_name variant] else names) in
      bindE (mapE sanitizeTagName names) (\<lambda>clean. Inr (uniq clean)))"

definition buildLabels ::
    "release_state \<Rightarrow> (string \<times> string) list \<Rightarrow> string \<Rightarrow> (string \<times> string) list" where
  "buildLabels state custom now =
     (let source = dropWhile (\<lambda>c. c = CHR ''/'') (st_serverUrl state @ ''/'' @ st_repo state);
          labels = [(''org.opencontainers.image.created'', now),
                    (''org.opencontainers.image.revision'', st_sha state),
                    (''org.opencontainers.image.version'', st_version state),
                    (''org.opencontainers.image.source'', source),
                    (''org.opencontainers.image.url'', source),
                    (''org.opencontainers.image.title'', st_repoName state)]
      in fold (\<lambda>(key, value). jo_set key value) custom labels)"

definition tagCtx :: "release_state \<Rightarrow> tag_ctx" where
  "tagCtx state =
     \<lparr>x_branch = (if st_isBranchEvent state then shortRef (st_ref state) else []),
      x_tag = (if st_isTagEvent state then st_tag state else []),
      x_sha = st_shortSha state, x_fullSha = st_sha state, x_ref = st_ref state,
      x_isTagEvent = st_isTagEvent state, x_isBranchEvent = st_isBranchEvent state,
      x_isPrEvent = st_isPrEvent state, x_isPrerelease = st_prerelease state\<rparr>"

definition planVariant ::
    "release_state \<Rightarrow> base_tag list \<Rightarrow> (string \<times> string) list \<Rightarrow> variant \<Rightarrow> build result" where
  "planVariant state baseTags labels variant =
     bindE (variantTagNames baseTags variant (st_isTagEvent state)) (\<lambda>tagNames.
     Inr \<lparr>b_variant = v_name variant, b_suffix = v_suffix variant,
          b_dockerfile = v_dockerfile variant, b_target = v_target variant,
          b_isDefault = v_isDefault variant, b_buildArgs = v_buildArgs variant,
          b_platforms = v_platforms variant, b_tagNames = tagNames, b_labels = labels,
          b_images = map (\<lambda>image. \<lparr>ti_base = img_base image, ti_registryId = img_registryId image,
            ti_tags = map (\<lambda>name. img_base image @ '':'' @ name) tagNames\<rparr>) (st_images state)\<rparr>)"

definition planBuilds ::
    "regex \<Rightarrow> (string \<Rightarrow> string \<Rightarrow> int) \<Rightarrow> release_state \<Rightarrow> rule list \<Rightarrow> flavor \<Rightarrow>
     (string \<times> string) list \<Rightarrow> string \<Rightarrow> build list result" where
  "planBuilds rx lc state rules fl customLabels now =
     bindE (generateTags rx lc rules fl (tagCtx state)) (\<lambda>baseTags.
     if baseTags = [] then Inl ErrNoTags
     else mapE (planVariant state baseTags (buildLabels state customLabels now)) (st_variants state))"

section \<open>Refusing overwrites\<close>

fun dupTags ::
    "string \<Rightarrow> string list \<Rightarrow> (string, string) jmap \<Rightarrow> (string \<times> string list) list \<Rightarrow>
     (string, string) jmap \<times> (string \<times> string list) list" where
  "dupTags variant [] seen dups = (seen, dups)"
| "dupTags variant (name # names) seen dups =
     (case jm_get name seen of
        Some v \<Rightarrow> if v \<noteq> variant then dupTags variant names seen (dups @ [(name, [v, variant])])
                  else dupTags variant names (jm_set name variant seen) dups
      | None \<Rightarrow> dupTags variant names (jm_set name variant seen) dups)"

fun dupBuilds ::
    "build list \<Rightarrow> (string, string) jmap \<Rightarrow> (string \<times> string list) list \<Rightarrow> (string \<times> string list) list" where
  "dupBuilds [] seen dups = dups"
| "dupBuilds (b # bs) seen dups =
     (let (seen', dups') = dupTags (b_variant b) (b_tagNames b) seen dups in dupBuilds bs seen' dups')"

definition findDuplicateTags :: "build list \<Rightarrow> (string \<times> string list) list" where
  "findDuplicateTags builds = dupBuilds builds [] []"

section \<open>The whole step\<close>

definition orDefault :: "string option \<Rightarrow> string \<Rightarrow> string" where
  "orDefault raw fallback = (if trim (str_or_empty raw) = [] then fallback else str_or_empty raw)"

definition assertRule :: "rule \<Rightarrow> unit result" where
  "assertRule rule =
     (let attr = (\<lambda>k. str_or_empty (ru_attrs rule k)) in
      bindE (if ru_type rule = ''semver''
             then assertSupportedExpressions (attr ''pattern'') SEMVER_EXPRESSIONS SemverPattern
             else Inr ()) (\<lambda>_.
      assertSupportedExpressions (join '' '' [attr ''value'', attr ''prefix'', attr ''suffix''])
        GENERAL_EXPRESSIONS (TagRule (ru_line rule))))"

definition computeBuilds ::
    "regex \<Rightarrow> (string \<Rightarrow> string \<Rightarrow> int) \<Rightarrow> release_state \<Rightarrow> string option \<Rightarrow> string option \<Rightarrow>
     string option \<Rightarrow> string \<Rightarrow> build list result" where
  "computeBuilds rx lc state tagsRaw flavorRaw labelsRaw now =
     bindE (parseTagRules (orDefault tagsRaw DEFAULT_TAGS)) (\<lambda>rules.
     bindE (parseFlavor (orDefault flavorRaw DEFAULT_FLAVOR)) (\<lambda>fl.
     bindE (mapE assertRule rules) (\<lambda>_.
     bindE (assertSupportedExpressions (join '' '' [fl_prefix fl, fl_suffix fl]) GENERAL_EXPRESSIONS FlavorSite)
       (\<lambda>_.
     bindE (parseKeyValues labelsRaw ''DOCKER_META_LABELS'') (\<lambda>customLabels.
     bindE (assertSupportedExpressions (join '' '' (map snd customLabels)) GENERAL_EXPRESSIONS LabelSite) (\<lambda>_.
     bindE (planBuilds rx lc state rules fl customLabels now) (\<lambda>builds.
     if findDuplicateTags builds \<noteq> [] then Inl (ErrDuplicateTags (findDuplicateTags builds))
     else Inr builds)))))))"

text \<open>\<open>main\<close>: the builds become part of the state file.\<close>

definition meta_main ::
    "regex \<Rightarrow> (string \<Rightarrow> string \<Rightarrow> int) \<Rightarrow> string \<Rightarrow> env \<Rightarrow> release_state \<Rightarrow> release_state result" where
  "meta_main rx lc now env state =
     bindE (computeBuilds rx lc state (env ''DOCKER_META_TAGS'') (env ''DOCKER_META_FLAVOR'')
              (env ''DOCKER_META_LABELS'') now) (\<lambda>builds. Inr (state\<lparr>st_builds := builds\<rparr>))"


section \<open>One owner per tag\<close>

text \<open>The table of owners: an empty report means that no name changed its owner.\<close>

lemma dupTags_grows: "\<exists>ds. snd (dupTags v names seen dups) = dups @ ds"
proof (induction names arbitrary: seen dups)
  case (Cons n names)
  let ?dup = "[(n, [the (jm_get n seen), v])]"
  obtain ds where "snd (dupTags v names seen (dups @ ?dup)) = dups @ ?dup @ ds"
    using Cons.IH [of seen "dups @ ?dup"] by auto
  then show ?case using Cons.IH [of "jm_set n v seen" dups] by (auto split: option.splits)
qed simp

lemma dupTags_clean:
  "jm_inv seen \<Longrightarrow> dupTags v names seen [] = (seen', []) \<Longrightarrow>
   jm_inv seen' \<and> (\<forall>n \<in> set names. jm_get n seen' = Some v) \<and>
   (\<forall>n u. jm_get n seen = Some u \<longrightarrow> jm_get n seen' = Some u)"
proof (induction names arbitrary: seen)
  case (Cons n names)
  have same: "jm_get n seen = None \<or> jm_get n seen = Some v"
    and step: "dupTags v names (jm_set n v seen) [] = (seen', [])"
    using Cons.prems(2) dupTags_grows [of v names seen "[(n, [the (jm_get n seen), v])]"]
    by (auto split: option.splits if_splits)
  show ?case
    using Cons.IH [OF jm_inv_set [OF Cons.prems(1)] step] same
    by (simp add: jm_get_set) (metis option.distinct(1))
qed simp

lemma dupBuilds_grows: "\<exists>ds. dupBuilds bs seen dups = dups @ ds"
proof (induction bs arbitrary: seen dups)
  case (Cons b bs)
  obtain seen' dups' where s: "dupTags (b_variant b) (b_tagNames b) seen dups = (seen', dups')"
    by (cases "dupTags (b_variant b) (b_tagNames b) seen dups")
  obtain ds where "dups' = dups @ ds"
    using dupTags_grows [of "b_variant b" "b_tagNames b" seen dups] s by auto
  then show ?case using Cons.IH [of seen' dups'] s by auto
qed simp

definition single_owner :: "build list \<Rightarrow> bool" where
  "single_owner bs \<longleftrightarrow>
     (\<forall>b \<in> set bs. \<forall>b' \<in> set bs. \<forall>t \<in> set (b_tagNames b).
        t \<in> set (b_tagNames b') \<longrightarrow> b_variant b = b_variant b')"

lemma dupBuilds_clean:
  "jm_inv seen \<Longrightarrow> dupBuilds bs seen [] = [] \<Longrightarrow>
   \<exists>seen'. (\<forall>b \<in> set bs. \<forall>n \<in> set (b_tagNames b). jm_get n seen' = Some (b_variant b)) \<and>
     (\<forall>n u. jm_get n seen = Some u \<longrightarrow> jm_get n seen' = Some u)"
proof (induction bs arbitrary: seen)
  case (Cons b bs)
  obtain seen1 dups where s: "dupTags (b_variant b) (b_tagNames b) seen [] = (seen1, dups)"
    by (cases "dupTags (b_variant b) (b_tagNames b) seen []")
  then have rest: "dupBuilds bs seen1 dups = []" using Cons.prems(2) by simp
  then have d: "dups = []" using dupBuilds_grows [of bs seen1 dups] by auto
  note first = dupTags_clean [OF Cons.prems(1) s [unfolded d]]
  obtain seen' where "\<forall>b \<in> set bs. \<forall>n \<in> set (b_tagNames b). jm_get n seen' = Some (b_variant b)"
      and "\<forall>n u. jm_get n seen1 = Some u \<longrightarrow> jm_get n seen' = Some u"
    using Cons.IH [of seen1] first rest d by auto
  then show ?case using first by (intro exI [of _ seen']) auto
qed auto

lemma findDuplicateTags_single_owner: "findDuplicateTags bs = [] \<Longrightarrow> single_owner bs"
proof -
  assume "findDuplicateTags bs = []"
  then obtain seen where
    "\<forall>b \<in> set bs. \<forall>n \<in> set (b_tagNames b). jm_get n seen = Some (b_variant b)"
    using dupBuilds_clean [of "[]" bs] by (auto simp: findDuplicateTags_def jm_inv_def)
  then show ?thesis unfolding single_owner_def by (metis option.inject)
qed

section \<open>The base tag set\<close>

text \<open>The collected tags are keyed by their name, and the names are legal.\<close>

definition collected_ok :: "collected \<Rightarrow> bool" where
  "collected_ok m \<longleftrightarrow> jm_inv m \<and> (\<forall>(k, t) \<in> set m. bt_name t = k \<and> legal_tag k)"

lemma set_jm_set: "set (jm_set k v m) \<subseteq> insert (k, v) (set m)"
  by (induction m) (auto split: if_splits)

lemma addTag_cases:
  "addTag n p l m = Inr m' \<Longrightarrow>
   m' = m \<or> (\<exists>k. legal_tag k \<and> m' = jm_set k \<lparr>bt_name = k, bt_priority = p, bt_isLatest = l\<rparr> m)"
  unfolding addTag_def Let_def
  by (fastforce dest: sanitize_legal split: if_splits option.splits)

lemma addTag_ok: "addTag n p l m = Inr m' \<Longrightarrow> collected_ok m \<Longrightarrow> collected_ok m'"
  by (drule addTag_cases) (auto simp: collected_ok_def jm_inv_set dest!: set_jm_set [THEN subsetD])

lemma addTag_latest:
  "addTag n p l m = Inr m' \<Longrightarrow> t \<in> snd ` set m' \<Longrightarrow> bt_isLatest t \<Longrightarrow>
   l \<or> t \<in> snd ` set m"
  by (drule addTag_cases) (auto simp: image_iff dest!: set_jm_set [THEN subsetD])

lemma collectRules_step:
  assumes "collectRules rx fl ctx (r # rules) m lf = Inr res"
  shows "collectRules rx fl ctx rules m lf = Inr res \<or>
    (\<exists>name p m1 lf1. addTag name p False m = Inr m1 \<and> collectRules rx fl ctx rules m1 lf1 = Inr res \<and>
      (x_isPrerelease ctx \<longrightarrow> lf1 = lf))"
proof (cases "ru_attrs r ''enable'' = Some ''false''")
  case False
  then obtain name where name: "ruleTagName rx r ctx = Inr name"
    using assms by (cases "ruleTagName rx r ctx") simp_all
  show ?thesis
  proof (cases "name = []")
    case True
    then show ?thesis using assms False unfolding collectRules.simps name bindE.simps by (simp only: if_False if_True simp_thms)
  next
    case nonempty: False
    let ?full = "fl_prefix fl @ (renderExpression (ru_attrs r ''prefix'') ctx @ name @
      renderExpression (ru_attrs r ''suffix'') ctx) @ fl_suffix fl"
    let ?lf = "if latestCapable r \<and> \<not> x_isPrerelease ctx
      then Some (case lf of None \<Rightarrow> rulePriority r | Some l \<Rightarrow> js_max l (rulePriority r)) else lf"
    obtain m1 where "addTag ?full (if is_finite (rulePriority r) then rulePriority r else Num 0) False m
        = Inr m1" and "collectRules rx fl ctx rules m1 ?lf = Inr res"
      using assms False nonempty unfolding collectRules.simps name bindE.simps Let_def bindE_Inr_iff
      by (simp only: if_False bindE_Inr_iff) blast
    moreover have "x_isPrerelease ctx \<longrightarrow> ?lf = lf" by simp
    ultimately show ?thesis by blast
  qed
qed (use assms in simp)

lemma collectRules_ok:
  "collectRules rx fl ctx rules m lf = Inr (m', lf') \<Longrightarrow> collected_ok m \<Longrightarrow>
   \<forall>t \<in> snd ` set m. \<not> bt_isLatest t \<Longrightarrow>
   collected_ok m' \<and> (\<forall>t \<in> snd ` set m'. \<not> bt_isLatest t) \<and> (x_isPrerelease ctx \<longrightarrow> lf' = lf)"
proof (induction rules arbitrary: m lf)
  case (Cons r rules)
  from collectRules_step [OF Cons.prems(1)] show ?case
  proof (elim disjE exE conjE)
    assume "collectRules rx fl ctx rules m lf = Inr (m', lf')"
    then show ?thesis by (rule Cons.IH [OF _ Cons.prems(2,3)])
  next
    fix name p m1 lf1
    assume add: "addTag name p False m = Inr m1"
      and rest: "collectRules rx fl ctx rules m1 lf1 = Inr (m', lf')"
      and lf: "x_isPrerelease ctx \<longrightarrow> lf1 = lf"
    have "\<forall>t \<in> snd ` set m1. \<not> bt_isLatest t"
    proof
      fix t
      assume t: "t \<in> snd ` set m1"
      show "\<not> bt_isLatest t" using addTag_latest [OF add t] bspec [OF Cons.prems(3), of t] by metis
    qed
    note ih = Cons.IH [OF rest addTag_ok [OF add Cons.prems(2)] this]
    from ih lf show ?thesis by metis
  qed
qed simp

lemma generateTags_ok:
  assumes "generateTags rx lc rules fl ctx = Inr tags"
  shows "distinct (map bt_name tags)" and "\<forall>t \<in> set tags. legal_tag (bt_name t)"
    and "x_isPrerelease ctx \<or> fl_latest fl = ''false'' \<Longrightarrow> \<forall>t \<in> set tags. \<not> bt_isLatest t"
proof -
  from assms obtain m lf m' where col: "collectRules rx fl ctx rules [] None = Inr (m, lf)"
      and m': "(case lf of Some l \<Rightarrow>
                if fl_latest fl \<noteq> ''false'' \<and> (fl_latest fl = ''true'' \<or> fl_latest fl = ''auto'')
                then addTag (if fl_onlatest fl then fl_prefix fl @ ''latest'' @ fl_suffix fl else ''latest'')
                       l True m else Inr m | None \<Rightarrow> Inr m) = Inr m'"
      and tags: "tags = sort_by (tag_before lc) (jm_values m')"
    by (auto simp: generateTags_def)
  have ok: "collected_ok m" "\<forall>t \<in> snd ` set m. \<not> bt_isLatest t" "x_isPrerelease ctx \<longrightarrow> lf = None"
    using collectRules_ok [OF col] by (auto simp: collected_ok_def jm_inv_def)
  have ok': "collected_ok m'"
    using m' ok(1) by (auto split: option.splits if_splits intro: addTag_ok)
  have "map bt_name (jm_values m') = map fst m'"
    using ok' by (auto simp: collected_ok_def jm_values_def)
  then have "distinct (map bt_name (jm_values m'))" using ok' by (simp add: collected_ok_def jm_inv_def)
  then show "distinct (map bt_name tags)" by (simp add: tags distinct_map_sort_by)
  show "\<forall>t \<in> set tags. legal_tag (bt_name t)"
    using ok' by (auto simp: tags collected_ok_def jm_values_def)
  assume "x_isPrerelease ctx \<or> fl_latest fl = ''false''"
  then have "m' = m" using m' ok(3) by (auto split: option.splits)
  then show "\<forall>t \<in> set tags. \<not> bt_isLatest t" using ok(2) by (auto simp: tags jm_values_def)
qed


section \<open>The default rules\<close>

abbreviation braced :: "string \<Rightarrow> string" where
  "braced e \<equiv> [lbrace, lbrace] @ e @ [rbrace, rbrace]"

definition default_rules :: "rule list" where
  "default_rules =
     [\<lparr>ru_type = ''ref'', ru_attrs = [''type'' \<mapsto> ''ref'', ''event'' \<mapsto> ''tag''],
        ru_line = ''type=ref,event=tag''\<rparr>,
      \<lparr>ru_type = ''semver'', ru_attrs = [''type'' \<mapsto> ''semver'', ''pattern'' \<mapsto> braced ''version''],
        ru_line = ''type=semver,pattern='' @ braced ''version''\<rparr>,
      \<lparr>ru_type = ''semver'',
        ru_attrs = [''type'' \<mapsto> ''semver'', ''pattern'' \<mapsto> braced ''major'' @ ''.'' @ braced ''minor''],
        ru_line = ''type=semver,pattern='' @ braced ''major'' @ ''.'' @ braced ''minor''\<rparr>,
      \<lparr>ru_type = ''sha'', ru_attrs = [''type'' \<mapsto> ''sha''], ru_line = ''type=sha''\<rparr>]"

lemma default_lines:
  "filter list_item (map trim (split_runs line_sep DEFAULT_TAGS)) = map ru_line default_rules"
  by code_simp

text \<open>Parsing a line: its parts, and what trimming leaves of them.\<close>

lemma default_parts:
  "split_on CHR '','' ''type=ref,event=tag'' = [''type=ref'', ''event=tag'']"
  "split_on CHR '','' (''type=semver,pattern='' @ braced ''version'') = [''type=semver'', ''pattern='' @ braced ''version'']"
  "split_on CHR '','' (''type=semver,pattern='' @ braced ''major'' @ ''.'' @ braced ''minor'') =
     [''type=semver'', ''pattern='' @ braced ''major'' @ ''.'' @ braced ''minor'']"
  "split_on CHR '','' ''type=sha'' = [''type=sha'']"
  by code_simp+

lemma default_segments:
  "firstSegment (trim ''type=ref'') = [''type'' \<mapsto> ''ref'']"
  "firstSegment (trim ''type=semver'') = [''type'' \<mapsto> ''semver'']"
  "firstSegment (trim ''type=sha'') = [''type'' \<mapsto> ''sha'']"
  by (simp_all add: firstSegment_def trim_def js_ws_def startsWith_def)

lemma addSegments_one:
  assumes "CHR ''='' \<notin> set k" "k \<noteq> []" "trim k = k" "trim v = v" "k \<noteq> ''__proto__''"
  shows "addSegments m [k @ CHR ''='' # v] = Inr (m(k \<mapsto> v))"
  using assms by (simp add: index_of_append set_attr_def)

lemma default_attrs:
  "addSegments m [''event=tag''] = Inr (m(''event'' \<mapsto> ''tag''))"
  "addSegments m [''pattern='' @ braced ''version''] = Inr (m(''pattern'' \<mapsto> braced ''version''))"
  "addSegments m [''pattern='' @ braced ''major'' @ ''.'' @ braced ''minor''] =
     Inr (m(''pattern'' \<mapsto> braced ''major'' @ ''.'' @ braced ''minor''))"
  using addSegments_one [of "''event''" "''tag''" m] addSegments_one [of "''pattern''" "braced ''version''" m]
    addSegments_one [of "''pattern''" "braced ''major'' @ ''.'' @ braced ''minor''" m]
  by (simp_all add: trim_def js_ws_def)

lemma parseTagRules_default: "parseTagRules DEFAULT_TAGS = Inr default_rules"
proof -
  note eval = parseTagRule_def Let_def default_parts default_segments default_attrs
    SUPPORTED_TYPES_def UNSUPPORTED_TYPES_def
  have "mapE parseTagRule (map ru_line default_rules) = Inr default_rules"
    unfolding default_rules_def list.map rule.simps
    by (simp only: mapE.simps eval list.sel bindE.simps) simp
  then show ?thesis unfolding parseTagRules_def default_lines by (simp add: default_rules_def)
qed


lemma addTag_names:
  assumes "legal_tag n" "jm_inv m"
  shows "\<exists>m'. addTag n p l m = Inr m' \<and> jm_inv m' \<and> fst ` set m' = insert n (fst ` set m)"
proof -
  let ?new = "jm_set n \<lparr>bt_name = n, bt_priority = p, bt_isLatest = l\<rparr> m"
  have keys: "fst ` set ?new = insert n (fst ` set m)"
    using jm.set_keys_insert [OF assms(2), of n] by (auto simp: jm_keys_def)
  have "n \<in> fst ` set m" if "jm_get n m = Some e" for e
    using that jm_get_None [of n m] by auto
  moreover have "n \<noteq> []" using assms(1) by (simp add: legal_tag_def)
  ultimately show ?thesis using keys assms
    by (cases "jm_get n m") (auto simp: addTag_def Let_def sanitize_fix jm_inv_set insert_absorb)
qed

text \<open>Rules without affixes collect exactly the names they give.\<close>

lemma collectRules_names:
  assumes "\<And>r. r \<in> set rules \<Longrightarrow> ru_attrs r ''enable'' = None \<and> ru_attrs r ''prefix'' = None \<and>
      ru_attrs r ''suffix'' = None \<and> ruleTagName rx r ctx = Inr (nm r) \<and> (nm r = [] \<or> legal_tag (nm r))"
    and fl: "fl_prefix fl = []" "fl_suffix fl = []" and m: "jm_inv m"
  shows "\<exists>m' lf'. collectRules rx fl ctx rules m lf = Inr (m', lf') \<and> jm_inv m' \<and>
     fst ` set m' = fst ` set m \<union> (nm ` set rules - {[]}) \<and>
     (lf' = None \<longleftrightarrow> lf = None \<and> (\<forall>r \<in> set rules. nm r = [] \<or> \<not> latestCapable r \<or> x_isPrerelease ctx))"
  using assms(1) m
proof (induction rules arbitrary: m lf)
  case (Cons r rules)
  note r = Cons.prems(1) [of r, simplified]
  show ?case
  proof (cases "nm r = []")
    case True
    then have "collectRules rx fl ctx (r # rules) m lf = collectRules rx fl ctx rules m lf"
      using r by simp
    then show ?thesis using Cons.IH [of m lf] Cons.prems True by simp
  next
    case False
    let ?p = "if is_finite (rulePriority r) then rulePriority r else Num 0"
    let ?lf = "if latestCapable r \<and> \<not> x_isPrerelease ctx
      then Some (case lf of None \<Rightarrow> rulePriority r | Some l \<Rightarrow> js_max l (rulePriority r)) else lf"
    obtain m1 where m1: "addTag (nm r) ?p False m = Inr m1" "jm_inv m1" "fst ` set m1 = insert (nm r) (fst ` set m)"
      using addTag_names [of "nm r" m ?p False] r False Cons.prems(2) by auto
    have "collectRules rx fl ctx (r # rules) m lf = collectRules rx fl ctx rules m1 ?lf"
      using r False fl m1(1) by (simp add: Let_def)
    moreover obtain m' lf' where "collectRules rx fl ctx rules m1 ?lf = Inr (m', lf')" "jm_inv m'"
        "fst ` set m' = fst ` set m1 \<union> (nm ` set rules - {[]})"
        "lf' = None \<longleftrightarrow> ?lf = None \<and> (\<forall>r \<in> set rules. nm r = [] \<or> \<not> latestCapable r \<or> x_isPrerelease ctx)"
      using Cons.IH [OF Cons.prems(1) m1(2), of ?lf] by auto
    ultimately show ?thesis using m1(3) False
      by (intro exI [of _ m'] exI [of _ lf']) auto
  qed
qed simp

text \<open>The parts of a version.\<close>

lemma takeWhile_digits: "list_all is_digit a \<Longrightarrow> \<not> is_digit c \<Longrightarrow> takeWhile is_digit (a @ c # t) = a"
  by (induction a) auto

lemma dropWhile_digits: "list_all is_digit a \<Longrightarrow> \<not> is_digit c \<Longrightarrow> dropWhile is_digit (a @ c # t) = c # t"
  by (induction a) auto

lemma versionLike_shape:
  "a \<noteq> [] \<Longrightarrow> b \<noteq> [] \<Longrightarrow> c \<noteq> [] \<Longrightarrow> list_all is_digit (a @ b @ c) \<Longrightarrow>
   versionLike (a @ ''.'' @ b @ ''.'' @ c @ r)"
proof -
  assume ne: "a \<noteq> []" "b \<noteq> []" "c \<noteq> []" and d: "list_all is_digit (a @ b @ c)"
  have dot: "\<not> is_digit CHR ''.''" by (simp add: is_digit_def)
  have "takeWhile is_digit (c @ r) \<noteq> []" using ne(3) d by (cases c) auto
  then show ?thesis using ne d dot
    by (simp add: versionLike_def Let_def takeWhile_digits dropWhile_digits startsWith_def)
qed

lemma digits_no_char: "list_all is_digit a \<Longrightarrow> \<not> is_digit c \<Longrightarrow> c \<notin> set a"
  by (auto simp: list_all_iff)

lemma match_expr_other: "c \<noteq> lbrace \<Longrightarrow> match_expr (c # t) = None"
  by (simp add: match_expr_def startsWith_def)

lemma replace_expr_other: "c \<noteq> lbrace \<Longrightarrow> replace_expr f (c # t) = c # replace_expr f t"
  by (subst replace_expr.simps) (simp add: match_expr_other)

lemma replace_braced:
  "rbrace \<notin> set e \<Longrightarrow> f (trim e) = Some v \<Longrightarrow> replace_expr f (braced e @ t) = v @ replace_expr f t"
  using replace_expr_expr [of e f v t] by simp

lemma replace_expr_Nil [simp]: "replace_expr f [] = []"
  by (simp add: replace_expr.simps)

lemma braced_words: "trim ''version'' = ''version''" "trim ''major'' = ''major''" "trim ''minor'' = ''minor''"
  by code_simp+

lemma expandSemverPattern_version:
  "expandSemverPattern (Some (braced ''version'')) version raw p = version"
proof -
  have "has_version_expr (braced ''version'')" by code_simp
  moreover have "replace_expr (semver_value version raw) (braced ''version'' @ []) = version @ []"
    by (subst replace_braced [of "''version''" _ version]) (simp_all add: braced_words semver_value_def)
  ultimately show ?thesis by (simp add: expandSemverPattern_def)
qed

lemma expandSemverPattern_minor:
  assumes v: "version = a @ ''.'' @ b @ ''.'' @ c @ r" and d: "list_all is_digit (a @ b @ c)"
    and r: "r = []"
  shows "expandSemverPattern (Some (braced ''major'' @ ''.'' @ braced ''minor'')) version raw p =
    (if p then [] else a @ ''.'' @ b)"
proof -
  let ?text = "braced ''major'' @ ''.'' @ braced ''minor''"
  have no: "\<not> has_version_expr ?text" by code_simp
  have nd: "\<not> is_digit CHR ''.''" "\<not> is_digit CHR ''-''" by (simp_all add: is_digit_def)
  have "CHR ''-'' \<notin> set version" using d r v nd(2) by (auto simp: list_all_iff)
  moreover have "split_on CHR ''.'' (a @ ''.'' @ b @ ''.'' @ c) = [a, b, c]"
    using digits_no_char [of _ "CHR ''.''"] d nd(1) by (simp add: split_on_append split_on_id)
  ultimately have parts: "split_on CHR ''.'' (hd (split_on CHR ''-'' version)) = [a, b, c]"
    using v r by (simp add: split_on_id)
  have "replace_expr (semver_value version raw) (braced ''major'' @ (''.'' @ braced ''minor'')) =
      a @ replace_expr (semver_value version raw) (''.'' @ braced ''minor'' @ [])"
    by (subst replace_braced [of "''major''" _ a])
      (simp_all add: braced_words semver_value_def parts nth_opt_def)
  also have "replace_expr (semver_value version raw) (''.'' @ braced ''minor'' @ []) = ''.'' @ b"
    using replace_braced [of "''minor''" "semver_value version raw" b "[]"]
    by (simp add: replace_expr_other braced_words semver_value_def parts nth_opt_def)
  finally show ?thesis using no by (simp add: expandSemverPattern_def)
qed


lemma expandSemverPattern_prerelease:
  "pattern \<noteq> [] \<Longrightarrow> \<not> has_version_expr pattern \<Longrightarrow> expandSemverPattern (Some pattern) version raw True = []"
  by (simp add: expandSemverPattern_def)

definition plain_flavor :: flavor where
  "plain_flavor = \<lparr>fl_latest = ''auto'', fl_prefix = [], fl_suffix = [], fl_onlatest = False\<rparr>"

lemma parseFlavor_default: "parseFlavor DEFAULT_FLAVOR = Inr plain_flavor"
  by code_simp

text \<open>The names the four rules give on a tag push, and with them the whole base set.\<close>

definition default_name :: "tag_ctx \<Rightarrow> string \<Rightarrow> string \<Rightarrow> rule \<Rightarrow> string" where
  "default_name ctx version minor rule =
     (if ru_type rule = ''ref'' then x_tag ctx
      else if ru_type rule = ''sha'' then ''sha-'' @ take 7 (x_sha ctx)
      else if ru_attrs rule ''pattern'' = Some (braced ''version'') then version else minor)"

lemma default_rule_names:
  assumes t: "x_isTagEvent ctx" "x_tag ctx = version \<or> x_tag ctx = CHR ''v'' # version"
    and v: "version = a @ ''.'' @ b @ ''.'' @ c @ r" "list_all is_digit (a @ b @ c)"
      "a \<noteq> []" "b \<noteq> []" "c \<noteq> []" "r = [] \<or> hd r = CHR ''-''"
    and rule: "rule \<in> set default_rules"
  shows "ruleTagName rx rule ctx =
    Inr (default_name ctx version (if r = [] then a @ ''.'' @ b else []) rule)"
proof -
  have "\<not> is_digit CHR ''v''" by (simp add: is_digit_def)
  then have "hd version \<noteq> CHR ''v''" "version \<noteq> []" using v by (cases a; auto)+
  then have val: "x_tag ctx \<noteq> []"
      "(if startsWith (x_tag ctx) ''v'' then drop 1 (x_tag ctx) else x_tag ctx) = version"
    using t(2) startsWith_hd [of version "CHR ''v''" "[]"] startsWith_append [of "''v''" version] by auto
  have like: "versionLike version" using v versionLike_shape by blast
  have dash: "CHR ''-'' \<in> set version \<longleftrightarrow> r \<noteq> []"
    using v digits_no_char [OF v(2), of "CHR ''-''"] by (cases r) (auto simp: is_digit_def)
  have minor: "expandSemverPattern (Some (braced ''major'' @ ''.'' @ braced ''minor'')) version (x_tag ctx) (r \<noteq> [])
      = (if r = [] then a @ ''.'' @ b else [])"
  proof (cases "r = []")
    case True
    then show ?thesis using expandSemverPattern_minor [OF v(1,2) True, of _ False] by simp
  next
    case False
    have "\<not> has_version_expr (braced ''major'' @ ''.'' @ braced ''minor'')" by code_simp
    then show ?thesis using False expandSemverPattern_prerelease by simp
  qed
  have sem: "semverTagName rx attrs ctx = Inr (expandSemverPattern (attrs ''pattern'') version (x_tag ctx) (r \<noteq> []))"
    if "attrs ''value'' = None" "attrs ''match'' = None" for attrs
    using that val like dash by (simp add: semverTagName_def valueOrTag_def)
  have "ruleTagName rx \<lparr>ru_type = ''ref'', ru_attrs = [''type'' \<mapsto> ''ref'', ''event'' \<mapsto> ''tag''], ru_line = l\<rparr> ctx
      = Inr (x_tag ctx)" for l
    by (simp add: ruleTagName_def refTagName_def t(1))
  moreover have "ruleTagName rx \<lparr>ru_type = ''sha'', ru_attrs = [''type'' \<mapsto> ''sha''], ru_line = l\<rparr> ctx
      = Inr (''sha-'' @ take 7 (x_sha ctx))" for l
    by (simp add: ruleTagName_def shaTagName_def)
  moreover have "ruleTagName rx \<lparr>ru_type = ''semver'', ru_attrs = [''type'' \<mapsto> ''semver'', ''pattern'' \<mapsto> p], ru_line = l\<rparr> ctx
      = Inr (expandSemverPattern (Some p) version (x_tag ctx) (r \<noteq> []))" for p l
    by (simp add: ruleTagName_def sem)
  moreover have "braced ''version'' \<noteq> braced ''major'' @ ''.'' @ braced ''minor''" by simp
  ultimately show ?thesis using rule minor expandSemverPattern_version
    unfolding default_rules_def set_simps insert_iff empty_iff default_name_def
    by (elim disjE FalseE) simp_all
qed

definition base_names :: "base_tag list \<Rightarrow> string set" where
  "base_names tags = set (map bt_name tags)"

lemma generateTags_default:
  assumes t: "x_isTagEvent ctx" "x_tag ctx = version \<or> x_tag ctx = CHR ''v'' # version"
    and v: "version = a @ ''.'' @ b @ ''.'' @ c @ r" "list_all is_digit (a @ b @ c)"
      "a \<noteq> []" "b \<noteq> []" "c \<noteq> []" "r = [] \<or> hd r = CHR ''-''"
    and pre: "x_isPrerelease ctx \<longleftrightarrow> r \<noteq> []"
    and legal: "legal_tag (x_tag ctx)" "legal_tag (''sha-'' @ take 7 (x_sha ctx))"
  shows "\<exists>tags. generateTags rx lc default_rules plain_flavor ctx = Inr tags \<and>
    base_names tags = {x_tag ctx, version, ''sha-'' @ take 7 (x_sha ctx)} \<union>
      (if r = [] then {a @ ''.'' @ b, ''latest''} else {})"
proof -
  let ?minor = "if r = [] then a @ ''.'' @ b else []"
  let ?nm = "default_name ctx version ?minor"
  have dig: "list_all tag_char a" "list_all tag_char b" "\<not> tag_strip (hd a)"
    using v(2,3) by (cases a; auto simp: list_all_iff digit_facts)+
  have "legal_tag version"
    using legal(1) t(2) v dig by (auto simp: legal_tag_def)
  moreover have "legal_tag ?minor \<or> ?minor = []"
    using calculation v(1,3) dig by (auto simp: legal_tag_def tag_char_def)
  ultimately have nm_legal: "?nm rule = [] \<or> legal_tag (?nm rule)" for rule
    using legal unfolding default_name_def by presburger
  have attrs: "ru_attrs rule ''enable'' = None \<and> ru_attrs rule ''prefix'' = None \<and>
      ru_attrs rule ''suffix'' = None" if "rule \<in> set default_rules" for rule
    using that unfolding default_rules_def by fastforce
  have names: "ru_attrs rule ''enable'' = None \<and> ru_attrs rule ''prefix'' = None \<and>
      ru_attrs rule ''suffix'' = None \<and> ruleTagName rx rule ctx = Inr (?nm rule) \<and>
      (?nm rule = [] \<or> legal_tag (?nm rule))" if "rule \<in> set default_rules" for rule
    using default_rule_names [OF t v that] nm_legal [of rule] attrs [OF that] by blast
  have nm: "?nm ` set default_rules = {x_tag ctx, version, ?minor, ''sha-'' @ take 7 (x_sha ctx)}"
    by (auto simp: default_rules_def default_name_def)
  have cap: "(\<forall>rule \<in> set default_rules. ?nm rule = [] \<or> \<not> latestCapable rule \<or> x_isPrerelease ctx) \<longleftrightarrow> r \<noteq> []"
    using pre v(1,3) by (auto simp: default_rules_def default_name_def latestCapable_def)
  have ne: "x_tag ctx \<noteq> []" "version \<noteq> []" using legal(1) v(1,3) by (auto simp: legal_tag_def)
  have minus: "?nm ` set default_rules - {[]} =
      {x_tag ctx, version, ''sha-'' @ take 7 (x_sha ctx)} \<union> (if r = [] then {a @ ''.'' @ b} else {})"
    unfolding nm using ne by (cases "r = []") (simp_all add: insert_Diff_if, blast)
  obtain m lf where col: "collectRules rx plain_flavor ctx default_rules [] None = Inr (m, lf)"
      and m: "jm_inv m" "fst ` set m = ?nm ` set default_rules - {[]}" and lf: "lf = None \<longleftrightarrow> r \<noteq> []"
  proof -
    have "jm_inv ([] :: collected)" "fl_prefix plain_flavor = []" "fl_suffix plain_flavor = []"
      by (simp_all add: jm_inv_def plain_flavor_def)
    from collectRules_names [where nm = ?nm and lf = None, OF names this(2,3,1)]
    obtain m lf where "collectRules rx plain_flavor ctx default_rules [] None = Inr (m, lf)" "jm_inv m"
      "fst ` set m = fst ` set ([] :: collected) \<union> (?nm ` set default_rules - {[]})"
      "lf = None \<longleftrightarrow> (None :: jsnum option) = None \<and>
        (\<forall>rule \<in> set default_rules. ?nm rule = [] \<or> \<not> latestCapable rule \<or> x_isPrerelease ctx)"
      by metis
    with cap show ?thesis using that by simp
  qed
  have ok: "collected_ok m" using collectRules_ok [OF col] by (simp add: collected_ok_def jm_inv_def)
  have keys: "base_names (sort_by (tag_before lc) (jm_values m')) = fst ` set m'" if "collected_ok m'" for m'
    using that unfolding base_names_def set_map set_sort_by jm_values_def collected_ok_def
    by (force simp: image_iff)
  show ?thesis
  proof (cases "r = []")
    case True
    then obtain l where l: "lf = Some l" using lf by auto
    have "legal_tag ''latest''" by code_simp
    then obtain m' where m': "addTag ''latest'' l True m = Inr m'" "fst ` set m' = insert ''latest'' (fst ` set m)"
      using addTag_names [OF _ m(1), of "''latest''" l True] by blast
    have "generateTags rx lc default_rules plain_flavor ctx = Inr (sort_by (tag_before lc) (jm_values m'))"
      using m'(1) unfolding generateTags_def col l by (simp add: plain_flavor_def)
    moreover have "base_names (sort_by (tag_before lc) (jm_values m')) =
        insert ''latest'' ({x_tag ctx, version, ''sha-'' @ take 7 (x_sha ctx)} \<union> {a @ ''.'' @ b})"
      unfolding keys [OF addTag_ok [OF m'(1) ok]] m'(2) m(2) minus using True by simp
    ultimately show ?thesis using True by (simp add: insert_commute)
  next
    case False
    then have "lf = None" using lf by blast
    then have "generateTags rx lc default_rules plain_flavor ctx = Inr (sort_by (tag_before lc) (jm_values m))"
      unfolding generateTags_def col by simp
    moreover have "base_names (sort_by (tag_before lc) (jm_values m)) =
        {x_tag ctx, version, ''sha-'' @ take 7 (x_sha ctx)}"
      unfolding keys [OF ok] m(2) minus using False by simp
    ultimately show ?thesis using False by simp
  qed
qed


section \<open>The plan\<close>

lemma variantTagNames_ok:
  assumes "variantTagNames tags v floating = Inr names"
  shows "distinct names" and "list_all legal_tag names"
  using assms tags.mapE_san_legal
  by (auto simp: variantTagNames_def Let_def list_all_iff)

definition build_ok :: "image list \<Rightarrow> variant \<Rightarrow> build \<Rightarrow> bool" where
  "build_ok imgs v b \<longleftrightarrow> b_variant b = v_name v \<and> b_dockerfile b = v_dockerfile v \<and>
     b_target b = v_target v \<and> b_suffix b = v_suffix v \<and> b_isDefault b = v_isDefault v \<and>
     b_buildArgs b = v_buildArgs v \<and> b_platforms b = v_platforms v \<and>
     distinct (b_tagNames b) \<and> list_all legal_tag (b_tagNames b) \<and>
     map ti_base (b_images b) = map img_base imgs \<and>
     (\<forall>i \<in> set (b_images b). ti_tags i = map (\<lambda>name. ti_base i @ '':'' @ name) (b_tagNames b))"

lemma planVariant_ok: "planVariant state tags labels v = Inr b \<Longrightarrow> build_ok (st_images state) v b"
  by (auto simp: planVariant_def build_ok_def dest: variantTagNames_ok)

lemma planBuilds_ok:
  "planBuilds rx lc state rules fl labels now = Inr bs \<Longrightarrow>
   list_all2 (build_ok (st_images state)) (st_variants state) bs"
  by (auto simp: planBuilds_def mapE_Inr_iff split: if_splits
      elim!: list_all2_mono dest: planVariant_ok)

lemma planBuilds_names:
  "planBuilds rx lc state rules fl labels now = Inr bs \<Longrightarrow> map b_variant bs = map v_name (st_variants state)"
  by (drule planBuilds_ok) (auto simp: list_all2_conv_all_nth build_ok_def intro: nth_equalityI)

lemma computeBuilds_Inr:
  "computeBuilds rx lc state tagsRaw flavorRaw labelsRaw now = Inr bs \<Longrightarrow>
   \<exists>rules fl labels. parseTagRules (orDefault tagsRaw DEFAULT_TAGS) = Inr rules \<and>
     parseFlavor (orDefault flavorRaw DEFAULT_FLAVOR) = Inr fl \<and>
     planBuilds rx lc state rules fl labels now = Inr bs \<and> findDuplicateTags bs = []"
  by (auto simp: computeBuilds_def split: if_splits)


section \<open>Properties\<close>

text \<open>C4: No variant overwrites another: when the tags of a release are accepted, two builds
  that share a tag are builds of the same variant.\<close>

theorem computeBuilds_no_overwrite:
  assumes "computeBuilds rx lc state tagsRaw flavorRaw labelsRaw now = Inr bs"
    and "b \<in> set bs" "b' \<in> set bs" "t \<in> set (b_tagNames b)" "t \<in> set (b_tagNames b')"
  shows "b_variant b = b_variant b'"
proof -
  have "single_owner bs" using computeBuilds_Inr [OF assms(1)] findDuplicateTags_single_owner by blast
  then show ?thesis using assms(2-5) by (auto simp: single_owner_def)
qed

text \<open>The default rules on the sample release.\<close>

definition no_regex :: regex where
  "no_regex pattern text = RxInvalid"

definition code_order :: "string \<Rightarrow> string \<Rightarrow> int" where
  "code_order a b = 0"

definition sample_builds :: "build list" where
  "sample_builds =
     (let labels = buildLabels sample_state [] ''now'';
          b = (\<lambda>v names. \<lparr>b_variant = v_name v, b_suffix = v_suffix v, b_dockerfile = v_dockerfile v, b_target = v_target v,
            b_isDefault = v_isDefault v, b_buildArgs = v_buildArgs v, b_platforms = v_platforms v, b_tagNames = names,
            b_labels = labels, b_images = [\<lparr>ti_base = ''ghcr.io/own/app'', ti_registryId = Ghcr,
              ti_tags = map (\<lambda>n. ''ghcr.io/own/app:'' @ n) names\<rparr>]\<rparr>);
          suffixed = (\<lambda>s. [''1.2.3'' @ s, ''1.2'' @ s, ''sha-0123456'' @ s]) in
      [b (default_table ! 0) (suffixed ''-alpine'' @ [''alpine'']),
       b (default_table ! 1) ([''1.2.3'', ''1.2'', ''latest'', ''sha-0123456''] @ suffixed ''-trixie-slim'' @ [''trixie-slim''])])"

lemma sample_plan: "computeBuilds no_regex code_order sample_state None None None ''now'' = Inr sample_builds"
  by code_simp

theorem computeBuilds_no_overwrite_witness:
  "list_all (\<lambda>b. list_all (\<lambda>b'. b_variant b = b_variant b')
       (filter (\<lambda>b'. ''latest'' \<in> set (b_tagNames b')) sample_builds))
     (filter (\<lambda>b. ''latest'' \<in> set (b_tagNames b)) sample_builds)"
  using computeBuilds_no_overwrite [OF sample_plan] unfolding list_all_iff set_filter by blast

text \<open>C35: The plan has one build per variant, in table order, with that variant's Dockerfile,
  target, arguments and platforms; its tag names are distinct legal tags, and every image gets
  exactly these tags.\<close>

theorem computeBuilds_plan:
  assumes "computeBuilds rx lc state tagsRaw flavorRaw labelsRaw now = Inr bs"
  shows "list_all2 (build_ok (st_images state)) (st_variants state) bs"
  using computeBuilds_Inr [OF assms] planBuilds_ok by blast

theorem computeBuilds_plan_witness: "list_all2 (build_ok (st_images sample_state)) default_table sample_builds"
  using computeBuilds_plan [OF sample_plan] by (simp add: sample_state_def)

text \<open>C34: On a push of a version tag the default rules give the tag itself, the version without
  its \<open>v\<close>, and the short commit; a version that is no prerelease also gets \<open>major.minor\<close> and
  \<open>latest\<close>, a prerelease gets neither.\<close>

theorem default_tags_of_release:
  assumes "x_isTagEvent ctx" "x_tag ctx = version \<or> x_tag ctx = CHR ''v'' # version"
    and "version = a @ ''.'' @ b @ ''.'' @ c @ r" "list_all is_digit (a @ b @ c)"
      "a \<noteq> []" "b \<noteq> []" "c \<noteq> []" "r = [] \<or> hd r = CHR ''-''"
    and "x_isPrerelease ctx \<longleftrightarrow> r \<noteq> []"
    and "legal_tag (x_tag ctx)" "legal_tag (''sha-'' @ take 7 (x_sha ctx))"
  shows "\<exists>rules fl tags. parseTagRules DEFAULT_TAGS = Inr rules \<and> parseFlavor DEFAULT_FLAVOR = Inr fl \<and>
    generateTags rx lc rules fl ctx = Inr tags \<and>
    base_names tags = {x_tag ctx, version, ''sha-'' @ take 7 (x_sha ctx)} \<union>
      (if r = [] then {a @ ''.'' @ b, ''latest''} else {})"
  using generateTags_default [OF assms] parseTagRules_default parseFlavor_default by blast

theorem default_tags_of_release_witness:
  "\<exists>tags. generateTags no_regex code_order default_rules plain_flavor
      ((tagCtx sample_state)\<lparr>x_tag := ''v2.0.0-rc.1'', x_isPrerelease := True\<rparr>) = Inr tags \<and>
    base_names tags = {''v2.0.0-rc.1'', ''2.0.0-rc.1'', ''sha-0123456''}"
proof -
  let ?ctx = "(tagCtx sample_state)\<lparr>x_tag := ''v2.0.0-rc.1'', x_isPrerelease := True\<rparr>"
  let ?sha = "''sha-'' @ take 7 (x_sha ?ctx)"
  have "\<exists>rules fl tags. parseTagRules DEFAULT_TAGS = Inr rules \<and> parseFlavor DEFAULT_FLAVOR = Inr fl \<and>
    generateTags no_regex code_order rules fl ?ctx = Inr tags \<and>
    base_names tags = {x_tag ?ctx, ''2.0.0-rc.1'', ?sha} \<union>
      (if ''-rc.1'' = [] then {''2'' @ ''.'' @ ''0'', ''latest''} else {})"
    by (rule default_tags_of_release [where c = "''0''"]) code_simp+
  moreover have "?sha = ''sha-0123456''" "x_tag ?ctx = ''v2.0.0-rc.1''" by code_simp+
  ultimately show ?thesis by (simp add: parseTagRules_default parseFlavor_default)
qed

text \<open>A prerelease never owns \<open>latest\<close>, whatever the rules and the flavor: no tag of its
  base set is marked as the latest one.\<close>

theorem prerelease_never_latest:
  assumes "generateTags rx lc rules fl (tagCtx state) = Inr tags" and "st_prerelease state"
  shows "\<forall>t \<in> set tags. \<not> bt_isLatest t"
  using generateTags_ok(3) [OF assms(1)] assms(2) by (simp add: tagCtx_def)

theorem prerelease_never_latest_witness:
  "\<exists>tags. generateTags no_regex code_order default_rules plain_flavor
      (tagCtx (sample_state\<lparr>st_tag := ''2.0.0-rc.1'', st_prerelease := True\<rparr>)) = Inr tags \<and> tags \<noteq> [] \<and>
    (\<forall>t \<in> set tags. \<not> bt_isLatest t)"
proof -
  let ?state = "sample_state\<lparr>st_tag := ''2.0.0-rc.1'', st_prerelease := True\<rparr>"
  let ?tags = "generateTags no_regex code_order default_rules plain_flavor (tagCtx ?state)"
  have "map_sum id length ?tags = Inr 2" by code_simp
  then obtain tags where tags: "?tags = Inr tags" "length tags = 2" by (cases ?tags) auto
  then show ?thesis using prerelease_never_latest [OF tags(1)] by auto
qed

end
