(* ===== verification/Build_Push.thy ===== *)
theory Build_Push
  imports Release_State Endpoints
begin

text \<open>
  \<open>build-push.mjs\<close>: one \<open>docker buildx build\<close> per variant, pushed to its staging tag.
  The commands, the reuse of staged variants, the temporary builder and the loop that
  records its results in the state file after every variant.
\<close>

section \<open>Command lines\<close>

definition labelArgs :: "(string \<times> string) list \<Rightarrow> string list" where
  "labelArgs labels = concat (map (\<lambda>(key, value). [''--label'', key @ ''='' @ value]) (jo_entries labels))"

definition PROXY_BUILD_ARGS :: "string list" where
  "PROXY_BUILD_ARGS = [''HTTP_PROXY'', ''HTTPS_PROXY'', ''NO_PROXY'', ''ALL_PROXY'']"

definition proxiesFrom :: "env \<Rightarrow> (string \<times> string) list" where
  "proxiesFrom env =
     filter (\<lambda>(_, value). value \<noteq> []) (map (\<lambda>key. (key, readOptional (env key))) PROXY_BUILD_ARGS)"

definition buildxCreateArgv :: "string \<Rightarrow> string option \<Rightarrow> env \<Rightarrow> string list" where
  "buildxCreateArgv name img env =
     [''buildx'', ''create'', ''--use'', ''--name'', name, ''--driver'', ''docker-container''] @
     (if readOptional img \<noteq> [] then [''--driver-opt'', ''image='' @ readOptional img] else []) @
     concat (map (\<lambda>(key, value). [''--driver-opt'', ''env.'' @ key @ ''='' @ value]) (proxiesFrom env))"

definition buildxRemoveArgv :: "string \<Rightarrow> string list" where
  "buildxRemoveArgv name = [''buildx'', ''rm'', name]"

definition effectiveBuildArgs ::
    "(string \<times> string) list \<Rightarrow> (string \<times> string) list \<Rightarrow> env \<Rightarrow> (string, string) jmap" where
  "effectiveBuildArgs variantArgs globalArgs env =
     (let merged = fold (\<lambda>(k, v). jm_set k v) variantArgs [];
          merged = fold (\<lambda>(k, v) m. if jm_get k m = None then jm_set k v m else m) (proxiesFrom env) merged
      in fold (\<lambda>(k, v). jm_set k v) globalArgs merged)"

definition buildPlatforms :: "build \<Rightarrow> build_options \<Rightarrow> string list" where
  "buildPlatforms build options = platformsFor (b_platforms build) (o_platforms options)"

definition buildxArgv ::
    "build \<Rightarrow> build_options \<Rightarrow> string \<Rightarrow> string \<Rightarrow> tagged_image list option \<Rightarrow> env \<Rightarrow> string list" where
  "buildxArgv build options metadataFile builder images env =
     (let platforms = buildPlatforms build options in
      [''buildx'', ''build''] @
      (if builder \<noteq> [] then [''--builder'', builder] else []) @
      [''--file'', b_dockerfile build] @
      (if b_target build \<noteq> [] then [''--target'', b_target build] else []) @
      concat (map (\<lambda>image. concat (map (\<lambda>tag. [''--tag'', tag]) (ti_tags image)))
        (case images of Some is \<Rightarrow> is | None \<Rightarrow> b_images build)) @
      labelArgs (b_labels build) @
      (if platforms \<noteq> [] then [''--platform'', join '','' platforms] else []) @
      concat (map (\<lambda>(key, value). [''--build-arg'', key @ ''='' @ value])
        (effectiveBuildArgs (b_buildArgs build) (o_buildArgs options) env)) @
      [''--provenance=false''] @
      (if metadataFile \<noteq> [] then [''--metadata-file'', metadataFile] else []) @
      (if o_push options then [''--push''] else [''--output'', ''type=cacheonly'']) @
      [o_context options])"

section \<open>Running docker\<close>

text \<open>What the file written by \<open>--metadata-file\<close> holds: the \<open>containerimage.digest\<close> member
  of its JSON, when the file is there and well formed.\<close>

datatype metadata = NoMetadata | BadMetadata | Metadata "string option"

text \<open>The outside, as the steps use it.\<close>

record 'w host =
  h_run :: "'w runner"
  h_exists :: "'w file_test"
  h_metadata :: "'w \<Rightarrow> string \<Rightarrow> metadata"

definition digestFromMetadata :: "string option \<Rightarrow> string" where
  "digestFromMetadata digest = trim (str_or_empty digest)"

definition readDigest :: "'w host \<Rightarrow> string \<Rightarrow> 'w sys \<Rightarrow> string" where
  "readDigest h file s =
     (case h_metadata h (world s) file of Metadata d \<Rightarrow> digestFromMetadata d | _ \<Rightarrow> [])"

definition runDocker :: "'w host \<Rightarrow> string list \<Rightarrow> 'w sys \<Rightarrow> int \<times> 'w sys" where
  "runDocker h args s = (let (p, s') = run_cmd (h_run h) (command ''docker'' args) s in (exit_status p, s'))"

definition refExists :: "'w host \<Rightarrow> string \<Rightarrow> 'w sys \<Rightarrow> bool \<times> 'w sys" where
  "refExists h ref s =
     (let (status, s') = runDocker h [''buildx'', ''imagetools'', ''inspect'', ref] s in (status = 0, s'))"

text \<open>\<open>refs.every(...)\<close> stops at the first missing reference.\<close>

fun everyRef :: "'w host \<Rightarrow> string list \<Rightarrow> 'w sys \<Rightarrow> bool \<times> 'w sys" where
  "everyRef h [] s = (True, s)"
| "everyRef h (ref # refs) s =
     (let (found, s') = refExists h ref s in if found then everyRef h refs s' else (False, s'))"

definition stagingComplete :: "'w host \<Rightarrow> staging_ref list \<Rightarrow> 'w sys \<Rightarrow> bool \<times> 'w sys" where
  "stagingComplete h refs s = (if refs = [] then (False, s) else everyRef h (map sr_ref refs) s)"

text \<open>The staging references as the images \<open>buildxArgv\<close> attaches.\<close>

definition stagingImages :: "staging_ref list \<Rightarrow> tagged_image list" where
  "stagingImages refs =
     map (\<lambda>e. \<lparr>ti_base = sr_base e, ti_registryId = sr_registryId e, ti_tags = [sr_ref e]\<rparr>) refs"

definition buildResult ::
    "build \<Rightarrow> build_options \<Rightarrow> staging_ref list \<Rightarrow> string \<Rightarrow> bool \<Rightarrow> run_result" where
  "buildResult build options staging digest skipped =
     \<lparr>r_variant = b_variant build, r_builder = Buildx, r_digest = digest,
      r_platforms = buildPlatforms build options, r_staging = map sr_ref staging, r_published = [],
      r_tagNames = b_tagNames build,
      r_images = map (\<lambda>i. (ti_base i, ti_tags i)) (b_images build), r_skipped = skipped\<rparr>"

definition metadataPath :: "string \<Rightarrow> string \<Rightarrow> string" where
  "metadataPath workDir name = workDir @ ''/'' @ name @ ''.json''"

definition buildOneVariant ::
    "'w host \<Rightarrow> env \<Rightarrow> string \<Rightarrow> string \<Rightarrow> build_options \<Rightarrow> build \<Rightarrow> staging_ref list \<Rightarrow> 'w sys \<Rightarrow>
     run_result result \<times> 'w sys" where
  "buildOneVariant h env workDir builder options build staging s =
     (let file = metadataPath workDir (''metadata-'' @ b_variant build);
          (status, s') = runDocker h
            (buildxArgv build options file builder (Some (stagingImages staging)) env) s
      in if status \<noteq> 0 then (Inl (ErrBuildFailed (b_variant build) status), s')
         else (Inr (buildResult build options staging (readDigest h file s') False), s'))"

section \<open>The step\<close>

definition stepOptions :: "release_state \<Rightarrow> build_options" where
  "stepOptions state = (if st_dryRun state then (st_options state)\<lparr>o_push := False\<rparr> else st_options state)"

definition buildStaging :: "release_state \<Rightarrow> build \<Rightarrow> staging_ref list result" where
  "buildStaging state build =
     stagingRefsFor (b_variant build) (b_images build) (st_version state) (st_shortSha state)"

text \<open>One turn of the loop: reuse the staged variant, or build it.\<close>

definition buildTurn ::
    "'w host \<Rightarrow> env \<Rightarrow> string \<Rightarrow> string \<Rightarrow> bool \<Rightarrow> release_state \<Rightarrow> build \<Rightarrow> 'w sys \<Rightarrow>
     run_result result \<times> 'w sys" where
  "buildTurn h env workDir builder force state build s =
     (let options = stepOptions state in
      case buildStaging state build of
        Inl e \<Rightarrow> (Inl e, s)
      | Inr staging \<Rightarrow>
          (let (complete, s1) = (if o_push options \<and> \<not> force then stagingComplete h staging s
                                 else (False, s)) in
           if complete then (Inr (buildResult build options staging [] True), s1)
           else buildOneVariant h env workDir builder options build staging s1))"

text \<open>The loop.  \<open>results\<close> is \<open>state.results\<close>; \<open>disk\<close> is the state file, rewritten after
  every variant that is done.\<close>

fun buildLoop ::
    "'w host \<Rightarrow> env \<Rightarrow> string \<Rightarrow> string \<Rightarrow> bool \<Rightarrow> release_state \<Rightarrow> build list \<Rightarrow> run_result list \<Rightarrow>
     release_state \<Rightarrow> 'w sys \<Rightarrow> unit result \<times> release_state \<times> 'w sys" where
  "buildLoop h env workDir builder force state [] results disk s = (Inr (), disk, s)"
| "buildLoop h env workDir builder force state (build # builds) results disk s =
     (case buildTurn h env workDir builder force state build s of
        (Inl e, s1) \<Rightarrow> (Inl e, disk, s1)
      | (Inr r, s1) \<Rightarrow>
          buildLoop h env workDir builder force state builds (results @ [r])
            (state\<lparr>st_results := results @ [r]\<rparr>) s1)"

text \<open>The \<open>try\<close>/\<open>finally\<close> of \<open>main\<close>: a builder that was created is removed on every way out.\<close>

definition withBuilder ::
    "'w host \<Rightarrow> env \<Rightarrow> string \<Rightarrow> release_state \<Rightarrow>
     ('w sys \<Rightarrow> unit result \<times> release_state \<times> 'w sys) \<Rightarrow> 'w sys \<Rightarrow>
     unit result \<times> release_state \<times> 'w sys" where
  "withBuilder h env builder state body s =
     (if builder = [] then body s
      else
        let (status, s1) = runDocker h (buildxCreateArgv builder (env ''DOCKER_BUILDKIT_IMAGE'') env) s in
        if status \<noteq> 0 then (Inl (ErrBuilderCreate builder), state, s1)
        else
          let (r, disk, s2) = body s1; (_, s3) = runDocker h (buildxRemoveArgv builder) s2
          in (r, disk, s3))"

text \<open>\<open>main\<close>; \<open>pid\<close> is the process id, \<open>workDir\<close> the fresh temporary directory.\<close>

definition build_main ::
    "'w host \<Rightarrow> env \<Rightarrow> string \<Rightarrow> string \<Rightarrow> release_state \<Rightarrow> 'w sys \<Rightarrow>
     unit result \<times> release_state \<times> 'w sys" where
  "build_main h env pid workDir state s =
     (if st_builds state = [] then (Inl ErrNoBuildPlan, state, s)
      else let (docker, s1) = probeDocker env (h_run h) (h_exists h) s in
        if \<not> d_cli docker \<or> \<not> d_daemon docker \<or> \<not> d_buildx docker
        then (Inl ErrDockerUnavailable, state, s1)
        else
          let needsBuilder = list_ex (\<lambda>b. 1 < length (buildPlatforms b (st_options state))) (st_builds state);
              builder = (if needsBuilder then ''forgejo-docker-publish-'' @ pid else []);
              force = isTruthy (env ''DOCKER_FORCE_BUILD'')
          in withBuilder h env builder state
               (buildLoop h env workDir builder force state (st_builds state) [] state) s1)"

section \<open>Build arguments\<close>

text \<open>An explicit \<open>DOCKER_BUILD_ARGS\<close> entry beats the variant table, which beats the proxies.\<close>

lemma effectiveBuildArgs_get:
  "jm_get k (effectiveBuildArgs variantArgs globalArgs env) =
     (case map_of (rev globalArgs) k of Some v \<Rightarrow> Some v | None \<Rightarrow>
     (case map_of (rev variantArgs) k of Some v \<Rightarrow> Some v | None \<Rightarrow> map_of (proxiesFrom env) k))"
  unfolding effectiveBuildArgs_def Let_def
  by (subst jm.get_fold_insert, intro jm.inv_fold_insert_new jm.inv_fold_insert jm.inv_empty,
      subst jm.get_fold_insert_new, intro jm.inv_fold_insert jm.inv_empty,
      subst jm.get_fold_insert, rule jm.inv_empty)
    (simp split: option.splits)

lemma effectiveBuildArgs_inv: "jm_inv (effectiveBuildArgs variantArgs globalArgs env)"
  unfolding effectiveBuildArgs_def Let_def
  by (intro jm.inv_fold_insert_new jm.inv_fold_insert jm.inv_empty)

section \<open>Reading a command line\<close>

text \<open>The flags of \<open>docker buildx build\<close> that take a value, and the values given to one.\<close>

definition valued_flags :: "string list" where
  "valued_flags = [''--builder'', ''--file'', ''--target'', ''--tag'', ''--label'', ''--platform'',
     ''--build-arg'', ''--metadata-file'', ''--output'']"

fun flag_values :: "string \<Rightarrow> string list \<Rightarrow> string list" where
  "flag_values flag (x # y # args) =
     (if x \<in> set valued_flags then (if x = flag then [y] else []) @ flag_values flag args
      else flag_values flag (y # args))"
| "flag_values flag args = []"

text \<open>The flags and positional arguments without a value.\<close>

fun plain_args :: "string list \<Rightarrow> string list" where
  "plain_args (x # y # args) =
     (if x \<in> set valued_flags then plain_args args else x # plain_args (y # args))"
| "plain_args args = args"

definition flat_pairs :: "(string \<times> string) list \<Rightarrow> string list" where
  "flat_pairs ps = concat (map (\<lambda>(x, y). [x, y]) ps)"

lemma flat_pairs_simps [simp]:
  "flat_pairs [] = []" "flat_pairs ((x, y) # ps) = x # y # flat_pairs ps"
  "flat_pairs (ps @ qs) = flat_pairs ps @ flat_pairs qs"
  by (simp_all add: flat_pairs_def)

lemma flat_pairs_map: "concat (map (\<lambda>a. [x, g a]) as) = flat_pairs (map (\<lambda>a. (x, g a)) as)"
  by (induction as) simp_all

lemma flag_values_pairs:
  "fst ` set ps \<subseteq> set valued_flags \<Longrightarrow>
   flag_values f (flat_pairs ps @ args) = map snd (filter (\<lambda>p. fst p = f) ps) @ flag_values f args"
  "fst ` set ps \<subseteq> set valued_flags \<Longrightarrow> plain_args (flat_pairs ps @ args) = plain_args args"
  by (induction ps) auto

text \<open>The flags of a build command, as pairs.\<close>

definition argv_pairs ::
    "build \<Rightarrow> build_options \<Rightarrow> string \<Rightarrow> tagged_image list \<Rightarrow> env \<Rightarrow> (string \<times> string) list" where
  "argv_pairs build options builder images env =
     (if builder \<noteq> [] then [(''--builder'', builder)] else []) @
     [(''--file'', b_dockerfile build)] @
     (if b_target build \<noteq> [] then [(''--target'', b_target build)] else []) @
     map (\<lambda>tag. (''--tag'', tag)) (concat (map ti_tags images)) @
     map (\<lambda>a. (''--label'', fst a @ ''='' @ snd a)) (jo_entries (b_labels build)) @
     (if buildPlatforms build options \<noteq> [] then [(''--platform'', join '','' (buildPlatforms build options))] else []) @
     map (\<lambda>a. (''--build-arg'', fst a @ ''='' @ snd a))
       (effectiveBuildArgs (b_buildArgs build) (o_buildArgs options) env)"

lemma concat_tags:
  "concat (map (\<lambda>image. concat (map (\<lambda>tag. [x, tag]) (ti_tags image))) images) =
   flat_pairs (map (\<lambda>tag. (x, tag)) (concat (map ti_tags images)))"
  by (induction images) (simp_all add: flat_pairs_map)

lemma concat_kv:
  "concat (map (\<lambda>(k, v). [x, k @ ''='' @ v]) xs) = flat_pairs (map (\<lambda>a. (x, fst a @ ''='' @ snd a)) xs)"
  by (induction xs) auto

lemma buildxArgv_pairs:
  "buildxArgv build options file builder (Some images) env =
   [''buildx'', ''build''] @ flat_pairs (argv_pairs build options builder images env) @
   [''--provenance=false''] @ flat_pairs (if file \<noteq> [] then [(''--metadata-file'', file)] else []) @
   (if o_push options then [''--push''] else flat_pairs [(''--output'', ''type=cacheonly'')]) @
   [o_context options]"
  by (simp add: buildxArgv_def argv_pairs_def Let_def concat_tags [simplified] labelArgs_def concat_kv [simplified]
      del: map_concat)

lemma argv_pairs_valued: "fst ` set (argv_pairs build options builder images env) \<subseteq> set valued_flags"
  by (auto simp: argv_pairs_def valued_flags_def)

lemma argv_pairs_tags:
  "map snd (filter (\<lambda>p. fst p = ''--tag'') (argv_pairs build options builder images env)) = concat (map ti_tags images)"
  by (simp add: argv_pairs_def filter_map comp_def)

lemma argv_pairs_no_output:
  "filter (\<lambda>p. fst p = ''--output'') (argv_pairs build options builder images env) = []"
  by (simp add: argv_pairs_def filter_map comp_def)

text \<open>The tags of a build command, and its output: a push or a discarded result, never both.\<close>

lemma buildxArgv_reads:
  assumes "args = drop 2 (buildxArgv build options file builder (Some images) env)"
  shows "flag_values ''--tag'' args = concat (map ti_tags images)"
    and "flag_values ''--output'' args = (if o_push options then [] else [''type=cacheonly''])"
    and "plain_args args = [''--provenance=false''] @ (if o_push options then [''--push''] else []) @ [o_context options]"
proof -
  have args: "args = flat_pairs (argv_pairs build options builder images env) @
     (''--provenance=false'' # flat_pairs (if file \<noteq> [] then [(''--metadata-file'', file)] else []) @
     (if o_push options then [''--push''] else flat_pairs [(''--output'', ''type=cacheonly'')]) @
     [o_context options])"
    using assms by (simp add: buildxArgv_pairs)
  have v: "''--metadata-file'' \<in> set valued_flags" "''--output'' \<in> set valued_flags"
      "''--push'' \<notin> set valued_flags" "''--provenance=false'' \<notin> set valued_flags"
    by (simp_all add: valued_flags_def)
  show "flag_values ''--tag'' args = concat (map ti_tags images)"
    and "flag_values ''--output'' args = (if o_push options then [] else [''type=cacheonly''])"
    and "plain_args args = [''--provenance=false''] @ (if o_push options then [''--push''] else []) @ [o_context options]"
    unfolding args flag_values_pairs(1) [OF argv_pairs_valued] flag_values_pairs(2) [OF argv_pairs_valued]
      argv_pairs_tags argv_pairs_no_output
    using v by (cases "file = []"; cases "o_push options"; simp)+
qed


section \<open>Commands of the step\<close>

definition inspect_cmd :: "string \<Rightarrow> cmd" where
  "inspect_cmd ref = command ''docker'' [''buildx'', ''imagetools'', ''inspect'', ref]"

lemma runDocker_sys [simp]:
  "log (snd (runDocker h args s)) = log s @ [command ''docker'' args]"
  "world (snd (runDocker h args s)) = snd (h_run h (command ''docker'' args) (world s))"
  "fst (runDocker h args s) = 0 \<longleftrightarrow> succeeded (fst (h_run h (command ''docker'' args) (world s)))"
  by (simp_all add: runDocker_def Let_def split_beta run_cmd_world run_cmd_proc exit_status_0)

lemma everyRef_log:
  "everyRef h refs s = (b, s') \<Longrightarrow>
   \<exists>cs. log s' = log s @ cs \<and> set cs \<subseteq> inspect_cmd ` set refs"
proof (induction refs arbitrary: s)
  case (Cons ref refs)
  obtain found s1 where f: "refExists h ref s = (found, s1)" by (cases "refExists h ref s")
  then have l: "log s1 = log s @ [inspect_cmd ref]"
    by (auto simp: refExists_def Let_def split_beta inspect_cmd_def)
  show ?case
  proof (cases found)
    case True
    then obtain cs where "log s' = log s1 @ cs" "set cs \<subseteq> inspect_cmd ` set refs"
      using Cons.IH [of s1] Cons.prems f by auto
    then show ?thesis using l by (intro exI [of _ "inspect_cmd ref # cs"]) auto
  next
    case False
    then show ?thesis using Cons.prems f l by auto
  qed
qed simp

text \<open>The build command of one variant, and what one turn may run.\<close>

definition build_cmd :: "env \<Rightarrow> string \<Rightarrow> string \<Rightarrow> release_state \<Rightarrow> build \<Rightarrow> staging_ref list \<Rightarrow> cmd" where
  "build_cmd env workDir builder state build staging =
     command ''docker'' (buildxArgv build (stepOptions state)
       (metadataPath workDir (''metadata-'' @ b_variant build)) builder (Some (stagingImages staging)) env)"

definition turn_cmds ::
    "env \<Rightarrow> string \<Rightarrow> string \<Rightarrow> release_state \<Rightarrow> build \<Rightarrow> cmd set" where
  "turn_cmds env workDir builder state build =
     (case buildStaging state build of Inl _ \<Rightarrow> {}
      | Inr staging \<Rightarrow> inspect_cmd ` sr_ref ` set staging \<union> {build_cmd env workDir builder state build staging})"

lemma buildTurn_log:
  assumes "buildTurn h env workDir builder force state build s = (r, s')"
  shows "\<exists>cs. log s' = log s @ cs \<and> set cs \<subseteq> turn_cmds env workDir builder state build"
proof (cases "buildStaging state build")
  case (Inl e)
  then show ?thesis using assms by (auto simp: buildTurn_def)
next
  case (Inr staging)
  let ?c = "if o_push (stepOptions state) \<and> \<not> force then stagingComplete h staging s else (False, s)"
  obtain complete s1 where c: "?c = (complete, s1)" by (cases ?c)
  then obtain cs where cs: "log s1 = log s @ cs" "set cs \<subseteq> inspect_cmd ` sr_ref ` set staging"
    using everyRef_log [of h "map sr_ref staging" s complete s1]
    by (fastforce simp: stagingComplete_def split: if_splits)
  show ?thesis
  proof (cases complete)
    case True
    then show ?thesis using assms c Inr cs by (auto simp: buildTurn_def turn_cmds_def Let_def)
  next
    case False
    then have "log s' = log s1 @ [build_cmd env workDir builder state build staging]"
      using assms c Inr
      by (auto simp: buildTurn_def buildOneVariant_def build_cmd_def Let_def split_beta split: if_splits)
    then show ?thesis using cs Inr
      by (intro exI [of _ "cs @ [build_cmd env workDir builder state build staging]"])
        (auto simp: turn_cmds_def)
  qed
qed

lemma buildLoop_log:
  "buildLoop h env workDir builder force state builds results disk s = (r, disk', s') \<Longrightarrow>
   \<exists>cs. log s' = log s @ cs \<and> set cs \<subseteq> (\<Union>b \<in> set builds. turn_cmds env workDir builder state b)"
proof (induction builds arbitrary: results disk s)
  case (Cons b builds)
  obtain t s1 where t: "buildTurn h env workDir builder force state b s = (t, s1)"
    by (cases "buildTurn h env workDir builder force state b s")
  from buildTurn_log [OF t] obtain cs where cs: "log s1 = log s @ cs"
      "set cs \<subseteq> turn_cmds env workDir builder state b" by auto
  show ?case
  proof (cases t)
    case (Inl e)
    then show ?thesis using Cons.prems t cs by auto
  next
    case (Inr x)
    then have "buildLoop h env workDir builder force state builds (results @ [x])
        (state\<lparr>st_results := results @ [x]\<rparr>) s1 = (r, disk', s')" using Cons.prems t by simp
    from Cons.IH [OF this] cs show ?thesis by fastforce
  qed
qed simp

text \<open>The results: one per finished variant, in order, and on disk after each of them.\<close>

lemma buildTurn_variant:
  "buildTurn h env workDir builder force state b s = (Inr x, s') \<Longrightarrow>
   r_variant x = b_variant b \<and> r_tagNames x = b_tagNames b \<and>
   (\<exists>staging. buildStaging state b = Inr staging \<and> r_staging x = map sr_ref staging)"
  by (auto simp: buildTurn_def buildOneVariant_def buildResult_def Let_def split_beta
      split: sum.splits if_splits)

lemma buildLoop_results:
  "buildLoop h env workDir builder force state builds results disk s = (r, disk', s') \<Longrightarrow>
   \<exists>rs n. n \<le> length builds \<and> map r_variant rs = map b_variant (take n builds) \<and>
     (r = Inr () \<longleftrightarrow> n = length builds) \<and>
     disk' = (if n = 0 then disk else state\<lparr>st_results := results @ rs\<rparr>)"
proof (induction builds arbitrary: results disk s)
  case (Cons b builds)
  obtain t s1 where t: "buildTurn h env workDir builder force state b s = (t, s1)"
    by (cases "buildTurn h env workDir builder force state b s")
  show ?case
  proof (cases t)
    case (Inl e)
    then show ?thesis using Cons.prems t by (intro exI [of _ "[]"] exI [of _ 0]) auto
  next
    case (Inr x)
    then have "buildLoop h env workDir builder force state builds (results @ [x])
        (state\<lparr>st_results := results @ [x]\<rparr>) s1 = (r, disk', s')" using Cons.prems t by simp
    from Cons.IH [OF this] obtain rs n where "n \<le> length builds"
        "map r_variant rs = map b_variant (take n builds)" "r = Inr () \<longleftrightarrow> n = length builds"
        "disk' = (if n = 0 then state\<lparr>st_results := results @ [x]\<rparr>
          else state\<lparr>st_results := (results @ [x]) @ rs\<rparr>)"
      by blast
    then show ?thesis using buildTurn_variant [OF t [unfolded Inr]]
      by (intro exI [of _ "x # rs"] exI [of _ "Suc n"]) auto
  qed
qed simp


section \<open>The whole step\<close>

definition probe_cmds :: "cmd list" where
  "probe_cmds =
     [command ''sh'' [''-c'', ''command -v docker''],
      command ''docker'' [''version'', ''--format'', ''{{.Server.Version}}''],
      command ''docker'' [''buildx'', ''version'']]"

lemma probeDocker_log:
  "probeDocker env run ex s = (d, s') \<Longrightarrow>
   log s' = log s @ (if d_cli d then probe_cmds else take 1 probe_cmds)"
  by (auto simp: probeDocker_def hasBinary_def probe_cmds_def Let_def split_beta split: if_splits)

definition builder_name :: "string \<Rightarrow> string" where
  "builder_name pid = ''forgejo-docker-publish-'' @ pid"

definition create_cmd :: "env \<Rightarrow> string \<Rightarrow> cmd" where
  "create_cmd env pid =
     command ''docker'' (buildxCreateArgv (builder_name pid) (env ''DOCKER_BUILDKIT_IMAGE'') env)"

definition remove_cmd :: "string \<Rightarrow> cmd" where
  "remove_cmd pid = command ''docker'' (buildxRemoveArgv (builder_name pid))"

definition needs_builder :: "release_state \<Rightarrow> bool" where
  "needs_builder state \<longleftrightarrow>
     list_ex (\<lambda>b. 1 < length (buildPlatforms b (st_options state))) (st_builds state)"

lemma withBuilder_none: "withBuilder h env [] state body s = body s"
  by (simp add: withBuilder_def)

lemma withBuilder_cases:
  assumes "withBuilder h env (builder_name pid) state body s = (r, disk, s')"
  shows "r = Inl (ErrBuilderCreate (builder_name pid)) \<and> disk = state \<and> log s' = log s @ [create_cmd env pid] \<or>
    (\<exists>s1 s2. body s1 = (r, disk, s2) \<and> log s1 = log s @ [create_cmd env pid] \<and>
       log s' = log s2 @ [remove_cmd pid] \<and> world s' = snd (h_run h (remove_cmd pid) (world s2)))"
proof -
  let ?argv = "buildxCreateArgv (builder_name pid) (env ''DOCKER_BUILDKIT_IMAGE'') env"
  have ne: "builder_name pid \<noteq> []" by (simp add: builder_name_def)
  obtain st s1 where c: "runDocker h ?argv s = (st, s1)" by (cases "runDocker h ?argv s")
  then have l1: "log s1 = log s @ [create_cmd env pid]"
    using runDocker_sys(1) [of h ?argv s] by (simp add: create_cmd_def)
  show ?thesis
  proof (cases "st = 0")
    case False
    then show ?thesis using assms ne c l1 by (simp add: withBuilder_def)
  next
    case True
    obtain r' disk' s2 where b: "body s1 = (r', disk', s2)" by (cases "body s1")
    then have "r = r'" "disk = disk'" "s' = snd (runDocker h (buildxRemoveArgv (builder_name pid)) s2)"
      using assms ne c True by (simp_all add: withBuilder_def split_beta)
    then show ?thesis using b l1 by (auto simp: remove_cmd_def)
  qed
qed

text \<open>How the step went, and what it ran.\<close>

lemma build_main_cases:
  assumes "build_main h env pid workDir state s = (r, disk, s')"
  obtains (stopped) probe where "log s' = log s @ probe" "set probe \<subseteq> set probe_cmds" "r \<noteq> Inr ()" "disk = state"
  | (plain) s1 where "log s1 = log s @ probe_cmds" "st_builds state \<noteq> []" "\<not> needs_builder state"
      "buildLoop h env workDir [] (isTruthy (env ''DOCKER_FORCE_BUILD'')) state (st_builds state) [] state s1 = (r, disk, s')"
  | (no_builder) "log s' = log s @ probe_cmds @ [create_cmd env pid]" "needs_builder state"
      "r = Inl (ErrBuilderCreate (builder_name pid))" "disk = state"
  | (builder) s1 s2 where "log s1 = log s @ probe_cmds @ [create_cmd env pid]" "st_builds state \<noteq> []" "needs_builder state"
      "buildLoop h env workDir (builder_name pid) (isTruthy (env ''DOCKER_FORCE_BUILD'')) state (st_builds state) [] state s1 = (r, disk, s2)"
      "log s' = log s2 @ [remove_cmd pid]" "world s' = snd (h_run h (remove_cmd pid) (world s2))"
proof (cases "st_builds state = []")
  case True
  then show thesis using assms stopped [of "[]"] by (auto simp: build_main_def)
next
  case False
  obtain d s1 where d: "probeDocker env (h_run h) (h_exists h) s = (d, s1)"
    by (cases "probeDocker env (h_run h) (h_exists h) s")
  note log = probeDocker_log [OF d]
  show thesis
  proof (cases "d_cli d \<and> d_daemon d \<and> d_buildx d")
    case unavailable: False
    then have "r \<noteq> Inr () \<and> disk = state \<and> s' = s1" using assms False d by (auto simp: build_main_def)
    moreover have "set (if d_cli d then probe_cmds else take 1 probe_cmds) \<subseteq> set probe_cmds"
      by (auto dest: in_set_takeD)
    ultimately show thesis using stopped log by blast
  next
    case True
    let ?builder = "if needs_builder state then builder_name pid else []"
    have main: "withBuilder h env ?builder state (buildLoop h env workDir ?builder
        (isTruthy (env ''DOCKER_FORCE_BUILD'')) state (st_builds state) [] state) s1 = (r, disk, s')"
      using assms True unfolding build_main_def needs_builder_def builder_name_def Let_def
      by (simp only: d prod.case False if_False simp_thms)
    show thesis
    proof (cases "needs_builder state")
      case needs: False
      then show thesis using main log True False plain [of s1] by (simp add: withBuilder_none)
    next
      case needs: True
      from main have "withBuilder h env (builder_name pid) state (buildLoop h env workDir (builder_name pid)
        (isTruthy (env ''DOCKER_FORCE_BUILD'')) state (st_builds state) [] state) s1 = (r, disk, s')"
        using needs by simp
      from withBuilder_cases [OF this] show thesis
        using log True False needs no_builder builder by auto
    qed
  qed
qed

lemma build_main_log:
  assumes "build_main h env pid workDir state s = (r, disk, s')"
  shows "\<exists>probe turns. log s' = log s @ probe @ turns \<and> set probe \<subseteq> set probe_cmds \<and>
    (turns = [] \<or>
     \<not> needs_builder state \<and> set turns \<subseteq> (\<Union>b \<in> set (st_builds state). turn_cmds env workDir [] state b) \<or>
     turns = [create_cmd env pid] \<and> r = Inl (ErrBuilderCreate (builder_name pid)) \<or>
     needs_builder state \<and> (\<exists>cs. turns = create_cmd env pid # cs @ [remove_cmd pid] \<and>
       set cs \<subseteq> (\<Union>b \<in> set (st_builds state). turn_cmds env workDir (builder_name pid) state b)))"
  using assms
proof (cases rule: build_main_cases)
  case (stopped probe)
  then show ?thesis by (intro exI [of _ probe] exI [of _ "[]"]) simp
next
  case (plain s1)
  from buildLoop_log [OF plain(4)] obtain cs where "log s' = log s1 @ cs"
    "set cs \<subseteq> (\<Union>b \<in> set (st_builds state). turn_cmds env workDir [] state b)" by blast
  then show ?thesis using plain by (intro exI [of _ probe_cmds] exI [of _ cs]) simp
next
  case no_builder
  then show ?thesis by (intro exI [of _ probe_cmds] exI [of _ "[create_cmd env pid]"]) simp
next
  case (builder s1 s2)
  from buildLoop_log [OF builder(4)] obtain cs where "log s2 = log s1 @ cs"
    "set cs \<subseteq> (\<Union>b \<in> set (st_builds state). turn_cmds env workDir (builder_name pid) state b)" by blast
  then show ?thesis using builder
    by (intro exI [of _ probe_cmds] exI [of _ "create_cmd env pid # cs @ [remove_cmd pid]"]) simp
qed

lemma build_main_results:
  assumes "build_main h env pid workDir state s = (r, disk, s')"
  shows "\<exists>rs n. n \<le> length (st_builds state) \<and> map r_variant rs = map b_variant (take n (st_builds state)) \<and>
     (r = Inr () \<longrightarrow> n = length (st_builds state) \<and> n \<noteq> 0) \<and>
     disk = (if n = 0 then state else state\<lparr>st_results := rs\<rparr>)"
proof -
  have none: ?thesis if "r \<noteq> Inr ()" "disk = state"
    using that by (intro exI [of _ "[]"] exI [of _ 0]) simp
  have loop: ?thesis if "st_builds state \<noteq> []"
      "buildLoop h env workDir builder force state (st_builds state) [] state s1 = (r, disk, s2)"
    for builder force s1 s2
  proof -
    from buildLoop_results [OF that(2), unfolded append_Nil] obtain rs n where
      "n \<le> length (st_builds state)" "map r_variant rs = map b_variant (take n (st_builds state))"
      "r = Inr () \<longleftrightarrow> n = length (st_builds state)" "disk = (if n = 0 then state else state\<lparr>st_results := rs\<rparr>)"
      by blast
    then show ?thesis using that(1) by (intro exI [of _ rs] exI [of _ n] conjI impI) simp_all
  qed
  from assms show ?thesis
  proof (cases rule: build_main_cases)
    case (stopped probe)
    show ?thesis by (rule none) (fact stopped)+
  next
    case (plain s1)
    show ?thesis by (rule loop) (fact plain)+
  next
    case no_builder
    show ?thesis by (rule none) (use no_builder in simp_all)
  next
    case (builder s1 s2)
    show ?thesis by (rule loop) (fact builder)+
  qed
qed

text \<open>Every build command of the step, and what it attaches and outputs.\<close>

definition is_build :: "cmd \<Rightarrow> bool" where
  "is_build c \<longleftrightarrow> c_program c = ''docker'' \<and> take 2 (c_args c) = [''buildx'', ''build'']"

definition is_promotion :: "cmd \<Rightarrow> bool" where
  "is_promotion c \<longleftrightarrow> c_program c = ''docker'' \<and> take 3 (c_args c) = [''buildx'', ''imagetools'', ''create'']"

lemma buildxArgv_verb:
  "take 2 (buildxArgv b options file builder images env) = [''buildx'', ''build'']"
  "take 3 (buildxArgv b options file builder images env) \<noteq> [''buildx'', ''imagetools'', ''create'']"
proof -
  have verb: "take 2 ([x, y] @ xs) = [x, y]" "take 3 ([x, y] @ xs) = [x, y] @ take 1 xs" for x y :: string and xs
    by (simp_all add: numeral_3_eq_3 numeral_2_eq_2)
  show "take 2 (buildxArgv b options file builder images env) = [''buildx'', ''build'']"
    "take 3 (buildxArgv b options file builder images env) \<noteq> [''buildx'', ''imagetools'', ''create'']"
    unfolding buildxArgv_def Let_def verb by simp_all
qed

lemma cmd_kinds:
  "c \<in> set probe_cmds \<Longrightarrow> \<not> is_build c \<and> \<not> is_promotion c"
  "\<not> is_build (inspect_cmd ref)" "\<not> is_promotion (inspect_cmd ref)"
  "\<not> is_build (create_cmd env pid)" "\<not> is_promotion (create_cmd env pid)"
  "\<not> is_build (remove_cmd pid)" "\<not> is_promotion (remove_cmd pid)"
  "is_build (build_cmd env workDir builder state b staging)"
  "\<not> is_promotion (build_cmd env workDir builder state b staging)"
  by (auto simp: is_build_def is_promotion_def probe_cmds_def command_def inspect_cmd_def create_cmd_def
      buildxCreateArgv_def remove_cmd_def buildxRemoveArgv_def build_cmd_def buildxArgv_verb)

lemma turn_cmds_kinds:
  assumes "c \<in> turn_cmds env workDir builder state b"
  shows "\<not> is_promotion c"
    and "is_build c \<Longrightarrow> \<exists>staging. buildStaging state b = Inr staging \<and> c = build_cmd env workDir builder state b staging"
  using assms by (auto simp: turn_cmds_def cmd_kinds split: sum.splits)

lemma build_main_cmds:
  assumes "build_main h env pid workDir state s = (r, disk, s')" and "c \<in> set (drop (length (log s)) (log s'))"
  shows "\<not> is_promotion c"
    and "is_build c \<Longrightarrow> \<exists>b \<in> set (st_builds state). \<exists>builder staging. buildStaging state b = Inr staging \<and>
      c = build_cmd env workDir builder state b staging"
proof -
  from build_main_log [OF assms(1)] assms(2) have
    "c \<in> set probe_cmds \<or> c = create_cmd env pid \<or> c = remove_cmd pid \<or>
     (\<exists>b \<in> set (st_builds state). \<exists>builder. c \<in> turn_cmds env workDir builder state b)"
    by (elim exE conjE disjE) auto
  note kinds = this
  show "\<not> is_promotion c" using kinds turn_cmds_kinds(1) cmd_kinds by blast
  show "\<exists>b \<in> set (st_builds state). \<exists>builder staging. buildStaging state b = Inr staging \<and>
      c = build_cmd env workDir builder state b staging" if "is_build c"
    using kinds that turn_cmds_kinds(2) cmd_kinds by blast
qed

lemma build_cmd_reads:
  "flag_values ''--tag'' (drop 2 (c_args (build_cmd env workDir builder state b staging))) = map sr_ref staging"
  "plain_args (drop 2 (c_args (build_cmd env workDir builder state b staging))) =
     [''--provenance=false''] @ (if o_push (stepOptions state) then [''--push''] else []) @ [o_context (stepOptions state)]"
  "flag_values ''--output'' (drop 2 (c_args (build_cmd env workDir builder state b staging))) =
     (if o_push (stepOptions state) then [] else [''type=cacheonly''])"
  by (simp_all add: build_cmd_def command_def buildxArgv_reads [OF refl] stagingImages_def comp_def)

section \<open>Reuse of staged variants\<close>

text \<open>A registry as the scripts see it: inspecting a reference tells whether it is there and
  changes nothing.\<close>

definition registry_view :: "'w runner \<Rightarrow> ('w \<Rightarrow> string \<Rightarrow> bool) \<Rightarrow> bool" where
  "registry_view run present \<longleftrightarrow>
     (\<forall>ref w. snd (run (inspect_cmd ref) w) = w \<and> (succeeded (fst (run (inspect_cmd ref) w)) \<longleftrightarrow> present w ref))"

lemma refExists_view:
  assumes "registry_view (h_run h) present"
  shows "fst (refExists h ref s) = present (world s) ref" "world (snd (refExists h ref s)) = world s"
  using assms by (simp_all add: refExists_def Let_def split_beta registry_view_def inspect_cmd_def)

lemma everyRef_view:
  assumes "registry_view (h_run h) present"
  shows "fst (everyRef h refs s) = list_all (present (world s)) refs \<and> world (snd (everyRef h refs s)) = world s"
proof (induction refs arbitrary: s)
  case (Cons ref refs)
  then show ?case using refExists_view [OF assms, of ref s] by (simp add: split_beta)
qed simp

lemma buildTurn_reuse:
  assumes view: "registry_view (h_run h) present"
    and staging: "buildStaging state b = Inr staging" "staging \<noteq> []"
    and there: "\<forall>e \<in> set staging. present (world s) (sr_ref e)"
    and opts: "o_push (stepOptions state)" "\<not> force"
  shows "fst (buildTurn h env workDir builder force state b s) =
      Inr (buildResult b (stepOptions state) staging [] True)"
    and "world (snd (buildTurn h env workDir builder force state b s)) = world s"
  using assms everyRef_view [OF view, of "map sr_ref staging" s]
  by (simp_all add: buildTurn_def stagingComplete_def Let_def split_beta list_all_iff)

end
