(* ===== verification/Publish.thy ===== *)
theory Publish
  imports Build_Push
begin

text \<open>
  \<open>publish.mjs\<close>: promote the staged variants to their final tags.  First every staging
  reference of the plan is inspected; only when all are there are the final tags created,
  one \<open>imagetools create\<close> per image, and the state file is rewritten after each of them.
\<close>

section \<open>The plan\<close>

record promotion =
  pr_variant :: string
  pr_base :: string
  pr_registryId :: registry_id
  pr_source :: string
  pr_tags :: "string list"

definition buildPromotions :: "release_state \<Rightarrow> build \<Rightarrow> promotion list result" where
  "buildPromotions state build =
     bindE (buildStaging state build) (\<lambda>refs.
       let staging = fold (\<lambda>(base, ref). jm_set base ref) (map (\<lambda>e. (sr_base e, sr_ref e)) refs) [] in
       Inr (concat (map (\<lambda>i.
         (let source = str_or_empty (jm_get (ti_base i) staging) in
          if source = [] then []
          else [\<lparr>pr_variant = b_variant build, pr_base = ti_base i, pr_registryId = ti_registryId i,
                 pr_source = source, pr_tags = ti_tags i\<rparr>])) (b_images build))))"

definition publishPlan :: "release_state \<Rightarrow> promotion list result" where
  "publishPlan state = bindE (mapE (buildPromotions state) (st_builds state)) (\<lambda>plans. Inr (concat plans))"

section \<open>The step\<close>

text \<open>Every staging reference is inspected, also after a missing one.\<close>

fun missingStaging :: "'w host \<Rightarrow> promotion list \<Rightarrow> 'w sys \<Rightarrow> string list \<times> 'w sys" where
  "missingStaging h [] s = ([], s)"
| "missingStaging h (entry # plan) s =
     (let (found, s1) = refExists h (pr_source entry) s;
          (missing, s2) = missingStaging h plan s1
      in (if found then missing else pr_source entry # missing, s2))"

definition promotionArgv :: "string \<Rightarrow> string list \<Rightarrow> string \<Rightarrow> string list" where
  "promotionArgv source tags metadataFile =
     [''buildx'', ''imagetools'', ''create''] @ concat (map (\<lambda>tag. [''--tag'', tag]) tags) @
     (if metadataFile \<noteq> [] then [''--metadata-file'', metadataFile] else []) @ [source]"

fun registry_name :: "registry_id \<Rightarrow> string" where
  "registry_name Ghcr = ''ghcr''"
| "registry_name Dockerhub = ''dockerhub''"

definition promotionFile :: "string \<Rightarrow> promotion \<Rightarrow> string" where
  "promotionFile workDir entry =
     metadataPath workDir (''publish-'' @ pr_variant entry @ ''-'' @ registry_name (pr_registryId entry))"

text \<open>The result of a variant, extended by one promoted image.\<close>

definition recordPromotion ::
    "promotion \<Rightarrow> string \<Rightarrow> (string, run_result) jmap \<Rightarrow> (string, run_result) jmap" where
  "recordPromotion entry digest results =
     (let current = (case jm_get (pr_variant entry) results of
            Some r \<Rightarrow> r
          | None \<Rightarrow> \<lparr>r_variant = pr_variant entry, r_builder = Imagetools, r_digest = [], r_platforms = [],
                      r_staging = [], r_published = [], r_tagNames = [], r_images = [], r_skipped = False\<rparr>)
      in jm_set (pr_variant entry)
           (current\<lparr>r_digest := (if digest \<noteq> [] then digest else r_digest current),
                    r_published := r_published current @ pr_tags entry,
                    r_images := r_images current @ [(pr_base entry, pr_tags entry)]\<rparr>) results)"

fun promoteAll ::
    "'w host \<Rightarrow> string \<Rightarrow> release_state \<Rightarrow> promotion list \<Rightarrow> (string, run_result) jmap \<Rightarrow>
     release_state \<Rightarrow> 'w sys \<Rightarrow> unit result \<times> release_state \<times> 'w sys" where
  "promoteAll h workDir state [] results disk s = (Inr (), disk, s)"
| "promoteAll h workDir state (entry # plan) results disk s =
     (let file = promotionFile workDir entry;
          (status, s1) = runDocker h (promotionArgv (pr_source entry) (pr_tags entry) file) s in
      if status \<noteq> 0 then (Inl (ErrPromotion (pr_source entry) (pr_tags entry) status), disk, s1)
      else
        let results' = recordPromotion entry (readDigest h file s1) results in
        promoteAll h workDir state plan results' (state\<lparr>st_results := jm_values results'\<rparr>) s1)"

definition publish_main ::
    "'w host \<Rightarrow> string \<Rightarrow> release_state \<Rightarrow> 'w sys \<Rightarrow> unit result \<times> release_state \<times> 'w sys" where
  "publish_main h workDir state s =
     (case publishPlan state of
        Inl e \<Rightarrow> (Inl e, state, s)
      | Inr plan \<Rightarrow>
          if plan = [] then (Inl ErrNothingToPublish, state, s)
          else if st_dryRun state then (Inr (), state, s)
          else
            let (missing, s1) = missingStaging h plan s in
            if missing \<noteq> [] then (Inl (ErrMissingStaging missing), state, s1)
            else promoteAll h workDir state plan [] state s1)"

section \<open>What the plan holds\<close>

definition staged_promotion :: "build \<Rightarrow> string \<Rightarrow> tagged_image \<Rightarrow> promotion" where
  "staged_promotion b tag i =
     \<lparr>pr_variant = b_variant b, pr_base = ti_base i, pr_registryId = ti_registryId i,
      pr_source = ti_base i @ '':'' @ tag, pr_tags = ti_tags i\<rparr>"


lemma map_of_graph: "k \<in> fst ` set kvs \<Longrightarrow> (\<And>k' v. (k', v) \<in> set kvs \<Longrightarrow> v = f k') \<Longrightarrow> map_of kvs k = Some (f k)"
  by (induction kvs) auto

lemma staging_lookup:
  assumes "i \<in> set images"
  shows "jm_get (ti_base i) (fold (\<lambda>(base, ref). jm_set base ref) (map (\<lambda>i. (ti_base i, ti_base i @ '':'' @ tag)) images) [])
    = Some (ti_base i @ '':'' @ tag)"
proof -
  let ?kvs = "map (\<lambda>i. (ti_base i, ti_base i @ '':'' @ tag)) images"
  have "map_of (rev ?kvs) (ti_base i) = Some (ti_base i @ '':'' @ tag)"
    using assms by (intro map_of_graph) (auto simp: image_iff)
  then show ?thesis by (simp only: jm.get_fold_insert [OF jm.inv_empty] option.case)
qed

lemma buildPromotions_eq:
  assumes "stagingTagName (st_version state) (st_shortSha state) (b_variant b) = Inr tag"
  shows "buildPromotions state b = Inr (map (staged_promotion b tag) (b_images b))"
proof -
  let ?kvs = "map (\<lambda>i. (ti_base i, ti_base i @ '':'' @ tag)) (b_images b)"
  define staging where "staging = fold (\<lambda>(base, ref). jm_set base ref) ?kvs []"
  have lookup: "jm_get (ti_base i) staging = Some (ti_base i @ '':'' @ tag)" if "i \<in> set (b_images b)" for i
    unfolding staging_def using that by (rule staging_lookup)
  have refs: "buildStaging state b = Inr (map (\<lambda>i. \<lparr>sr_base = ti_base i, sr_registryId = ti_registryId i,
      sr_tag = tag, sr_ref = ti_base i @ '':'' @ tag\<rparr>) (b_images b))"
    using assms by (simp add: buildStaging_def stagingRefsFor_def)
  have "concat (map (\<lambda>i. (let source = str_or_empty (jm_get (ti_base i) staging) in
          if source = [] then []
          else [\<lparr>pr_variant = b_variant b, pr_base = ti_base i, pr_registryId = ti_registryId i,
                 pr_source = source, pr_tags = ti_tags i\<rparr>])) imgs) = map (staged_promotion b tag) imgs"
    if "set imgs \<subseteq> set (b_images b)" for imgs
    using that by (induction imgs) (simp_all add: lookup Let_def staged_promotion_def)
  moreover have "map (\<lambda>e. (sr_base e, sr_ref e)) (map (\<lambda>i. \<lparr>sr_base = ti_base i, sr_registryId = ti_registryId i,
      sr_tag = tag, sr_ref = ti_base i @ '':'' @ tag\<rparr>) (b_images b)) = ?kvs" by simp
  ultimately show ?thesis unfolding buildPromotions_def refs bindE.simps staging_def by (simp only: Let_def)
qed

text \<open>The whole plan: one entry per variant and image, in that order.\<close>

lemma publishPlan_eq:
  assumes "\<forall>b \<in> set (st_builds state). stagingTagName (st_version state) (st_shortSha state) (b_variant b) = Inr (tag b)"
  shows "publishPlan state = Inr (concat (map (\<lambda>b. map (staged_promotion b (tag b)) (b_images b)) (st_builds state)))"
proof -
  have "mapE (buildPromotions state) (st_builds state) =
      Inr (map (\<lambda>b. map (staged_promotion b (tag b)) (b_images b)) (st_builds state))"
    using assms by (intro mapE_all_Inr buildPromotions_eq) simp
  then show ?thesis by (simp add: publishPlan_def)
qed

lemma buildPromotions_sources:
  assumes "buildPromotions state b = Inr ps" "e \<in> set ps"
  shows "\<exists>staging. buildStaging state b = Inr staging \<and> pr_source e \<in> sr_ref ` set staging"
proof -
  obtain tag where tag: "stagingTagName (st_version state) (st_shortSha state) (b_variant b) = Inr tag"
    using assms(1) by (auto simp: buildPromotions_def buildStaging_def stagingRefsFor_def)
  then have "ps = map (staged_promotion b tag) (b_images b)" using buildPromotions_eq assms(1) by fastforce
  then show ?thesis using assms(2) tag
    by (auto simp: buildStaging_def stagingRefsFor_def staged_promotion_def image_iff)
qed

lemma publishPlan_sources:
  assumes "publishPlan state = Inr plan" "e \<in> set plan"
  shows "\<exists>b \<in> set (st_builds state). \<exists>staging. buildStaging state b = Inr staging \<and> pr_source e \<in> sr_ref ` set staging"
proof -
  obtain plans where p: "mapE (buildPromotions state) (st_builds state) = Inr plans" "plan = concat plans"
    using assms(1) by (auto simp: publishPlan_def)
  then obtain ps where "ps \<in> set plans" "e \<in> set ps" using assms(2) by auto
  then show ?thesis using mapE_mem [OF p(1)] buildPromotions_sources by blast
qed

section \<open>Nothing is promoted before everything is staged\<close>

definition promotion_cmd :: "string \<Rightarrow> promotion \<Rightarrow> cmd" where
  "promotion_cmd workDir e =
     command ''docker'' (promotionArgv (pr_source e) (pr_tags e) (promotionFile workDir e))"

lemma promotion_cmd_kind: "is_promotion (promotion_cmd workDir e)"
  by (simp add: is_promotion_def promotion_cmd_def promotionArgv_def command_def)

lemma refExists_log [simp]: "log (snd (refExists h ref s)) = log s @ [inspect_cmd ref]"
  by (simp add: refExists_def Let_def split_beta inspect_cmd_def)

lemma missingStaging_log:
  "log (snd (missingStaging h plan s)) = log s @ map (\<lambda>e. inspect_cmd (pr_source e)) plan"
  by (induction plan arbitrary: s) (simp_all add: split_beta Let_def)

lemma missingStaging_view:
  assumes "registry_view (h_run h) present"
  shows "fst (missingStaging h plan s) = filter (\<lambda>ref. \<not> present (world s) ref) (map pr_source plan) \<and>
    world (snd (missingStaging h plan s)) = world s"
proof (induction plan arbitrary: s)
  case (Cons e plan)
  then show ?case using refExists_view [OF assms, of "pr_source e" s] by (simp add: split_beta Let_def)
qed simp

lemma promoteAll_log:
  "promoteAll h workDir state plan results disk s = (r, disk', s') \<Longrightarrow>
   \<exists>n. n \<le> length plan \<and> log s' = log s @ map (promotion_cmd workDir) (take n plan) \<and>
     (r = Inr () \<longrightarrow> n = length plan)"
proof (induction plan arbitrary: results disk s)
  case (Cons e plan)
  let ?argv = "promotionArgv (pr_source e) (pr_tags e) (promotionFile workDir e)"
  obtain st s1 where c: "runDocker h ?argv s = (st, s1)" by (cases "runDocker h ?argv s")
  then have l: "log s1 = log s @ [promotion_cmd workDir e]"
    using runDocker_sys(1) [of h ?argv s] by (simp add: promotion_cmd_def)
  show ?case
  proof (cases "st = 0")
    case False
    then show ?thesis using Cons.prems c l by (intro exI [of _ 1]) (auto simp: Let_def)
  next
    case True
    then have "\<exists>results' disk1. promoteAll h workDir state plan results' disk1 s1 = (r, disk', s')"
      using Cons.prems c by (auto simp: Let_def)
    then obtain n where "n \<le> length plan" "log s' = log s1 @ map (promotion_cmd workDir) (take n plan)"
        "r = Inr () \<longrightarrow> n = length plan"
      using Cons.IH by blast
    then show ?thesis using l by (intro exI [of _ "Suc n"]) simp
  qed
qed simp

text \<open>What the step ran: nothing, the inspections, or the inspections and then promotions.\<close>

lemma publish_main_log:
  assumes "publish_main h workDir state s = (r, disk, s')" "publishPlan state = Inr plan"
  shows "log s' = log s \<and> (r = Inr () \<longrightarrow> st_dryRun state) \<or>
    log s' = log s @ map (\<lambda>e. inspect_cmd (pr_source e)) plan \<and> fst (missingStaging h plan s) \<noteq> [] \<and> r \<noteq> Inr () \<or>
    fst (missingStaging h plan s) = [] \<and> (\<exists>n. n \<le> length plan \<and>
      log s' = log s @ map (\<lambda>e. inspect_cmd (pr_source e)) plan @ map (promotion_cmd workDir) (take n plan) \<and>
      (r = Inr () \<longrightarrow> n = length plan))"
proof (cases "plan = [] \<or> st_dryRun state")
  case True
  then show ?thesis using assms by (auto simp: publish_main_def split: if_splits)
next
  case False
  obtain missing s1 where m: "missingStaging h plan s = (missing, s1)" by (cases "missingStaging h plan s")
  then have l: "log s1 = log s @ map (\<lambda>e. inspect_cmd (pr_source e)) plan"
    using missingStaging_log [of h plan s] by simp
  show ?thesis
  proof (cases "missing = []")
    case True
    then have none: "fst (missingStaging h plan s) = []" using m by simp
    have "promoteAll h workDir state plan [] state s1 = (r, disk, s')"
      using assms \<open>\<not> (plan = [] \<or> st_dryRun state)\<close> m True by (simp add: publish_main_def)
    from promoteAll_log [OF this] obtain n where "n \<le> length plan"
        "log s' = log s1 @ map (promotion_cmd workDir) (take n plan)" "r = Inr () \<longrightarrow> n = length plan" by blast
    then have "fst (missingStaging h plan s) = [] \<and> (\<exists>n. n \<le> length plan \<and>
      log s' = log s @ map (\<lambda>e. inspect_cmd (pr_source e)) plan @ map (promotion_cmd workDir) (take n plan) \<and>
      (r = Inr () \<longrightarrow> n = length plan))"
      using l none by (intro conjI exI [of _ n]) simp_all
    then show ?thesis by blast
  next
    case some: False
    then have "s' = s1 \<and> r \<noteq> Inr ()" using assms False m by (auto simp: publish_main_def)
    then show ?thesis using l m some by simp
  qed
qed


section \<open>The recorded results\<close>

definition published_of :: "string \<Rightarrow> (string, run_result) jmap \<Rightarrow> string list" where
  "published_of v results = (case jm_get v results of None \<Rightarrow> [] | Some r \<Rightarrow> r_published r)"

definition results_ok :: "(string, run_result) jmap \<Rightarrow> bool" where
  "results_ok results \<longleftrightarrow> jm_inv results \<and> (\<forall>(k, r) \<in> set results. r_variant r = k)"

lemma recordPromotion_ok:
  assumes "results_ok results"
  shows "results_ok (recordPromotion e d results)"
proof -
  obtain r where r: "recordPromotion e d results = jm_set (pr_variant e) r results" "r_variant r = pr_variant e"
    using assms jm_get_mem [of results "pr_variant e"]
    by (fastforce simp: recordPromotion_def Let_def results_ok_def split: option.splits)
  have "set (jm_set k v m) \<subseteq> insert (k, v) (set m)" for k v and m :: "(string, run_result) jmap"
    by (induction m) (auto split: if_splits)
  then show ?thesis using assms r by (fastforce simp: results_ok_def jm_inv_set)
qed

lemma recordPromotion_published:
  "published_of v (recordPromotion e d results) =
   published_of v results @ (if pr_variant e = v then pr_tags e else [])"
  by (auto simp: recordPromotion_def published_of_def Let_def jm_get_set split: option.splits)

lemma recordPromotion_there:
  "jm_get v (recordPromotion e d results) \<noteq> None \<longleftrightarrow> v = pr_variant e \<or> jm_get v results \<noteq> None"
  by (auto simp: recordPromotion_def Let_def jm_get_set)

lemma promoteAll_results:
  "promoteAll h workDir state plan results disk s = (Inr (), disk', s') \<Longrightarrow> results_ok results \<Longrightarrow>
   \<exists>results'. results_ok results' \<and> disk' = (if plan = [] then disk else state\<lparr>st_results := jm_values results'\<rparr>) \<and>
    (\<forall>v. jm_get v results' \<noteq> None \<longleftrightarrow> v \<in> pr_variant ` set plan \<or> jm_get v results \<noteq> None) \<and>
     (\<forall>v. published_of v results' = published_of v results @
        concat (map pr_tags (filter (\<lambda>e. pr_variant e = v) plan)))"
proof (induction plan arbitrary: results disk s)
  case (Cons e plan)
  let ?argv = "promotionArgv (pr_source e) (pr_tags e) (promotionFile workDir e)"
  obtain st s1 where c: "runDocker h ?argv s = (st, s1)" by (cases "runDocker h ?argv s")
  define res1 where "res1 = recordPromotion e (readDigest h (promotionFile workDir e) s1) results"
  have "promoteAll h workDir state plan res1 (state\<lparr>st_results := jm_values res1\<rparr>) s1 = (Inr (), disk', s')"
    using Cons.prems(1) c by (auto simp: Let_def res1_def split: if_splits)
  moreover have "results_ok res1" unfolding res1_def using Cons.prems(2) by (rule recordPromotion_ok)
  ultimately obtain results' where r: "results_ok results'"
      "disk' = (if plan = [] then state\<lparr>st_results := jm_values res1\<rparr> else state\<lparr>st_results := jm_values results'\<rparr>)"
      "\<forall>v. jm_get v results' \<noteq> None \<longleftrightarrow> v \<in> pr_variant ` set plan \<or> jm_get v res1 \<noteq> None"
      "\<forall>v. published_of v results' = published_of v res1 @ concat (map pr_tags (filter (\<lambda>e. pr_variant e = v) plan))"
    using Cons.IH by blast
  have there: "jm_get v res1 \<noteq> None \<longleftrightarrow> v = pr_variant e \<or> jm_get v results \<noteq> None" for v
    unfolding res1_def by (rule recordPromotion_there)
  show ?case
  proof (cases "plan = []")
    case True
    then show ?thesis using r(2) \<open>results_ok res1\<close>
      by (intro exI [of _ res1]) (simp add: there del: not_None_eq, simp add: res1_def recordPromotion_published)
  next
    case False
    have "\<forall>v. jm_get v results' \<noteq> None \<longleftrightarrow> v \<in> pr_variant ` set (e # plan) \<or> jm_get v results \<noteq> None"
      using r(3) unfolding there by auto
    then show ?thesis using r(1,2,4) False by (intro exI [of _ results']) (simp add: res1_def recordPromotion_published)
  qed
qed auto

lemma publish_main_results:
  assumes "publish_main h workDir state s = (Inr (), disk, s')" "publishPlan state = Inr plan" "\<not> st_dryRun state"
  shows "distinct (map r_variant (st_results disk))" "set (map r_variant (st_results disk)) = pr_variant ` set plan"
    and "e \<in> set plan \<Longrightarrow> \<exists>r \<in> set (st_results disk). r_variant r = pr_variant e \<and>
      r_published r = concat (map pr_tags (filter (\<lambda>e'. pr_variant e' = pr_variant e) plan))"
proof -
  obtain missing s1 where m: "missingStaging h plan s = (missing, s1)" by (cases "missingStaging h plan s")
  then have plan: "plan \<noteq> []" and run: "promoteAll h workDir state plan [] state s1 = (Inr (), disk, s')"
    using assms by (auto simp: publish_main_def split: if_splits)
  have "results_ok []" by (simp add: results_ok_def jm_inv_def)
  from promoteAll_results [OF run this] plan obtain results where ok: "results_ok results"
      and disk: "disk = state\<lparr>st_results := jm_values results\<rparr>"
      and keys_of: "\<forall>v. jm_get v results \<noteq> None \<longleftrightarrow> v \<in> pr_variant ` set plan"
      and pub: "\<forall>v. published_of v results = concat (map pr_tags (filter (\<lambda>e. pr_variant e = v) plan))"
    by (auto simp: published_of_def simp del: not_None_eq)
  have keys: "map r_variant (jm_values results) = map fst results"
    using ok by (auto simp: results_ok_def jm_values_def)
  then show "distinct (map r_variant (st_results disk))"
    using ok disk by (simp add: results_ok_def jm_inv_def)
  have "v \<in> fst ` set results \<longleftrightarrow> v \<in> pr_variant ` set plan" for v
    using keys_of [rule_format, of v] jm_get_None [of v results] by argo
  then have "set (map fst results) = pr_variant ` set plan" by auto
  then show "set (map r_variant (st_results disk)) = pr_variant ` set plan" using keys disk by simp
  assume e: "e \<in> set plan"
  then obtain r where get: "jm_get (pr_variant e) results = Some r" using keys_of by blast
  then have "(pr_variant e, r) \<in> set results" using ok jm_get_mem by (fastforce simp: results_ok_def)
  then have "r \<in> set (st_results disk)" "r_variant r = pr_variant e"
    using ok disk by (force simp: jm_values_def results_ok_def)+
  moreover have "r_published r = concat (map pr_tags (filter (\<lambda>e'. pr_variant e' = pr_variant e) plan))"
    using pub [rule_format, of "pr_variant e"] get by (simp add: published_of_def)
  ultimately show "\<exists>r \<in> set (st_results disk). r_variant r = pr_variant e \<and>
      r_published r = concat (map pr_tags (filter (\<lambda>e'. pr_variant e' = pr_variant e) plan))" by blast
qed

end
