(* ===== verification/Pipeline.thy ===== *)
theory Pipeline
  imports Meta Publish
begin

text \<open>
  The steps together: a release whose build step succeeded is complete in the registry, so
  the publish step finds every staging reference it needs.
\<close>


section \<open>The registry\<close>

text \<open>What the two steps rely on of docker and a registry: inspecting a reference only reads
  (\<open>registry_view\<close>), no command of the steps removes a reference, and a build that
  succeeds with \<open>--push\<close> leaves all its tags behind.\<close>

definition registry_keeps :: "'w runner \<Rightarrow> ('w \<Rightarrow> string \<Rightarrow> bool) \<Rightarrow> bool" where
  "registry_keeps run present \<longleftrightarrow> (\<forall>c w ref. present w ref \<longrightarrow> present (snd (run c w)) ref)"

definition registry_pushes :: "'w runner \<Rightarrow> ('w \<Rightarrow> string \<Rightarrow> bool) \<Rightarrow> bool" where
  "registry_pushes run present \<longleftrightarrow>
     (\<forall>c w. is_build c \<and> ''--push'' \<in> set (plain_args (drop 2 (c_args c))) \<and> succeeded (fst (run c w)) \<longrightarrow>
        (\<forall>tag \<in> set (flag_values ''--tag'' (drop 2 (c_args c))). present (snd (run c w)) tag))"

lemma everyRef_keeps:
  assumes "registry_keeps (h_run h) present" "present (world s) ref"
  shows "present (world (snd (everyRef h refs s))) ref"
  using assms(2)
proof (induction refs arbitrary: s)
  case (Cons r refs)
  have "present (world (snd (refExists h r s))) ref"
    using assms(1) Cons.prems by (simp add: refExists_def registry_keeps_def Let_def split_beta)
  then show ?case using Cons.IH by (simp add: split_beta)
qed simp

lemma buildOneVariant_world:
  "world (snd (buildOneVariant h env workDir builder (stepOptions state) b staging s)) =
   snd (h_run h (build_cmd env workDir builder state b staging) (world s))"
  by (simp add: buildOneVariant_def build_cmd_def Let_def split_beta)

lemma buildTurn_keeps:
  assumes keeps: "registry_keeps (h_run h) present" and "present (world s) ref"
  shows "present (world (snd (buildTurn h env workDir builder force state b s))) ref"
proof (cases "buildStaging state b")
  case (Inl e)
  then show ?thesis using assms by (simp add: buildTurn_def)
next
  case (Inr staging)
  let ?c = "if o_push (stepOptions state) \<and> \<not> force then stagingComplete h staging s else (False, s)"
  have "present (world (snd ?c)) ref"
    using everyRef_keeps [OF keeps, of s ref] assms(2) by (simp add: stagingComplete_def)
  moreover have "world (snd (buildTurn h env workDir builder force state b s)) \<in>
      {world (snd ?c), snd (h_run h (build_cmd env workDir builder state b staging) (world (snd ?c)))}"
    unfolding buildTurn_def Let_def Inr sum.case
    by (simp only: split_beta buildOneVariant_world split: if_split) simp
  ultimately show ?thesis using keeps by (auto simp: registry_keeps_def)
qed

lemma buildLoop_keeps:
  assumes keeps: "registry_keeps (h_run h) present"
  shows "buildLoop h env workDir builder force state builds results disk s = (r, disk', s') \<Longrightarrow>
    present (world s) ref \<Longrightarrow> present (world s') ref"
proof (induction builds arbitrary: results disk s)
  case (Cons b builds)
  obtain t s1 where t: "buildTurn h env workDir builder force state b s = (t, s1)"
    by (cases "buildTurn h env workDir builder force state b s")
  then have "present (world s1) ref" using buildTurn_keeps [OF keeps Cons.prems(2)] by (metis snd_conv)
  then show ?case using Cons t by (cases t) auto
qed simp

text \<open>A turn that succeeds in push mode leaves the variant staged: it was there, or was pushed.\<close>

lemma buildTurn_staged:
  assumes view: "registry_view (h_run h) present" and keeps: "registry_keeps (h_run h) present"
    and pushes: "registry_pushes (h_run h) present" and push: "o_push (stepOptions state)"
    and run: "buildTurn h env workDir builder force state b s = (Inr x, s')"
    and staging: "buildStaging state b = Inr staging"
  shows "\<forall>e \<in> set staging. present (world s') (sr_ref e)"
proof -
  let ?c = "if \<not> force then stagingComplete h staging s else (False, s)"
  obtain complete s1 where c: "?c = (complete, s1)" by (cases ?c)
  show ?thesis
  proof (cases complete)
    case True
    then have "stagingComplete h staging s = (True, s1)" using c by (auto split: if_splits)
    then have "everyRef h (map sr_ref staging) s = (True, s1)"
      by (auto simp: stagingComplete_def split: if_splits)
    then have "list_all (present (world s)) (map sr_ref staging)" "world s1 = world s"
      using everyRef_view [OF view, of "map sr_ref staging" s] by simp_all
    moreover have "s' = s1" using run c True push staging by (auto simp: buildTurn_def split: if_splits)
    ultimately show ?thesis by (simp add: list_all_iff)
  next
    case False
    let ?cmd = "build_cmd env workDir builder state b staging"
    have "buildOneVariant h env workDir builder (stepOptions state) b staging s1 = (Inr x, s')"
      using run c False push staging by (simp add: buildTurn_def Let_def)
    then have "succeeded (fst (h_run h ?cmd (world s1)))" "world s' = snd (h_run h ?cmd (world s1))"
      by (auto simp: buildOneVariant_def build_cmd_def Let_def split_beta split: if_splits)
    moreover have "is_build ?cmd" "''--push'' \<in> set (plain_args (drop 2 (c_args ?cmd)))"
      using push by (simp_all add: cmd_kinds build_cmd_reads)
    ultimately have "\<forall>tag \<in> set (flag_values ''--tag'' (drop 2 (c_args ?cmd))). present (world s') tag"
      using pushes unfolding registry_pushes_def by metis
    then show ?thesis by (simp add: build_cmd_reads)
  qed
qed

lemma buildLoop_staged:
  assumes laws: "registry_view (h_run h) present" "registry_keeps (h_run h) present"
      "registry_pushes (h_run h) present" and push: "o_push (stepOptions state)"
  shows "buildLoop h env workDir builder force state builds results disk s = (Inr (), disk', s') \<Longrightarrow>
    b \<in> set builds \<Longrightarrow> buildStaging state b = Inr staging \<Longrightarrow> \<forall>e \<in> set staging. present (world s') (sr_ref e)"
proof (induction builds arbitrary: results disk s)
  case (Cons b' builds)
  obtain t s1 where t: "buildTurn h env workDir builder force state b' s = (t, s1)"
    by (cases "buildTurn h env workDir builder force state b' s")
  then obtain x where x: "t = Inr x" using Cons.prems(1) by (cases t) auto
  then have rest: "buildLoop h env workDir builder force state builds (results @ [x])
      (state\<lparr>st_results := results @ [x]\<rparr>) s1 = (Inr (), disk', s')" using Cons.prems(1) t by simp
  show ?case
  proof (cases "b = b'")
    case True
    then have "\<forall>e \<in> set staging. present (world s1) (sr_ref e)"
      using buildTurn_staged [OF laws push] t x Cons.prems(3) by blast
    then show ?thesis using buildLoop_keeps [OF laws(2) rest] by blast
  next
    case False
    then show ?thesis using Cons.IH [OF rest] Cons.prems(2,3) by simp
  qed
qed simp

lemma build_main_staged:
  assumes laws: "registry_view (h_run h) present" "registry_keeps (h_run h) present"
      "registry_pushes (h_run h) present" and push: "o_push (stepOptions state)"
    and run: "build_main h env pid workDir state s = (Inr (), disk, s')"
    and b: "b \<in> set (st_builds state)" "buildStaging state b = Inr staging" "e \<in> set staging"
  shows "present (world s') (sr_ref e)"
proof -
  obtain builder force s1 s2 where loop: "buildLoop h env workDir builder force state (st_builds state) [] state s1 = (Inr (), disk, s2)"
      and world: "s' = s2 \<or> (\<exists>c. world s' = snd (h_run h c (world s2)))"
    using run by (cases rule: build_main_cases) blast+
  have "present (world s2) (sr_ref e)" using buildLoop_staged [OF laws push loop b(1,2)] b(3) by blast
  then show ?thesis using world laws(2) by (auto simp: registry_keeps_def)
qed

end
