(* ===== verification/Plan_Matrix.thy ===== *)
theory Plan_Matrix
  imports Resolve
begin

text \<open>
  \<open>matrix.mjs\<close>: the variants of a run, planned before any build job starts.  The step writes
  them as a comma separated list and as a JSON matrix.
\<close>

definition planMatrix ::
    "(string \<Rightarrow> (string \<Rightarrow> string option) option) \<Rightarrow> (string \<Rightarrow> string option) \<Rightarrow> string \<Rightarrow> env \<Rightarrow>
     (variant list \<times> (string \<times> string \<times> string) list) result" where
  "planMatrix readInputs readFile table env =
     (let (wanted, warnings) = dispatchInput env ''VARIANTS'' (readEventInputs readInputs env) in
      bindE (parseVariants (if table \<noteq> [] then table else variantTableRaw readFile env)) (\<lambda>allVariants.
      bindE (variantSelection allVariants (Some wanted)) (\<lambda>variants.
      if variants = [] then Inl ErrEmptyMatrix else Inr (variants, warnings))))"

abbreviation quote_char :: char where "quote_char \<equiv> CHR 0x22"

text \<open>\<open>JSON.stringify\<close> of a variant name (no character of it is escaped) and of the matrix.\<close>

definition json_name :: "string \<Rightarrow> string" where
  "json_name name = [quote_char] @ name @ [quote_char]"

definition matrixJson :: "variant list \<Rightarrow> string" where
  "matrixJson variants =
     [CHR 0x7B] @ json_name ''variant'' @ '':['' @ join '','' (map (\<lambda>v. json_name (v_name v)) variants) @
     '']'' @ [CHR 0x7D]"

definition namesOutput :: "variant list \<Rightarrow> string" where
  "namesOutput variants = join '','' (map v_name variants)"

text \<open>\<open>main\<close>: what is appended to the step outputs.\<close>

definition matrix_main ::
    "(string \<Rightarrow> (string \<Rightarrow> string option) option) \<Rightarrow> (string \<Rightarrow> string option) \<Rightarrow> env \<Rightarrow>
     (string \<times> string) list result" where
  "matrix_main readInputs readFile env =
     bindE (planMatrix readInputs readFile [] env) (\<lambda>(variants, _).
       Inr [(''variants'', namesOutput variants), (''matrix'', matrixJson variants)])"

section \<open>Facts about the plan\<close>

lemma VARIANT_NAME_no_comma: "VARIANT_NAME v \<Longrightarrow> CHR '','' \<notin> set v"
  using variant_name_tag [of v] by (auto simp: list_all_iff tag_char_def char_class_defs dest!: bspec [of _ _ "CHR '',''"])

lemma planMatrix_ok:
  assumes "planMatrix readInputs readFile table env = Inr (vs, ws)"
  shows "vs \<noteq> []" "distinct (map v_name vs)" "list_all variant_ok vs"
proof -
  from assms obtain vs' where "parseVariants (if table \<noteq> [] then table else variantTableRaw readFile env) = Inr vs'"
      and sel: "\<exists>raw. variantSelection vs' raw = Inr vs"
    by (auto simp: planMatrix_def split_beta Let_def split: if_splits)
  then have "variant_table_ok vs'" by (blast intro: parseVariants_table_ok)
  then show "vs \<noteq> []" "distinct (map v_name vs)" "list_all variant_ok vs"
    using sel variantSelection_ok by blast+
qed

text \<open>The list output can be split again: the loop over it sees exactly the planned names.\<close>

lemma split_namesOutput:
  assumes "vs \<noteq> []" "list_all variant_ok vs"
  shows "split_on CHR '','' (namesOutput vs) = map v_name vs"
  unfolding namesOutput_def using assms
  by (intro split_on_join) (auto simp: list_all_iff variant_ok_def VARIANT_NAME_no_comma)

lemma releaseTable_eq: "releaseTable readFile [] env = variantTableRaw readFile env"
  by (simp add: releaseTable_def variantTableRaw_def Let_def)

lemma planMatrix_resolve:
  assumes "planMatrix readInputs readFile [] env = Inr (vs, ws)"
    and "resolveRelease readInputs readFile [] env = Inr state"
  shows "st_variants state = vs"
  using assms
  by (auto simp: planMatrix_def resolveRelease_def Let_def split_beta releaseTable_eq split: if_splits)

end
