(* ===== verification/Login.thy ===== *)
theory Login
  imports Release_State JS_Host
begin

text \<open>
  \<open>login.mjs\<close>: one \<open>docker login\<close> per enabled registry, the token fed through standard
  input and masked in the log before.
\<close>

definition loginArgv :: "string \<Rightarrow> string \<Rightarrow> string list" where
  "loginArgv registry user = [''login'', registry, ''-u'', user, ''--password-stdin'']"

record login_entry =
  l_id :: registry_id
  l_registry :: string
  l_user :: string
  l_tokenVar :: string

definition planLogins :: "release_state \<Rightarrow> login_entry list" where
  "planLogins state =
     map (\<lambda>r. \<lparr>l_id = reg_id r, l_registry = reg_registry r, l_user = reg_user r, l_tokenVar = reg_tokenVar r\<rparr>)
       (filter reg_enabled (st_registries state))"

definition maskCommands :: "string list \<Rightarrow> string list" where
  "maskCommands tokens = map (\<lambda>token. ''::add-mask::'' @ token) (filter (\<lambda>token. token \<noteq> []) tokens)"

definition login_cmd :: "login_entry \<Rightarrow> string \<Rightarrow> cmd" where
  "login_cmd entry token =
     \<lparr>c_program = ''docker'', c_args = loginArgv (l_registry entry) (l_user entry),
      c_input = Some (token @ [newline]), c_env = []\<rparr>"

record login_result =
  lr_ok :: bool
  lr_status :: int
  lr_stdout :: string
  lr_stderr :: string

text \<open>\<open>result.stderr || result.error?.message || ''\<close>\<close>

definition proc_message :: "proc \<Rightarrow> string" where
  "proc_message p = (if p_stderr p \<noteq> [] then p_stderr p else str_or_empty (p_error p))"

definition login :: "'w runner \<Rightarrow> login_entry \<Rightarrow> string \<Rightarrow> 'w sys \<Rightarrow> login_result result \<times> 'w sys" where
  "login run entry token s =
     (if token = [] then (Inl (ErrMissingToken (l_tokenVar entry)), s)
      else let (p, s') = run_cmd run (login_cmd entry token) s in
        (Inr \<lparr>lr_ok = (exit_status p = 0), lr_status = exit_status p, lr_stdout = trim (p_stdout p),
              lr_stderr = trim (proc_message p)\<rparr>, s'))"

text \<open>The loop of \<open>main\<close>: the first login that fails ends the step.\<close>

fun loginAll :: "'w runner \<Rightarrow> env \<Rightarrow> login_entry list \<Rightarrow> 'w sys \<Rightarrow> unit result \<times> 'w sys" where
  "loginAll run env [] s = (Inr (), s)"
| "loginAll run env (entry # plan) s =
     (case login run entry (str_or_empty (env (l_tokenVar entry))) s of
        (Inl e, s') \<Rightarrow> (Inl e, s')
      | (Inr r, s') \<Rightarrow>
          if \<not> lr_ok r then (Inl (ErrLogin (l_registry entry) (lr_stderr r) (lr_status r)), s')
          else loginAll run env plan s')"

text \<open>\<open>main\<close>: the mask commands it prints, and how it ends.\<close>

definition login_main ::
    "'w runner \<Rightarrow> env \<Rightarrow> release_state \<Rightarrow> 'w sys \<Rightarrow> string list \<times> unit result \<times> 'w sys" where
  "login_main run env state s =
     (if st_dryRun state then ([], Inr (), s)
      else let plan = planLogins state in
        if plan = [] then ([], Inl ErrNoRegistry, s)
        else (maskCommands (map (\<lambda>entry. str_or_empty (env (l_tokenVar entry))) plan),
              loginAll run env plan s))"

section \<open>What is run\<close>

lemma loginAll_log:
  "loginAll run env plan s = (r, s') \<Longrightarrow>
   \<exists>n. n \<le> length plan \<and> (r = Inr () \<longrightarrow> n = length plan) \<and>
     log s' = log s @ map (\<lambda>e. login_cmd e (str_or_empty (env (l_tokenVar e)))) (take n plan)"
proof (induction plan arbitrary: s)
  case (Cons e plan)
  let ?t = "str_or_empty (env (l_tokenVar e))"
  show ?case
  proof (cases "?t = []")
    case True
    then show ?thesis using Cons.prems by (intro exI [of _ 0]) (auto simp: login_def)
  next
    case False
    obtain p s1 where p: "run_cmd run (login_cmd e ?t) s = (p, s1)" by (cases "run_cmd run (login_cmd e ?t) s")
    then have l: "log s1 = log s @ [login_cmd e ?t]" by (auto dest: run_cmd_pair)
    show ?thesis
    proof (cases "exit_status p = 0")
      case ok: True
      then have "loginAll run env plan s1 = (r, s')" using Cons.prems False p by (simp add: login_def)
      from Cons.IH [OF this] obtain n where "n \<le> length plan" "r = Inr () \<longrightarrow> n = length plan"
        "log s' = log s1 @ map (\<lambda>e. login_cmd e (str_or_empty (env (l_tokenVar e)))) (take n plan)" by blast
      then show ?thesis using l by (intro exI [of _ "Suc n"]) simp
    next
      case failed: False
      then show ?thesis using Cons.prems False p l by (intro exI [of _ 1]) (auto simp: login_def)
    qed
  qed
qed simp

end
