(* ===== verification/Prepare.thy ===== *)
theory Prepare
  imports Resolve JS_Number
begin

text \<open>
  \<open>prepare.mjs\<close>: make the job container able to build.  A reachable docker daemon (started
  here when there is none), package sources, buildx, extra packages and QEMU handlers for
  foreign architectures.  Time is part of the world: \<open>h_now\<close> reads the clock, \<open>h_sleep\<close> waits.
\<close>

section \<open>Architectures and platforms\<close>

text \<open>\<open>ARCH_ALIASES\<close>.  (The two lower-case members the object inherits, \<open>constructor\<close> and
  \<open>__proto__\<close>, are no architectures and are not modelled.)\<close>

definition ARCH_ALIASES :: "(string \<times> string) list" where
  "ARCH_ALIASES =
     [(''x86_64'', ''amd64''), (''amd64'', ''amd64''), (''x64'', ''amd64''), (''aarch64'', ''arm64''),
      (''arm64'', ''arm64''), (''armv7l'', ''arm''), (''armv6l'', ''arm''), (''i386'', ''386''),
      (''i686'', ''386''), (''ia32'', ''386'')]"

definition normalizeArch :: "string option \<Rightarrow> string" where
  "normalizeArch machine =
     (let value = js_lower (readOptional machine) in
      case map_of ARCH_ALIASES value of Some a \<Rightarrow> a | None \<Rightarrow> value)"

text \<open>\<open>nodeArch\<close> is \<open>process.arch\<close>.\<close>

definition hostArch :: "'w runner \<Rightarrow> string \<Rightarrow> 'w sys \<Rightarrow> string \<times> 'w sys" where
  "hostArch run nodeArch s =
     (let (p, s') = run_cmd run (command ''uname'' [''-m'']) s in
      (normalizeArch (Some (if succeeded p then p_stdout p else nodeArch)), s'))"

definition archesOf :: "string list \<Rightarrow> string list" where
  "archesOf platforms =
     filter (\<lambda>a. a \<noteq> []) (uniq (map (\<lambda>p. normalizeArch (nth_opt (split_on CHR ''/'' p) 1)) platforms))"

definition binfmtHandler :: "string \<Rightarrow> string" where
  "binfmtHandler arch =
     (if arch = ''amd64'' then ''qemu-x86_64''
      else if arch = ''386'' then ''qemu-i386''
      else if arch = ''arm64'' then ''qemu-aarch64''
      else ''qemu-'' @ arch)"

definition BINFMT_ROOT :: string where
  "BINFMT_ROOT = ''/proc/sys/fs/binfmt_misc''"

definition binfmtPath :: "string \<Rightarrow> string" where
  "binfmtPath arch = BINFMT_ROOT @ ''/'' @ binfmtHandler arch"

definition requestedPlatforms :: "(string \<Rightarrow> string option) \<Rightarrow> string \<Rightarrow> env \<Rightarrow> string list result" where
  "requestedPlatforms readFile table env =
     bindE (buildOptionsFrom env False) (\<lambda>options.
     bindE (parseVariants (if table \<noteq> [] then table else variantTableRaw readFile env)) (\<lambda>variants.
     Inr (uniq (concat (map (\<lambda>v. platformsFor (v_platforms v) (o_platforms options)) variants) @
            o_platforms options))))"

section \<open>Package managers\<close>

fun firstManager :: "'w runner \<Rightarrow> string list \<Rightarrow> 'w sys \<Rightarrow> string \<times> 'w sys" where
  "firstManager run [] s = ([], s)"
| "firstManager run (name # names) s =
     (let (found, s') = hasBinary run name s in if found then (name, s') else firstManager run names s')"

definition detectManager :: "'w runner \<Rightarrow> 'w sys \<Rightarrow> string \<times> 'w sys" where
  "detectManager run = firstManager run [''apk'', ''apt-get'', ''dnf'', ''yum'']"

definition packageManagerInstall :: "string \<Rightarrow> string list \<Rightarrow> cmd option" where
  "packageManagerInstall manager packages =
     (if manager = ''apk'' then Some (command ''apk'' ([''add'', ''--no-cache''] @ packages))
      else if manager = ''apt-get'' then
        Some (command ''sh'' [''-c'', ''apt-get update && apt-get install -y --no-install-recommends '' @
          join '' '' packages])
      else if manager = ''dnf'' then Some (command ''dnf'' ([''install'', ''-y''] @ packages))
      else if manager = ''yum'' then Some (command ''yum'' ([''install'', ''-y''] @ packages))
      else None)"

definition package_sep :: "char \<Rightarrow> bool" where
  "package_sep c \<longleftrightarrow> js_ws c \<or> c = CHR '','' \<or> c = CHR '';''"

definition wantedPackages :: "string option \<Rightarrow> string list" where
  "wantedPackages raw = filter list_item (map trim (split_runs package_sep (str_or_empty raw)))"

definition installPackages ::
    "'w runner \<Rightarrow> string option \<Rightarrow> 'w sys \<Rightarrow> (string \<times> string list) result \<times> 'w sys" where
  "installPackages run raw s =
     (let wanted = wantedPackages raw in
      if wanted = [] then (Inr ([], []), s)
      else let (manager, s1) = detectManager run s in
        case packageManagerInstall manager wanted of
          None \<Rightarrow> (Inl (ErrNoPackageManager wanted), s1)
        | Some c \<Rightarrow>
            let (p, s2) = run_cmd run c s1 in
            if \<not> succeeded p then (Inl (ErrInstallFailed manager wanted (p_stderr p)), s2)
            else (Inr (manager, wanted), s2))"

section \<open>Package sources\<close>

text \<open>The rewriting scripts, run by \<open>sh -c\<close> with \<open>SOURCE_ROOT\<close> in their environment.\<close>

definition apkScript :: string where
  \<open>apkScript = ''grep -q "^${SOURCE_ROOT}/" /etc/apk/repositories || '' @
     ''sed -i "s|^https'' @ [CHR 0x5C] @ ''?://|${SOURCE_ROOT}/|" /etc/apk/repositories''\<close>

definition aptScript :: string where
  \<open>aptScript = ''if ! grep -rqs -e "URIs: ${SOURCE_ROOT}/" -e "^deb ${SOURCE_ROOT}/" '' @
     ''/etc/apt/sources.list /etc/apt/sources.list.d 2>/dev/null; then '' @
     ''for f in /etc/apt/sources.list /etc/apt/sources.list.d/*.sources /etc/apt/sources.list.d/*.list; do '' @
     ''[ -f "$f" ] || continue; '' @
     ''sed -i -E "s|URIs:[[:space:]]*https?://|URIs: ${SOURCE_ROOT}/|g; '' @
     ''s|^deb[[:space:]]+https?://|deb ${SOURCE_ROOT}/|g" "$f"; '' @
     ''done; fi''\<close>

definition yumScript :: string where
  \<open>yumScript = ''grep -rqs "^baseurl=${SOURCE_ROOT}/" /etc/yum.repos.d 2>/dev/null || '' @
     ''sed -i -E "s|^baseurl=https?://|baseurl=${SOURCE_ROOT}/|" /etc/yum.repos.d/*.repo''\<close>

definition source_cmd :: "string \<Rightarrow> string \<Rightarrow> cmd" where
  "source_cmd base script =
     \<lparr>c_program = ''sh'', c_args = [''-c'', script], c_input = None, c_env = [(''SOURCE_ROOT'', base)]\<rparr>"

text \<open>One manager: its base is applied when it is configured and its files are there.\<close>

definition applySource ::
    "'w runner \<Rightarrow> 'w file_test \<Rightarrow> string \<Rightarrow> string \<Rightarrow> string \<Rightarrow> 'w sys \<Rightarrow> string \<times> 'w sys" where
  "applySource run ex base path script s =
     (if base \<noteq> [] \<and> ex (world s) path then (base, snd (run_cmd run (source_cmd base script) s))
      else ([], s))"

definition PROXY_ALIASES :: "(string \<times> string) list" where
  "PROXY_ALIASES = [(''HTTP_PROXY'', ''http_proxy''), (''HTTPS_PROXY'', ''https_proxy''),
     (''NO_PROXY'', ''no_proxy''), (''ALL_PROXY'', ''all_proxy'')]"

definition mirrorProxies :: "env \<Rightarrow> env" where
  "mirrorProxies env =
     fold (\<lambda>(upper, lower) env.
       let v = readOptional (env upper) in if v \<noteq> [] then env(lower \<mapsto> v) else env) PROXY_ALIASES env"

record package_sources =
  ps_apk :: string
  ps_apt :: string
  ps_yum :: string

definition configurePackageSources ::
    "'w runner \<Rightarrow> 'w file_test \<Rightarrow> env \<Rightarrow> 'w sys \<Rightarrow> package_sources \<times> env \<times> 'w sys" where
  "configurePackageSources run ex env s =
     (let apkRoot = (if readOptional (env ''APK_REPO'') \<noteq> [] then readOptional (env ''APK_REPO'')
                     else readOptional (env ''APK_PROXY''));
          (apk, s1) = applySource run ex apkRoot ''/etc/apk/repositories'' apkScript s;
          (apt, s2) = applySource run ex (readOptional (env ''APT_PROXY'')) ''/etc/apt'' aptScript s1;
          (yum, s3) = applySource run ex (readOptional (env ''YUM_REPO'')) ''/etc/yum.repos.d'' yumScript s2
      in (\<lparr>ps_apk = apk, ps_apt = apt, ps_yum = yum\<rparr>, mirrorProxies env, s3))"

section \<open>buildx\<close>

datatype buildx_source = FromImage | FromManager string | FromDownload

definition buildxUrl :: "env \<Rightarrow> string \<Rightarrow> string" where
  "buildxUrl env arch =
     (let url = readOptional (env ''DOCKER_BUILDX_URL'') in
      if url \<noteq> [] then url
      else ''https://github.com/docker/buildx/releases/latest/download/buildx-linux-'' @ arch)"

definition buildxDest :: "env \<Rightarrow> string" where
  "buildxDest env =
     (let path = readOptional (env ''DOCKER_BUILDX_PATH'') in
      if path \<noteq> [] then path else ''/usr/local/libexec/docker/cli-plugins/docker-buildx'')"

definition downloadScript :: "string \<Rightarrow> string \<Rightarrow> string" where
  \<open>downloadScript url dest =
     (let q = [CHR 0x27] in
      ''mkdir -p "$(dirname '' @ q @ dest @ q @ '')" && curl -fsSL '' @ q @ url @ q @ '' -o '' @ q @ dest @ q @
      '' && chmod +x '' @ q @ dest @ q)\<close>

text \<open>The install command of a manager: \<open>apk\<close> has a package name of its own.\<close>

definition buildxInstall :: "string \<Rightarrow> cmd option" where
  "buildxInstall manager =
     (if manager = ''apk'' then Some (command ''apk'' [''add'', ''--no-cache'', ''docker-cli-buildx''])
      else if manager \<noteq> [] then packageManagerInstall manager [''docker-buildx-plugin'']
      else None)"

definition run_opt :: "'w runner \<Rightarrow> cmd option \<Rightarrow> 'w sys \<Rightarrow> 'w sys" where
  "run_opt run c s = (case c of None \<Rightarrow> s | Some c \<Rightarrow> snd (run_cmd run c s))"

definition ensureBuildx ::
    "'w runner \<Rightarrow> string \<Rightarrow> env \<Rightarrow> 'w sys \<Rightarrow> buildx_source result \<times> 'w sys" where
  "ensureBuildx run nodeArch env s =
     (let (present, s1) = hasBinary run ''buildx'' s in
      if present then (Inr FromImage, s1)
      else
        let (manager, s2) = detectManager run s1;
            (installed, s3) = hasBinary run ''buildx'' (run_opt run (buildxInstall manager) s2) in
        if installed then (Inr (if manager \<noteq> [] then FromManager manager else FromImage), s3)
        else
          let (arch, s4) = hostArch run nodeArch s3;
              script = downloadScript (buildxUrl env arch) (buildxDest env);
              (downloaded, s5) = hasBinary run ''buildx'' (snd (run_cmd run (command ''sh'' [''-c'', script]) s4)) in
          if downloaded then (Inr FromDownload, s5) else (Inl ErrNoBuildx, s5))"

section \<open>The daemon\<close>

text \<open>The outside of this step.  A started process is known by its handle; \<open>h_exit_code\<close> is
  \<^const>\<open>None\<close> while it runs.  \<open>h_can_open\<close> tells whether the log file can be opened.\<close>

record 'w prep_host =
  ph_run :: "'w runner"
  ph_exists :: "'w file_test"
  ph_spawn :: "cmd \<Rightarrow> 'w \<Rightarrow> nat \<times> 'w"
  ph_exit_code :: "nat \<Rightarrow> 'w \<Rightarrow> int option"
  ph_can_open :: "'w \<Rightarrow> string \<Rightarrow> bool"
  ph_now :: "'w \<Rightarrow> rat"
  ph_sleep :: "nat \<Rightarrow> 'w \<Rightarrow> 'w"
  ph_nodeArch :: string

definition spawn_cmd :: "'w prep_host \<Rightarrow> cmd \<Rightarrow> 'w sys \<Rightarrow> nat \<times> 'w sys" where
  "spawn_cmd h c s = (let (child, w) = ph_spawn h c (world s) in (child, s\<lparr>world := w, log := log s @ [c]\<rparr>))"

text \<open>The seconds to wait as a number: a text that is no positive number means 90.\<close>

definition waitSeconds :: "env \<Rightarrow> jsnum" where
  "waitSeconds env =
     (let n = to_number (readOptional (env ''DOCKER_DIND_WAIT'')) in if Num 0 < n then n else Num 90)"

text \<open>\<open>index === 0 ? waitSeconds : Math.max(30, Math.round(waitSeconds / 2))\<close>\<close>

definition attemptSeconds :: "nat \<Rightarrow> jsnum \<Rightarrow> jsnum" where
  "attemptSeconds index wait =
     (if index = 0 then wait
      else case wait of Num q \<Rightarrow> js_max (Num 30) (Num (of_int \<lfloor>q / 2 + 1 / 2\<rfloor>)) | n \<Rightarrow> js_max (Num 30) n)"

definition deadlineFrom :: "rat \<Rightarrow> jsnum \<Rightarrow> jsnum" where
  "deadlineFrom now seconds = (case seconds of Num q \<Rightarrow> Num (now + q * 1000) | n \<Rightarrow> n)"

text \<open>The polling loop.  \<^const>\<open>None\<close> is a loop that never ends; otherwise it gives the daemon
  it reached, if it did.\<close>

definition child_failed :: "'w prep_host \<Rightarrow> nat \<Rightarrow> 'w sys \<Rightarrow> bool" where
  "child_failed h child s = (case ph_exit_code h child (world s) of Some n \<Rightarrow> n \<noteq> 0 | None \<Rightarrow> False)"

partial_function (option) waitDaemon ::
    "'w prep_host \<Rightarrow> env \<Rightarrow> nat \<Rightarrow> jsnum \<Rightarrow> 'w sys \<Rightarrow> (docker option \<times> 'w sys) option" where
  "waitDaemon h env child deadline s =
     (if child_failed h child s then Some (None, s)
      else case probeDocker env (ph_run h) (ph_exists h) s of (docker, s1) \<Rightarrow>
        if d_daemon docker then Some (Some docker, s1)
        else if deadline \<le> Num (ph_now h (world s1)) then Some (None, s1)
        else waitDaemon h env child deadline (s1\<lparr>world := ph_sleep h 2000 (world s1)\<rparr>))"

definition dockerd_cmd :: "string \<Rightarrow> cmd" where
  "dockerd_cmd driver = command ''dockerd'' (if driver \<noteq> [] then [''--storage-driver='' @ driver] else [])"

text \<open>The attempts, one storage driver after the other.\<close>

fun tryDrivers ::
    "'w prep_host \<Rightarrow> env \<Rightarrow> string \<Rightarrow> jsnum \<Rightarrow> nat \<Rightarrow> string list \<Rightarrow> 'w sys \<Rightarrow>
     ((docker \<times> string) result \<times> 'w sys) option" where
  "tryDrivers h env logPath wait index [] s = Some (Inl (ErrDaemonStart logPath), s)"
| "tryDrivers h env logPath wait index (driver # drivers) s =
     (if \<not> ph_can_open h (world s) logPath then Some (Inl (ErrDaemonLog logPath), s)
      else
        let (child, s1) = spawn_cmd h (dockerd_cmd driver) s;
            deadline = deadlineFrom (ph_now h (world s1)) (attemptSeconds index wait) in
        case waitDaemon h env child deadline s1 of
          None \<Rightarrow> None
        | Some (Some docker, s2) \<Rightarrow> Some (Inr (docker, driver), s2)
        | Some (None, s2) \<Rightarrow> tryDrivers h env logPath wait (Suc index) drivers s2)"

record daemon =
  dm_docker :: docker
  dm_started :: bool
  dm_driver :: string
  dm_log :: string

definition ensureDaemon ::
    "'w prep_host \<Rightarrow> env \<Rightarrow> 'w sys \<Rightarrow> (daemon result \<times> 'w sys) option" where
  "ensureDaemon h env s =
     (let (docker, s1) = probeDocker env (ph_run h) (ph_exists h) s in
      if \<not> d_cli docker then Some (Inl ErrNoDockerCli, s1)
      else if d_daemon docker
      then Some (Inr \<lparr>dm_docker = docker, dm_started = False, dm_driver = [], dm_log = []\<rparr>, s1)
      else
        let (dockerd, s2) = hasBinary (ph_run h) ''dockerd'' s1 in
        if \<not> dockerd then Some (Inl ErrNoDockerd, s2)
        else
          let configured = readOptional (env ''DOCKER_DIND_LOG'');
              logPath = (if configured \<noteq> [] then configured else ''/var/log/dockerd.log'');
              explicit = readOptional (env ''DOCKER_DIND_STORAGE_DRIVER'');
              attempts = (if explicit \<noteq> [] then [explicit] else [[], ''vfs''])
          in case tryDrivers h env logPath (waitSeconds env) 0 attempts s2 of
               None \<Rightarrow> None
             | Some (Inl e, s3) \<Rightarrow> Some (Inl e, s3)
             | Some (Inr (docker, driver), s3) \<Rightarrow>
                 Some (Inr \<lparr>dm_docker = docker, dm_started = True, dm_driver = driver, dm_log = logPath\<rparr>, s3))"

section \<open>QEMU handlers\<close>

record binfmt =
  bf_skipped :: bool
  bf_wanted :: "string list"
  bf_registered :: "string list"
  bf_remaining :: "string list"
  bf_error :: string

definition missingHandlers :: "'w file_test \<Rightarrow> 'w \<Rightarrow> string list \<Rightarrow> string list" where
  "missingHandlers ex w arches = filter (\<lambda>a. \<not> ex w (binfmtPath a)) arches"

definition ensureBinfmt ::
    "'w runner \<Rightarrow> 'w file_test \<Rightarrow> string \<Rightarrow> env \<Rightarrow> string \<Rightarrow> string list \<Rightarrow> 'w sys \<Rightarrow> binfmt \<times> 'w sys" where
  "ensureBinfmt run ex nodeArch env arch platforms s0 =
     (let (host, s) = (if arch \<noteq> [] then (arch, s0) else hostArch run nodeArch s0);
          wanted = filter (\<lambda>a. a \<noteq> host) (archesOf platforms) in
      if isTruthy (env ''DOCKER_SKIP_BINFMT'')
      then (\<lparr>bf_skipped = True, bf_wanted = wanted, bf_registered = [], bf_remaining = [], bf_error = []\<rparr>, s)
      else
        let missing = missingHandlers ex (world s) wanted in
        if missing = []
        then (\<lparr>bf_skipped = False, bf_wanted = wanted, bf_registered = [], bf_remaining = [], bf_error = []\<rparr>, s)
        else
          let configured = readOptional (env ''DOCKER_BINFMT_IMAGE'');
              img = (if configured \<noteq> [] then configured else ''tonistiigi/binfmt'');
              (p, s1) = run_cmd run (command ''docker''
                [''run'', ''--privileged'', ''--rm'', img, ''--install'', join '','' missing]) s;
              remaining = missingHandlers ex (world s1) missing
          in (\<lparr>bf_skipped = False, bf_wanted = wanted,
               bf_registered = filter (\<lambda>a. a \<notin> set remaining) missing, bf_remaining = remaining,
               bf_error = (if succeeded p then [] else p_stderr p)\<rparr>, s1))"

section \<open>The whole step\<close>

datatype binfmt_word = BinfmtSkipped | BinfmtMissing "string list" | BinfmtOk

record prepare_summary =
  pm_server :: string
  pm_daemonStarted :: bool
  pm_buildx :: buildx_source
  pm_packages :: "string list"
  pm_packageSources :: package_sources
  pm_platforms :: "string list"
  pm_binfmt :: binfmt_word

definition prepare ::
    "'w prep_host \<Rightarrow> (string \<Rightarrow> string option) \<Rightarrow> string \<Rightarrow> string \<Rightarrow> env \<Rightarrow> 'w sys \<Rightarrow>
     (prepare_summary result \<times> 'w sys) option" where
  "prepare h readFile table arch env s =
     (case ensureDaemon h env s of
        None \<Rightarrow> None
      | Some (Inl e, s1) \<Rightarrow> Some (Inl e, s1)
      | Some (Inr daemon, s1) \<Rightarrow>
          let (sources, env1, s2) = configurePackageSources (ph_run h) (ph_exists h) env s1 in
          case ensureBuildx (ph_run h) (ph_nodeArch h) env1 s2 of
            (Inl e, s3) \<Rightarrow> Some (Inl e, s3)
          | (Inr buildx, s3) \<Rightarrow>
          case installPackages (ph_run h) (env1 ''DOCKER_JOB_PACKAGES'') s3 of
            (Inl e, s4) \<Rightarrow> Some (Inl e, s4)
          | (Inr extra, s4) \<Rightarrow>
          case requestedPlatforms readFile table env1 of
            Inl e \<Rightarrow> Some (Inl e, s4)
          | Inr platforms \<Rightarrow>
              let (host, s5) = (if arch \<noteq> [] then (arch, s4) else hostArch (ph_run h) (ph_nodeArch h) s4);
                  (binfmt, s6) = ensureBinfmt (ph_run h) (ph_exists h) (ph_nodeArch h) env1 host platforms s5
              in Some (Inr \<lparr>pm_server = d_server (dm_docker daemon), pm_daemonStarted = dm_started daemon,
                   pm_buildx = buildx, pm_packages = snd extra, pm_packageSources = sources,
                   pm_platforms = platforms,
                   pm_binfmt = (if bf_skipped binfmt then BinfmtSkipped
                     else if bf_remaining binfmt \<noteq> [] then BinfmtMissing (bf_remaining binfmt)
                     else BinfmtOk)\<rparr>, s6))"


section \<open>The daemon\<close>

lemma waitDaemon_reaches:
  assumes "waitDaemon h env child deadline s = Some (r, s')" "r = Some d"
  shows "d_daemon d"
proof -
  have "fst y = Some d \<longrightarrow> d_daemon d" if "waitDaemon h env child deadline s = Some y" for y
    using that by (rule waitDaemon.raw_induct [rotated]) (force split: if_splits prod.splits)
  then show ?thesis using assms by force
qed

lemma tryDrivers_reaches:
  "tryDrivers h env logPath wait index drivers s = Some (Inr (docker, driver), s') \<Longrightarrow>
   d_daemon docker \<and> driver \<in> set drivers"
  by (induction drivers arbitrary: index s)
    (auto simp: Let_def split_beta split: if_splits option.splits dest!: waitDaemon_reaches)

lemma ensureDaemon_reaches:
  assumes "ensureDaemon h env s = Some (Inr dm, s')"
  shows "d_daemon (dm_docker dm)"
proof -
  have "d_daemon docker" if "tryDrivers h env p w 0 ds s1 = Some (Inr (docker, driver), s2)"
    for p w ds s1 docker driver s2 using tryDrivers_reaches [OF that] by simp
  note tried = this
  show ?thesis
    using assms unfolding ensureDaemon_def Let_def split_beta
    by (auto simp del: tryDrivers.simps split: if_split_asm option.split_asm sum.split_asm prod.split_asm
        dest: tried)
qed

text \<open>A daemon that is there is left alone: the probe is all that runs.\<close>

lemma ensureDaemon_alone:
  assumes "probeDocker env (ph_run h) (ph_exists h) s = (docker, s1)" "d_cli docker" "d_daemon docker"
  shows "ensureDaemon h env s =
    Some (Inr \<lparr>dm_docker = docker, dm_started = False, dm_driver = [], dm_log = []\<rparr>, s1)"
  using assms by (simp add: ensureDaemon_def)

section \<open>The polling loop ends\<close>

text \<open>The clock does not run backwards, and a sleep takes at least a millisecond.\<close>

definition clock_runs :: "'w prep_host \<Rightarrow> bool" where
  "clock_runs h \<longleftrightarrow> (\<forall>c w. ph_now h w \<le> ph_now h (snd (ph_run h c w))) \<and>
     (\<forall>n w. ph_now h w + 1 \<le> ph_now h (ph_sleep h n w))"

lemma run_cmd_now:
  "clock_runs h \<Longrightarrow> ph_now h (world s) \<le> ph_now h (world (snd (run_cmd (ph_run h) c s)))"
  by (simp add: clock_runs_def run_cmd_world)

lemma hasBinary_now:
  "clock_runs h \<Longrightarrow> ph_now h (world s) \<le> ph_now h (world (snd (hasBinary (ph_run h) b s)))"
  by (simp add: hasBinary_def split_beta Let_def run_cmd_now)

lemma probeDocker_now:
  assumes "clock_runs h"
  shows "ph_now h (world s) \<le> ph_now h (world (snd (probeDocker env (ph_run h) ex s)))"
proof -
  note steps = hasBinary_now [OF assms] run_cmd_now [OF assms]
  show ?thesis
    unfolding probeDocker_def Let_def split_beta
    by (auto simp: steps intro!: order_trans [OF steps(1) order_trans [OF steps(2) steps(1)]])
qed

lemma waitDaemon_ends_within:
  assumes clock: "clock_runs h"
  shows "q \<le> ph_now h (world s) + of_nat n \<Longrightarrow> \<exists>y. waitDaemon h env child (Num q) s = Some y"
proof (induction n arbitrary: s)
  case 0
  then have "q \<le> ph_now h (world (snd (probeDocker env (ph_run h) (ph_exists h) s)))"
    using probeDocker_now [OF clock, of s env "ph_exists h"] by simp
  then show ?case by (subst waitDaemon.simps) (auto simp: split_beta)
next
  case (Suc n)
  obtain d s1 where p: "probeDocker env (ph_run h) (ph_exists h) s = (d, s1)"
    by (cases "probeDocker env (ph_run h) (ph_exists h) s")
  let ?s2 = "s1\<lparr>world := ph_sleep h 2000 (world s1)\<rparr>"
  have "ph_now h (world s) + 1 \<le> ph_now h (world ?s2)"
    using probeDocker_now [OF clock, of s env "ph_exists h"] clock p
    by (auto simp: clock_runs_def intro: order_trans [OF add_right_mono])
  then obtain y where y: "waitDaemon h env child (Num q) ?s2 = Some y"
    using Suc.IH [of ?s2] Suc.prems by auto
  show ?case
  proof (cases "child_failed h child s \<or> d_daemon d \<or> Num q \<le> Num (ph_now h (world s1))")
    case True
    then show ?thesis using p by (subst waitDaemon.simps) auto
  next
    case False
    then have "waitDaemon h env child (Num q) s = Some y"
      using p y by (subst waitDaemon.simps) simp
    then show ?thesis ..
  qed
qed

lemma waitDaemon_ends:
  assumes "clock_runs h"
  shows "\<exists>y. waitDaemon h env child (Num q) s = Some y"
proof -
  obtain n where "q - ph_now h (world s) \<le> of_nat n" using real_arch_simple by blast
  then show ?thesis using waitDaemon_ends_within [OF assms, of q s n] by (simp add: algebra_simps)
qed

lemma attemptSeconds_finite: "is_finite wait \<Longrightarrow> \<exists>q. attemptSeconds index wait = Num q"
  by (auto simp: attemptSeconds_def is_finite_def js_max_def split: jsnum.splits)

lemma tryDrivers_ends:
  assumes "clock_runs h" "is_finite wait"
  shows "\<exists>y. tryDrivers h env logPath wait index drivers s = Some y"
proof (induction drivers arbitrary: index s)
  case (Cons driver drivers)
  obtain child s1 where sp: "spawn_cmd h (dockerd_cmd driver) s = (child, s1)"
    by (cases "spawn_cmd h (dockerd_cmd driver) s")
  obtain q where q: "attemptSeconds index wait = Num q" using attemptSeconds_finite [OF assms(2)] by blast
  obtain d s2 where "waitDaemon h env child (Num (ph_now h (world s1) + q * 1000)) s1 = Some (d, s2)"
    using waitDaemon_ends [OF assms(1)] by fastforce
  then show ?case using sp q Cons.IH by (cases d) (auto simp: deadlineFrom_def)
qed simp

lemma ensureDaemon_ends:
  assumes "clock_runs h" "is_finite (waitSeconds env)"
  shows "\<exists>y. ensureDaemon h env s = Some y"
proof -
  have ends: "tryDrivers h env p (waitSeconds env) 0 ds s1 = None \<longleftrightarrow> False" for p ds s1
    using tryDrivers_ends [OF assms] by auto
  have "ensureDaemon h env s \<noteq> None"
    unfolding ensureDaemon_def Let_def split_beta
    by (simp add: ends del: tryDrivers.simps split: option.split sum.split)
  then show ?thesis by blast
qed

end
