(* ===== verification/Node_Path.thy ===== *)
theory Node_Path
  imports JS_Prelude
begin

text \<open>The functions of \<open>node:path\<close> (POSIX) that the scripts use.\<close>

abbreviation slash :: char where "slash \<equiv> CHR ''/''"

definition isAbsolute :: "string \<Rightarrow> bool" where
  "isAbsolute path \<longleftrightarrow> startsWith path [slash]"

text \<open>The segments of a normalized path, kept in reverse; \<open>updir\<close> allows leading \<open>..\<close>.\<close>

fun norm_segments :: "bool \<Rightarrow> string list \<Rightarrow> string list \<Rightarrow> string list" where
  "norm_segments updir acc [] = rev acc"
| "norm_segments updir acc (seg # segs) =
     (if seg = [] \<or> seg = ''.'' then norm_segments updir acc segs
      else if seg = ''..'' then
        (case acc of
           prev # rest \<Rightarrow>
             if prev \<noteq> ''..'' then norm_segments updir rest segs
             else norm_segments updir (if updir then seg # acc else acc) segs
         | [] \<Rightarrow> norm_segments updir (if updir then [seg] else []) segs)
      else norm_segments updir (seg # acc) segs)"

definition normalize_segments :: "bool \<Rightarrow> string \<Rightarrow> string" where
  "normalize_segments updir path = join [slash] (norm_segments updir [] (split_on slash path))"

definition normalize_path :: "string \<Rightarrow> string" where
  "normalize_path path =
     (if path = [] then ''.''
      else
        let abs = isAbsolute path; trailing = endsWith path [slash]; p = normalize_segments (\<not> abs) path in
        if p = [] then (if abs then [slash] else if trailing then ''./'' else ''.'')
        else (if abs then [slash] else []) @ p @ (if trailing then [slash] else []))"

definition path_join :: "string list \<Rightarrow> string" where
  "path_join parts =
     (let ps = filter (\<lambda>p. p \<noteq> []) parts in if ps = [] then ''.'' else normalize_path (join [slash] ps))"

definition path_resolve :: "string \<Rightarrow> string \<Rightarrow> string" where
  "path_resolve cwd path = [slash] @ normalize_segments False (if isAbsolute path then path else cwd @ [slash] @ path)"

definition dirname :: "string \<Rightarrow> string" where
  "dirname path =
     (if path = [] then ''.''
      else
        let root = isAbsolute path;
            up = dropWhile (\<lambda>c. c \<noteq> slash) (dropWhile (\<lambda>c. c = slash) (rev (tl path))) in
        if up = [] then (if root then [slash] else ''.'')
        else let d = hd path # rev (tl up) in if root \<and> d = [slash] then ''//'' else d)"

lemmas path_defs = isAbsolute_def normalize_segments_def normalize_path_def path_join_def path_resolve_def dirname_def

lemma path_examples:
  "path_join [''.'', ''Dockerfile.alpine''] = ''Dockerfile.alpine''"
  "path_join [''/ws/'', ''../x/./y''] = ''/x/y''"
  "path_resolve ''/work'' ''a/../b/'' = ''/work/b''"
  "dirname ''/a/b'' = ''/a''" "dirname ''/a'' = ''/''" "dirname ''/'' = ''/''"
  by code_simp+

end
