(* ===== verification/Preflight.thy ===== *)
theory Preflight
  imports Meta Prepare Node_Path
begin

text \<open>
  \<open>preflight.mjs\<close>: refuse to start a publish that cannot succeed.  Every finding is a value
  that carries what its message interpolates; the fixed prose is not kept.
\<close>

section \<open>Single checks\<close>

text \<open>\<open>normalizeArch(arch) || normalizeArch(hostArch())\<close>: without an \<open>arch\<close> the host is asked.\<close>

definition missingBinfmt ::
    "'w runner \<Rightarrow> 'w file_test \<Rightarrow> string \<Rightarrow> string \<Rightarrow> string list \<Rightarrow> 'w sys \<Rightarrow> string list \<times> 'w sys" where
  "missingBinfmt run ex nodeArch arch platforms s =
     (let own = normalizeArch (Some arch);
          (host, s1) = (if own \<noteq> [] then (own, s)
                        else let (h, s') = hostArch run nodeArch s in (normalizeArch (Some h), s'))
      in (filter (\<lambda>a. a \<noteq> host \<and> \<not> ex (world s1) (path_join [BINFMT_ROOT, binfmtHandler a])) (archesOf platforms), s1))"

datatype unreachable = SocketAbsent string | SocketRefuses string | HostUnreachable string

definition dockerUnreachableReason :: "docker \<Rightarrow> unreachable" where
  "dockerUnreachableReason docker =
     (case d_socketPresent docker of
        Some False \<Rightarrow> SocketAbsent (d_socketPath docker)
      | Some True \<Rightarrow> SocketRefuses (d_socketPath docker)
      | None \<Rightarrow> HostUnreachable (d_host docker))"

definition dockerfilePath :: "string \<Rightarrow> build \<Rightarrow> string" where
  "dockerfilePath ctx build =
     (if isAbsolute (b_dockerfile build) then b_dockerfile build else path_join [ctx, b_dockerfile build])"

definition missingDockerfiles :: "(string \<Rightarrow> bool) \<Rightarrow> build list \<Rightarrow> string \<Rightarrow> (string \<times> string) list" where
  "missingDockerfiles ex builds ctx =
     map (\<lambda>b. (b_variant b, dockerfilePath ctx b)) (filter (\<lambda>b. \<not> ex (dockerfilePath ctx b)) builds)"

definition halfConfigured :: "release_state \<Rightarrow> env \<Rightarrow> string list" where
  "halfConfigured state env =
     (let enabled = filter reg_enabled (st_registries state);
          ghcrUser = (case List.find (\<lambda>r. reg_id r = Ghcr) enabled of Some r \<Rightarrow> reg_user r | None \<Rightarrow> []) in
      (if readOptional (env ''DOCKERHUB_TOKEN'') \<noteq> [] \<and> readOptional (env ''DOCKERHUB_USERNAME'') = []
       then [''DOCKERHUB_TOKEN''] else []) @
      (if readOptional (env ''GHCR_TOKEN'') \<noteq> [] \<and> ghcrUser = [] then [''GHCR_TOKEN''] else []))"

section \<open>All checks\<close>

datatype preflight_error =
    HalfConfigured "string list"
  | NoCredentials
  | NoImages
  | PlanError action_error
  | MissingDockerfiles "(string \<times> string) list" string
  | NoDockerCommand docker_error
  | DaemonUnreachable unreachable docker_error
  | NoBuildx

datatype preflight_warning = NoCredentialsDryRun | MissingQemu "string list" | DryRunOnly

definition credentialErrors :: "release_state \<Rightarrow> env \<Rightarrow> preflight_error list" where
  "credentialErrors state env =
     (let none = (filter reg_enabled (st_registries state) = []) in
      (if halfConfigured state env \<noteq> [] then [HalfConfigured (halfConfigured state env)] else []) @
      (if none \<and> \<not> st_dryRun state then [NoCredentials] else []) @
      (if st_images state = [] \<and> \<not> st_dryRun state then [NoImages] else []))"

definition dockerErrors :: "bool \<Rightarrow> docker \<Rightarrow> preflight_error list" where
  "dockerErrors publishOnly docker =
     (if \<not> d_cli docker then [NoDockerCommand (d_error docker)]
      else if \<not> publishOnly \<and> \<not> d_daemon docker
      then [DaemonUnreachable (dockerUnreachableReason docker) (d_error docker)]
      else if \<not> d_buildx docker then [NoBuildx] else [])"

record preflight_report =
  pf_errors :: "preflight_error list"
  pf_warnings :: "preflight_warning list"
  pf_builds :: "build list"

definition preflightChecks ::
    "regex \<Rightarrow> (string \<Rightarrow> string \<Rightarrow> int) \<Rightarrow> 'w runner \<Rightarrow> 'w file_test \<Rightarrow> string \<Rightarrow> string \<Rightarrow> string \<Rightarrow>
     release_state \<Rightarrow> env \<Rightarrow> docker \<Rightarrow> 'w sys \<Rightarrow> preflight_report \<times> 'w sys" where
  "preflightChecks rx lc run ex nodeArch arch now state env docker s =
     (let plan = computeBuilds rx lc state (env ''DOCKER_META_TAGS'') (env ''DOCKER_META_FLAVOR'')
            (env ''DOCKER_META_LABELS'') now;
          builds = (case plan of Inr bs \<Rightarrow> bs | Inl _ \<Rightarrow> []);
          publishOnly = (readOptional (env ''DOCKER_STEP'') = ''publish'');
          missing = missingDockerfiles (ex (world s)) builds (o_context (st_options state));
          requested = uniq (concat (map (\<lambda>b. platformsFor (b_platforms b) (o_platforms (st_options state))) builds));
          (foreign, s1) = (if builds = [] \<or> publishOnly then ([], s)
                           else missingBinfmt run ex nodeArch arch requested s)
      in (\<lparr>pf_errors = credentialErrors state env @
             (case plan of Inl e \<Rightarrow> [PlanError e] | Inr _ \<Rightarrow> []) @
             (if missing \<noteq> [] then [MissingDockerfiles missing (o_context (st_options state))] else []) @
             dockerErrors publishOnly docker,
           pf_warnings =
             (if filter reg_enabled (st_registries state) = [] \<and> st_dryRun state then [NoCredentialsDryRun] else []) @
             (if foreign \<noteq> [] then [MissingQemu foreign] else []) @
             (if st_dryRun state then [DryRunOnly] else []),
           pf_builds = builds\<rparr>, s1))"

text \<open>\<open>main\<close>: the step passes when there is no error, and emits the number of builds.\<close>

definition preflight_main ::
    "regex \<Rightarrow> (string \<Rightarrow> string \<Rightarrow> int) \<Rightarrow> 'w runner \<Rightarrow> 'w file_test \<Rightarrow> string \<Rightarrow> string \<Rightarrow>
     release_state \<Rightarrow> env \<Rightarrow> 'w sys \<Rightarrow> (preflight_error list + nat) \<times> 'w sys" where
  "preflight_main rx lc run ex nodeArch now state env s =
     (let (docker, s1) = probeDocker env run ex s;
          (report, s2) = preflightChecks rx lc run ex nodeArch [] now state env docker s1
      in (if pf_errors report \<noteq> [] then Inl (pf_errors report) else Inr (length (pf_builds report)), s2))"

end
