(* ===== verification/Release_Properties.thy ===== *)
theory Release_Properties
  imports Pipeline Plan_Matrix Login Preflight
begin

text \<open>
  The properties of the release steps (build, publish, login, preflight) and of their
  composition, with a small registry on which each of them is applied.
\<close>


section \<open>A sample registry\<close>

text \<open>A world that is just the references a registry holds: inspecting looks one up, a build
  with \<open>--push\<close> adds its tags, a promotion adds its tags when its source is there.\<close>

definition ok_proc :: "bool \<Rightarrow> proc" where
  "ok_proc b = \<lparr>p_status = Some (if b then 0 else 1), p_stdout = [], p_stderr = [], p_error = None\<rparr>"

definition sample_run :: "string list runner" where
  "sample_run c w =
     (if c_program c = ''docker'' \<and> take 3 (c_args c) = [''buildx'', ''imagetools'', ''inspect'']
      then (ok_proc (last (c_args c) \<in> set w), w)
      else if is_build c \<and> ''--push'' \<in> set (plain_args (drop 2 (c_args c)))
      then (ok_proc True, flag_values ''--tag'' (drop 2 (c_args c)) @ w)
      else (ok_proc True, w))"

definition sample_host :: "string list host" where
  "sample_host = \<lparr>h_run = sample_run, h_exists = (\<lambda>w path. True), h_metadata = (\<lambda>w path. Metadata (Some ''sha256:d''))\<rparr>"

definition held :: "string list \<Rightarrow> string \<Rightarrow> bool" where
  "held w ref \<longleftrightarrow> ref \<in> set w"

lemma sample_run_inspect: "sample_run (inspect_cmd ref) w = (ok_proc (ref \<in> set w), w)"
  by (simp add: sample_run_def inspect_cmd_def command_def)

lemma sample_laws: "registry_view sample_run held" "registry_keeps sample_run held" "registry_pushes sample_run held"
proof -
  show "registry_view sample_run held"
    by (simp add: registry_view_def sample_run_inspect held_def ok_proc_def succeeded_def)
  show "registry_keeps sample_run held" by (simp add: registry_keeps_def sample_run_def held_def)
  have "\<not> (c_program c = ''docker'' \<and> take 3 (c_args c) = [''buildx'', ''imagetools'', ''inspect''])"
    if "is_build c" for c
    using that by (cases "c_args c"; cases "tl (c_args c)") (auto simp: is_build_def)
  then show "registry_pushes sample_run held" by (auto simp: registry_pushes_def sample_run_def held_def)
qed

definition sample_planned :: release_state where
  "sample_planned = sample_state\<lparr>st_builds := sample_builds\<rparr>"

abbreviation fresh :: "'w \<Rightarrow> 'w sys" where
  "fresh w \<equiv> \<lparr>world = w, log = []\<rparr>"

definition sample_built :: "unit result \<times> release_state \<times> string list sys" where
  "sample_built = build_main sample_host sample_env ''7'' ''/tmp/w'' sample_planned (fresh [])"

lemma sample_built_ok:
  "fst sample_built = Inr ()" "map c_program (log (snd (snd sample_built))) = ''sh'' # replicate 8 ''docker''"
  by code_simp+


definition new_cmds :: "'w sys \<Rightarrow> 'w sys \<Rightarrow> cmd list" where
  "new_cmds s s' = drop (length (log s)) (log s')"

section \<open>The build step\<close>

text \<open>C31: The build step never creates a final tag: it runs no promotion, and every build it
  runs attaches exactly the staging references of one of the planned builds.\<close>

theorem build_step_pushes_only_staging:
  assumes "build_main h env pid workDir state s = (r, disk, s')" and "c \<in> set (new_cmds s s')"
  shows "\<not> is_promotion c \<and> (is_build c \<longrightarrow> (\<exists>b \<in> set (st_builds state). \<exists>staging.
    buildStaging state b = Inr staging \<and> flag_values ''--tag'' (drop 2 (c_args c)) = map sr_ref staging))"
proof (intro conjI impI)
  have c: "c \<in> set (drop (length (log s)) (log s'))" using assms(2) by (simp add: new_cmds_def)
  show "\<not> is_promotion c" by (rule build_main_cmds(1) [OF assms(1) c])
  assume "is_build c"
  then obtain b builder staging where "b \<in> set (st_builds state)" "buildStaging state b = Inr staging"
      "c = build_cmd env workDir builder state b staging"
    using build_main_cmds(2) [OF assms(1) c] by blast
  then show "\<exists>b \<in> set (st_builds state). \<exists>staging.
    buildStaging state b = Inr staging \<and> flag_values ''--tag'' (drop 2 (c_args c)) = map sr_ref staging"
    using build_cmd_reads(1) by metis
qed

theorem build_step_pushes_only_staging_witness:
  "list_all (\<lambda>c. \<not> is_promotion c) (log (snd (snd sample_built)))"
proof -
  have "build_main sample_host sample_env ''7'' ''/tmp/w'' sample_planned (fresh []) =
      (fst sample_built, fst (snd sample_built), snd (snd sample_built))" by (simp add: sample_built_def)
  from build_step_pushes_only_staging [OF this] show ?thesis by (simp add: new_cmds_def list_all_iff)
qed

text \<open>C12: A dry run publishes nothing: every build it runs discards its result, and no build is
  given \<open>--push\<close>.\<close>

theorem dry_run_pushes_nothing:
  assumes "build_main h env pid workDir state s = (r, disk, s')" and "c \<in> set (new_cmds s s')"
    and "st_dryRun state" and "is_build c"
  shows "flag_values ''--output'' (drop 2 (c_args c)) = [''type=cacheonly''] \<and>
    plain_args (drop 2 (c_args c)) = [''--provenance=false'', o_context (st_options state)]"
proof -
  have c: "c \<in> set (drop (length (log s)) (log s'))" using assms(2) by (simp add: new_cmds_def)
  obtain b builder staging where "c = build_cmd env workDir builder state b staging"
    using build_main_cmds(2) [OF assms(1) c assms(4)] by blast
  then show ?thesis using assms(3) by (simp only: build_cmd_reads) (simp add: stepOptions_def)
qed

definition sample_dry :: release_state where
  "sample_dry = sample_planned\<lparr>st_dryRun := True\<rparr>"

theorem dry_run_pushes_nothing_witness:
  "\<exists>s' :: string list sys. length (filter is_build (log s')) = 2 \<and> (\<forall>c \<in> set (log s'). is_build c \<longrightarrow>
     flag_values ''--output'' (drop 2 (c_args c)) = [''type=cacheonly''])"
proof -
  obtain r disk s' where run: "build_main sample_host sample_env ''7'' ''/tmp/w'' sample_dry (fresh []) = (r, disk, s')"
    by (cases "build_main sample_host sample_env ''7'' ''/tmp/w'' sample_dry (fresh [])")
  have "length (filter is_build (log (snd (snd (build_main sample_host sample_env ''7'' ''/tmp/w'' sample_dry (fresh [])))))) = 2"
    by code_simp
  moreover have "st_dryRun sample_dry" by (simp add: sample_dry_def)
  then have "\<forall>c \<in> set (log s'). is_build c \<longrightarrow> flag_values ''--output'' (drop 2 (c_args c)) = [''type=cacheonly'']"
    using dry_run_pushes_nothing [OF run] by (simp add: new_cmds_def)
  ultimately show ?thesis using run by (intro exI [of _ s']) simp
qed

text \<open>C33: The temporary builder does not outlive the step: when the step created one, the last
  thing it runs, however it ends, is the removal of that builder; only a builder that could
  not be created is not removed.\<close>

theorem builder_is_removed:
  assumes "build_main h env pid workDir state s = (r, disk, s')" and "create_cmd env pid \<in> set (new_cmds s s')"
  shows "last (new_cmds s s') = remove_cmd pid \<or> r = Inl (ErrBuilderCreate (builder_name pid))"
proof -
  have kinds: "create_cmd env pid \<notin> set probe_cmds"
    "create_cmd env pid \<notin> turn_cmds env workDir builder state b" for builder b
    by (auto simp: create_cmd_def probe_cmds_def buildxCreateArgv_def command_def turn_cmds_def inspect_cmd_def
        build_cmd_def buildxArgv_def Let_def split: sum.splits)
  from build_main_log [OF assms(1)] obtain probe turns where log: "log s' = log s @ probe @ turns"
      "set probe \<subseteq> set probe_cmds"
      and "turns = [] \<or>
     \<not> needs_builder state \<and> set turns \<subseteq> (\<Union>b \<in> set (st_builds state). turn_cmds env workDir [] state b) \<or>
     turns = [create_cmd env pid] \<and> r = Inl (ErrBuilderCreate (builder_name pid)) \<or>
     needs_builder state \<and> (\<exists>cs. turns = create_cmd env pid # cs @ [remove_cmd pid])"
    by blast
  moreover have "create_cmd env pid \<in> set turns"
    using assms(2) log kinds(1) by (auto simp: new_cmds_def)
  ultimately have "r = Inl (ErrBuilderCreate (builder_name pid)) \<or> (\<exists>cs. turns = create_cmd env pid # cs @ [remove_cmd pid])"
    using kinds(2) by fastforce
  then show ?thesis using log by (auto simp: new_cmds_def)
qed

theorem builder_is_removed_witness: "last (log (snd (snd sample_built))) = remove_cmd ''7''"
proof -
  have run: "build_main sample_host sample_env ''7'' ''/tmp/w'' sample_planned (fresh []) =
      (fst sample_built, fst (snd sample_built), snd (snd sample_built))" by (simp add: sample_built_def)
  have "create_cmd sample_env ''7'' \<in> set (log (snd (snd sample_built)))" by code_simp
  then show ?thesis using builder_is_removed [OF run] sample_built_ok(1) by (simp add: new_cmds_def)
qed

text \<open>What the turns of the loop give, one after the other up to the first failure, without any state
  file: the results of the turns that were finished, how it ended, and the outside after it.\<close>

fun turns ::
    "'w host \<Rightarrow> env \<Rightarrow> string \<Rightarrow> string \<Rightarrow> bool \<Rightarrow> release_state \<Rightarrow> build list \<Rightarrow> 'w sys \<Rightarrow>
     run_result list \<times> unit result \<times> 'w sys" where
  "turns h env workDir builder force state [] s = ([], Inr (), s)"
| "turns h env workDir builder force state (b # bs) s =
     (case buildTurn h env workDir builder force state b s of
        (Inl e, s1) \<Rightarrow> ([], Inl e, s1)
      | (Inr x, s1) \<Rightarrow> (let (xs, r, s2) = turns h env workDir builder force state bs s1 in (x # xs, r, s2)))"

text \<open>The turns of a step: the builder it uses, and the outside once docker was probed and the builder
  was created.\<close>

definition step_turns ::
    "'w host \<Rightarrow> env \<Rightarrow> string \<Rightarrow> string \<Rightarrow> release_state \<Rightarrow> 'w sys \<Rightarrow> run_result list \<times> unit result \<times> 'w sys" where
  "step_turns h env pid workDir state s =
     (let s1 = snd (probeDocker env (h_run h) (h_exists h) s);
          builder = (if needs_builder state then builder_name pid else []);
          s2 = (if needs_builder state
                then snd (runDocker h (buildxCreateArgv builder (env ''DOCKER_BUILDKIT_IMAGE'') env) s1) else s1) in
      turns h env workDir builder (isTruthy (env ''DOCKER_FORCE_BUILD'')) state (st_builds state) s2)"

lemma buildLoop_turns:
  "buildLoop h env workDir builder force state builds results disk s =
    (let (xs, r, s') = turns h env workDir builder force state builds s in
     (r, if xs = [] then disk else state\<lparr>st_results := results @ xs\<rparr>, s'))"
  by (induction builds arbitrary: results disk s) (auto simp: Let_def split: prod.split sum.split)

lemma turns_variants:
  "turns h env workDir builder force state builds s = (xs, r, s') \<Longrightarrow>
   map r_variant xs = map b_variant (take (length xs) builds) \<and> (r = Inr () \<longrightarrow> length xs = length builds)"
proof (induction builds arbitrary: xs s)
  case (Cons b builds)
  obtain t s1 where t: "buildTurn h env workDir builder force state b s = (t, s1)" by force
  show ?case
  proof (cases t)
    case (Inl e)
    then show ?thesis using Cons.prems t by auto
  next
    case (Inr x)
    then obtain ys where "xs = x # ys" "turns h env workDir builder force state builds s1 = (ys, r, s')"
      using Cons.prems t by (auto simp: Let_def split: prod.splits)
    then show ?thesis using Cons.IH [of s1 ys] buildTurn_variant [OF t [unfolded Inr]] by simp
  qed
qed simp

text \<open>C32: The state file always holds what was finished.  A step that stops before its first build (no
  plan, no docker, no builder) leaves it as it is.  Otherwise the step ends as its turns end, and the
  results in the state file are exactly those of the turns that were finished, in the order of the
  plan: all of them when the step succeeds, those before the failure when a turn fails (and when the
  first one fails, the state file is untouched).\<close>

theorem build_results_on_disk:
  assumes "build_main h env pid workDir state s = (r, disk, s')"
    and "step_turns h env pid workDir state s = (finished, ended, s2)"
  shows "r \<in> {Inl ErrNoBuildPlan, Inl ErrDockerUnavailable, Inl (ErrBuilderCreate (builder_name pid))} \<and> disk = state \<or>
    r = ended \<and> disk = (if finished = [] then state else state\<lparr>st_results := finished\<rparr>) \<and>
    map r_variant finished = map b_variant (take (length finished) (st_builds state)) \<and>
    (r = Inr () \<longrightarrow> finished \<noteq> [] \<and> length finished = length (st_builds state))"
proof -
  let ?builder = "if needs_builder state then builder_name pid else []"
  obtain d s1 where probe: "probeDocker env (h_run h) (h_exists h) s = (d, s1)" by force
  obtain c s3 where create: "runDocker h (buildxCreateArgv (builder_name pid) (env ''DOCKER_BUILDKIT_IMAGE'') env) s1 = (c, s3)"
    by force
  consider "r = Inl ErrNoBuildPlan" "disk = state" | "r = Inl ErrDockerUnavailable" "disk = state"
    | "r = Inl (ErrBuilderCreate (builder_name pid))" "disk = state"
    | (run) s4 where "st_builds state \<noteq> []" "buildLoop h env workDir ?builder (isTruthy (env ''DOCKER_FORCE_BUILD''))
        state (st_builds state) [] state (if needs_builder state then s3 else s1) = (r, disk, s4)"
    using assms(1) probe create unfolding build_main_def needs_builder_def [symmetric] builder_name_def [symmetric]
    by (auto simp: withBuilder_def Let_def builder_name_def split: if_splits prod.splits)
  then show ?thesis
  proof cases
    case (run s4)
    have turns: "turns h env workDir ?builder (isTruthy (env ''DOCKER_FORCE_BUILD'')) state (st_builds state)
        (if needs_builder state then s3 else s1) = (finished, ended, s2)"
      using assms(2) probe create by (auto simp: step_turns_def Let_def split: if_splits)
    then have "r = ended" "disk = (if finished = [] then state else state\<lparr>st_results := finished\<rparr>)"
      using run(2) unfolding buildLoop_turns by auto
    then show ?thesis using turns_variants [OF turns] run(1) by auto
  qed simp_all
qed

theorem build_results_on_disk_witness:
  "map r_variant (st_results (fst (snd sample_built))) = [''alpine'', ''trixie-slim'']"
proof -
  have run: "build_main sample_host sample_env ''7'' ''/tmp/w'' sample_planned (fresh []) =
      (Inr (), fst (snd sample_built), snd (snd sample_built))"
    using sample_built_ok(1) by (simp add: sample_built_def prod_eq_iff)
  obtain finished ended s2 where t: "step_turns sample_host sample_env ''7'' ''/tmp/w'' sample_planned (fresh []) = (finished, ended, s2)"
    by (metis prod.exhaust)
  have "map b_variant (st_builds sample_planned) = [''alpine'', ''trixie-slim'']" by code_simp
  then show ?thesis using build_results_on_disk [OF run t] by auto
qed

text \<open>The build arguments of a variant: an entry of \<open>DOCKER_BUILD_ARGS\<close> (its last one) wins
  over the variant table, which wins over the ambient proxies; every key is passed once.\<close>

theorem build_args_precedence:
  "distinct (map fst (effectiveBuildArgs variantArgs globalArgs env)) \<and>
   map_of (effectiveBuildArgs variantArgs globalArgs env) k =
     (case map_of (rev globalArgs) k of Some v \<Rightarrow> Some v | None \<Rightarrow>
     (case map_of (rev variantArgs) k of Some v \<Rightarrow> Some v | None \<Rightarrow> map_of (proxiesFrom env) k))"
  using effectiveBuildArgs_get [of k variantArgs globalArgs env] effectiveBuildArgs_inv [of variantArgs globalArgs env]
  by (simp add: jm_get_def jm_inv_def)

text \<open>C37: A variant is built exactly when it has to be.  In push mode (so not in a dry run) and without a
  forced rebuild, a variant whose staging references, at least one, are all in the registry is not built
  again: its turn leaves the registry as it is and reports a reused variant.  In every other case (a
  reference is missing, a rebuild is forced, nothing is pushed) the variant is built.\<close>

theorem staged_variant_is_reused:
  assumes "registry_view (h_run h) present" and "buildStaging state b = Inr staging"
    and "reuse \<longleftrightarrow> o_push (stepOptions state) \<and> \<not> force \<and> staging \<noteq> [] \<and> (\<forall>e \<in> set staging. present (world s) (sr_ref e))"
  shows "\<exists>s'. world s' = world s \<and> buildTurn h env workDir builder force state b s =
    (if reuse then (Inr (buildResult b (stepOptions state) staging [] True), s')
     else buildOneVariant h env workDir builder (stepOptions state) b staging s')"
proof (cases "o_push (stepOptions state) \<and> \<not> force \<and> staging \<noteq> []")
  case True
  obtain found s' where refs: "everyRef h (map sr_ref staging) s = (found, s')" by force
  then have "found = reuse" "world s' = world s"
    using everyRef_view [OF assms(1), of "map sr_ref staging" s] True assms(3) by (auto simp: list_all_iff)
  then show ?thesis using True assms(2) refs by (intro exI [of _ s']) (simp add: buildTurn_def stagingComplete_def Let_def)
next
  case False
  then have "\<not> reuse" using assms(3) by blast
  then show ?thesis using False assms(2) by (intro exI [of _ s]) (auto simp: buildTurn_def stagingComplete_def Let_def)
qed

theorem staged_variant_is_reused_witness:
  "\<exists>s'. fst (buildTurn sample_host sample_env ''/tmp/w'' [] False sample_planned (hd sample_builds)
      (fresh [''ghcr.io/own/app:staging-1.2.3-0123456-alpine''])) =
    Inr (buildResult (hd sample_builds) (stepOptions sample_planned)
      [\<lparr>sr_base = ''ghcr.io/own/app'', sr_registryId = Ghcr, sr_tag = ''staging-1.2.3-0123456-alpine'',
        sr_ref = ''ghcr.io/own/app:staging-1.2.3-0123456-alpine''\<rparr>] [] True)"
proof -
  let ?e = "\<lparr>sr_base = ''ghcr.io/own/app'', sr_registryId = Ghcr, sr_tag = ''staging-1.2.3-0123456-alpine'',
        sr_ref = ''ghcr.io/own/app:staging-1.2.3-0123456-alpine''\<rparr>"
  have "buildStaging sample_planned (hd sample_builds) = Inr [?e]" "o_push (stepOptions sample_planned)"
    by code_simp+
  moreover have "registry_view (h_run sample_host) held" using sample_laws(1) by (simp add: sample_host_def)
  ultimately show ?thesis
    using staged_variant_is_reused [of sample_host held sample_planned "hd sample_builds" "[?e]" True False
        "fresh [''ghcr.io/own/app:staging-1.2.3-0123456-alpine'']" sample_env "''/tmp/w''" "[]"]
    by (auto simp: held_def)
qed

section \<open>The publish step\<close>

text \<open>C1: All or nothing: if the publish step creates any final tag, then every staging
  reference of the whole plan was in the registry when it started.\<close>

theorem publish_all_or_nothing:
  assumes "registry_view (h_run h) present" and "publishPlan state = Inr plan"
    and "publish_main h workDir state s = (r, disk, s')" and "c \<in> set (new_cmds s s')" "is_promotion c"
  shows "\<forall>e \<in> set plan. present (world s) (pr_source e)"
proof -
  have "c \<notin> (\<lambda>e. inspect_cmd (pr_source e)) ` set plan" using assms(5) cmd_kinds(3) by auto
  then have "fst (missingStaging h plan s) = []"
    using publish_main_log [OF assms(3,2)] assms(4) by (auto simp: new_cmds_def)
  then show ?thesis using missingStaging_view [OF assms(1), of plan s] by (auto simp: filter_empty_conv)
qed

definition sample_refs :: "string list" where
  "sample_refs = [''ghcr.io/own/app:staging-1.2.3-0123456-alpine'', ''ghcr.io/own/app:staging-1.2.3-0123456-trixie-slim'']"

definition sample_plan_of :: "promotion list" where
  "sample_plan_of = (case publishPlan sample_planned of Inr plan \<Rightarrow> plan | Inl _ \<Rightarrow> [])"

lemma sample_plan_of: "publishPlan sample_planned = Inr sample_plan_of" "map pr_source sample_plan_of = sample_refs"
proof -
  have "map_sum id (map pr_source) (publishPlan sample_planned) = Inr sample_refs" by code_simp
  then show "publishPlan sample_planned = Inr sample_plan_of" "map pr_source sample_plan_of = sample_refs"
    by (cases "publishPlan sample_planned"; simp add: sample_plan_of_def)+
qed

definition sample_published :: "unit result \<times> release_state \<times> string list sys" where
  "sample_published = publish_main sample_host ''/tmp/p'' sample_planned (fresh sample_refs)"

lemma sample_published_run:
  "publish_main sample_host ''/tmp/p'' sample_planned (fresh sample_refs) =
     (fst sample_published, fst (snd sample_published), snd (snd sample_published))"
  by (simp add: sample_published_def)

lemma sample_published_ok: "fst sample_published = Inr ()"
    "map is_promotion (log (snd (snd sample_published))) = [False, False, True, True]"
  by code_simp+

theorem publish_all_or_nothing_witness: "list_all (held sample_refs) sample_refs"
proof -
  have "True \<in> set (map is_promotion (log (snd (snd sample_published))))" by (simp only: sample_published_ok(2)) simp
  then obtain c where "c \<in> set (log (snd (snd sample_published)))" "is_promotion c" by auto
  then have "\<forall>e \<in> set sample_plan_of. held sample_refs (pr_source e)"
    using publish_all_or_nothing [OF _ sample_plan_of(1) sample_published_run, of held] sample_laws(1)
    by (simp add: sample_host_def new_cmds_def)
  then have "\<forall>ref \<in> set (map pr_source sample_plan_of). held sample_refs ref" by simp
  then show ?thesis unfolding sample_plan_of(2) list_all_iff .
qed


text \<open>C11: A publish step that succeeds either was a dry run, which runs nothing and leaves the state file
  and the world as they are, or did its whole plan: it inspected every staging reference, then created
  the tags of every planned image, in order, and nothing else; the state file then has exactly one result
  for each planned variant, and that result holds all tags of the variant in plan order.\<close>

theorem publish_does_its_plan:
  assumes "publish_main h workDir state s = (Inr (), disk, s')" and "publishPlan state = Inr plan"
  shows "if st_dryRun state then disk = state \<and> s' = s
    else new_cmds s s' = map (\<lambda>e. inspect_cmd (pr_source e)) plan @ map (promotion_cmd workDir) plan \<and>
      distinct (map r_variant (st_results disk)) \<and>
      set (map r_variant (st_results disk)) = pr_variant ` set plan \<and>
      (\<forall>e \<in> set plan. \<exists>r \<in> set (st_results disk). r_variant r = pr_variant e \<and>
        r_published r = concat (map pr_tags (filter (\<lambda>e'. pr_variant e' = pr_variant e) plan)))"
proof (cases "st_dryRun state")
  case True
  then show ?thesis using assms by (simp add: publish_main_def split: if_splits)
next
  case False
  then have "log s' = log s @ map (\<lambda>e. inspect_cmd (pr_source e)) plan @ map (promotion_cmd workDir) plan"
    using publish_main_log [OF assms] by auto
  moreover have "\<forall>e \<in> set plan. \<exists>r \<in> set (st_results disk). r_variant r = pr_variant e \<and>
      r_published r = concat (map pr_tags (filter (\<lambda>e'. pr_variant e' = pr_variant e) plan))"
    using publish_main_results(3) [OF assms False] by blast
  ultimately show ?thesis using publish_main_results(1,2) [OF assms False] False by (simp add: new_cmds_def)
qed

theorem publish_does_its_plan_witness:
  "length (log (snd (snd sample_published))) = 4 \<and> distinct (map r_variant (st_results (fst (snd sample_published))))"
proof -
  have run: "publish_main sample_host ''/tmp/p'' sample_planned (fresh sample_refs) =
     (Inr (), fst (snd sample_published), snd (snd sample_published))"
    using sample_published_ok(1) sample_published_run by simp
  have "\<not> st_dryRun sample_planned" by code_simp
  moreover have "length sample_plan_of = 2"
    using arg_cong [OF sample_plan_of(2), of length] by (simp add: sample_refs_def)
  ultimately show ?thesis using publish_does_its_plan [OF run sample_plan_of(1)] by (simp add: new_cmds_def)
qed

text \<open>The publish plan is the tag plan: one promotion for each image of each build, in that
  order, from the staging reference of the build to exactly the final tags of the image.\<close>

theorem publish_plan_is_the_tag_plan:
  assumes "\<forall>b \<in> set (st_builds state). stagingTagName (st_version state) (st_shortSha state) (b_variant b) = Inr (tag b)"
  shows "publishPlan state = Inr (concat (map (\<lambda>b. map (\<lambda>i.
     \<lparr>pr_variant = b_variant b, pr_base = ti_base i, pr_registryId = ti_registryId i,
      pr_source = ti_base i @ '':'' @ tag b, pr_tags = ti_tags i\<rparr>) (b_images b)) (st_builds state)))"
proof -
  have "staged_promotion b t = (\<lambda>i. \<lparr>pr_variant = b_variant b, pr_base = ti_base i,
      pr_registryId = ti_registryId i, pr_source = ti_base i @ '':'' @ t, pr_tags = ti_tags i\<rparr>)" for b t
    by (rule ext) (simp add: staged_promotion_def)
  then show ?thesis using publishPlan_eq [OF assms] by simp
qed

theorem publish_plan_is_the_tag_plan_witness:
  "\<exists>plan. publishPlan sample_planned = Inr plan \<and> length plan = length (concat (map b_images sample_builds))"
proof -
  let ?tag = "\<lambda>b. case stagingTagName (st_version sample_planned) (st_shortSha sample_planned) (b_variant b) of Inr t \<Rightarrow> t | Inl _ \<Rightarrow> []"
  have "list_all (\<lambda>b. \<not> isl (stagingTagName (st_version sample_planned) (st_shortSha sample_planned) (b_variant b))) sample_builds"
    by code_simp
  then have "\<forall>b \<in> set (st_builds sample_planned).
      stagingTagName (st_version sample_planned) (st_shortSha sample_planned) (b_variant b) = Inr (?tag b)"
    by (auto simp: list_all_iff sample_planned_def isl_def split: sum.splits)
  from publish_plan_is_the_tag_plan [OF this] show ?thesis
    by (simp add: sample_planned_def length_concat comp_def)
qed

section \<open>The steps composed\<close>

text \<open>C2: A release whose build step succeeded (in push mode) can be published: on what the
  build step left on disk and in the registry, the publish step never stops for a missing
  staging reference.\<close>

theorem staged_release_publishes:
  assumes laws: "registry_view (h_run h) present" "registry_keeps (h_run h) present"
      "registry_pushes (h_run h) present"
    and push: "o_push (stepOptions state)"
    and built: "build_main h env pid workDir state s = (Inr (), disk, s1)"
    and published: "publish_main h workDir' disk s1 = (r, disk', s2)"
  shows "\<nexists>refs. r = Inl (ErrMissingStaging refs)"
proof -
  from build_main_results [OF built] obtain rs where disk: "disk = state\<lparr>st_results := rs\<rparr> \<or> disk = state"
    by (metis (full_types))
  have "buildPromotions (state\<lparr>st_results := rs\<rparr>) = buildPromotions state"
    by (rule ext) (simp add: buildPromotions_def buildStaging_def)
  then have plan_eq: "publishPlan disk = publishPlan state" using disk by (auto simp: publishPlan_def)
  show ?thesis
  proof (cases "publishPlan disk")
    case (Inl e)
    then show ?thesis using published by (auto simp: publish_main_def publishPlan_def buildPromotions_def
          buildStaging_def bindE_Inl_iff stagingRefsFor_def stagingTagName_def sanitizeTagName_def Let_def
          split: if_splits dest!: mapE_Inl)
  next
    case (Inr plan)
    have "present (world s1) (pr_source e)" if "e \<in> set plan" for e
    proof -
      from publishPlan_sources [of state plan e] Inr plan_eq that obtain b staging x where
        "b \<in> set (st_builds state)" "buildStaging state b = Inr staging" "x \<in> set staging" "pr_source e = sr_ref x"
        by auto
      then show ?thesis using build_main_staged [OF laws push built] by simp
    qed
    then have "fst (missingStaging h plan s1) = []"
      using missingStaging_view [OF laws(1), of plan s1] by (auto simp: filter_empty_conv)
    then obtain s3 where "missingStaging h plan s1 = ([], s3)" by (cases "missingStaging h plan s1") simp
    moreover have "promoteAll h workDir' disk plan res d s = (r, d', s') \<Longrightarrow> r \<noteq> Inl (ErrMissingStaging refs)"
      for plan res d s r d' s' refs
      by (induction plan arbitrary: res d s) (auto simp: Let_def split_beta split: if_splits)
    ultimately show ?thesis using published Inr by (auto simp: publish_main_def split: if_splits)
  qed
qed

theorem staged_release_publishes_witness:
  "\<nexists>refs. fst (publish_main sample_host ''/tmp/p'' (fst (snd sample_built)) (snd (snd sample_built))) =
     Inl (ErrMissingStaging refs)"
proof -
  have built: "build_main sample_host sample_env ''7'' ''/tmp/w'' sample_planned (fresh []) =
      (Inr (), fst (snd sample_built), snd (snd sample_built))"
    using sample_built_ok(1) by (simp add: sample_built_def prod_eq_iff)
  obtain r d s2 where run: "publish_main sample_host ''/tmp/p'' (fst (snd sample_built)) (snd (snd sample_built)) = (r, d, s2)"
    by (metis prod.exhaust)
  have "o_push (stepOptions sample_planned)" by code_simp
  then show ?thesis using staged_release_publishes [OF _ _ _ _ built run, of held] sample_laws run
    by (simp add: sample_host_def)
qed

text \<open>C38: The matrix is planned as the release is resolved: both steps, run on the same inputs
  and files, choose the same variants.\<close>

theorem plan_agrees_with_resolve:
  assumes "planMatrix readInputs readFile [] env = Inr (vs, ws)"
    and "resolveRelease readInputs readFile [] env = Inr state"
  shows "st_variants state = vs"
  by (rule planMatrix_resolve [OF assms])

theorem plan_agrees_with_resolve_witness:
  "\<exists>vs ws. planMatrix no_inputs no_file [] sample_env = Inr (vs, ws) \<and> st_variants sample_state = vs"
proof -
  obtain vs ws where plan: "planMatrix no_inputs no_file [] sample_env = Inr (vs, ws)"
  proof (cases "planMatrix no_inputs no_file [] sample_env")
    case (Inl e)
    moreover have "\<not> isl (planMatrix no_inputs no_file [] sample_env)" by code_simp
    ultimately show ?thesis by simp
  qed auto
  then show ?thesis using plan_agrees_with_resolve [OF plan resolve_sample] by blast
qed

text \<open>The variant list the planning step writes can be split at its commas again: it has the
  name of every planned variant once, and never is empty.\<close>

theorem matrix_output_roundtrip:
  assumes "matrix_main readInputs readFile env = Inr out"
  shows "\<exists>vs ws names. planMatrix readInputs readFile [] env = Inr (vs, ws) \<and>
     out = [(''variants'', names), (''matrix'', matrixJson vs)] \<and>
     split_on CHR '','' names = map v_name vs \<and> distinct (map v_name vs) \<and> vs \<noteq> []"
proof -
  from assms obtain vs ws where p: "planMatrix readInputs readFile [] env = Inr (vs, ws)"
      and out: "out = [(''variants'', namesOutput vs), (''matrix'', matrixJson vs)]"
    by (auto simp: matrix_main_def)
  note ok = planMatrix_ok [OF p]
  show ?thesis using p out ok split_namesOutput [OF ok(1,3)] by blast
qed

theorem matrix_output_roundtrip_witness:
  "\<exists>names. split_on CHR '','' names = [''alpine'', ''trixie-slim'']"
proof -
  have ev: "map_sum id (map fst) (matrix_main no_inputs no_file sample_env) = Inr [''variants'', ''matrix'']"
    "map_sum id (\<lambda>(vs, ws). map v_name vs) (planMatrix no_inputs no_file [] sample_env) = Inr [''alpine'', ''trixie-slim'']"
    by code_simp+
  then obtain out where "matrix_main no_inputs no_file sample_env = Inr out"
    by (cases "matrix_main no_inputs no_file sample_env") auto
  from matrix_output_roundtrip [OF this] show ?thesis using ev(2) by auto
qed

section \<open>Logging in\<close>

text \<open>Logging in runs one \<open>docker login\<close> per enabled registry, in order; tokens only travel
  through standard input, so every argument vector is the one of the plan, and all tokens
  were masked before; a step that succeeds logged in everywhere.\<close>

theorem login_keeps_tokens_out_of_argv:
  assumes "login_main run env state s = (masks, r, s')" and "\<not> st_dryRun state"
  shows "\<exists>n. map c_args (new_cmds s s') = map (\<lambda>e. loginArgv (l_registry e) (l_user e)) (take n (planLogins state)) \<and>
     (r = Inr () \<longrightarrow> planLogins state \<noteq> [] \<and> n = length (planLogins state)) \<and>
     (\<forall>e \<in> set (planLogins state). \<forall>token. env (l_tokenVar e) = Some token \<and> token \<noteq> [] \<longrightarrow>
        ''::add-mask::'' @ token \<in> set masks)"
proof (cases "planLogins state = []")
  case True
  then show ?thesis using assms by (intro exI [of _ 0]) (auto simp: login_main_def new_cmds_def)
next
  case False
  then have run: "loginAll run env (planLogins state) s = (r, s')"
    and masks: "masks = maskCommands (map (\<lambda>entry. str_or_empty (env (l_tokenVar entry))) (planLogins state))"
    using assms by (auto simp: login_main_def Let_def)
  have mask: "''::add-mask::'' @ token \<in> set masks"
    if "e \<in> set (planLogins state)" "env (l_tokenVar e) = Some token" "token \<noteq> []" for e token
  proof -
    have "token \<in> set (map (\<lambda>entry. str_or_empty (env (l_tokenVar entry))) (planLogins state))"
      using that by (auto simp: image_iff intro!: bexI [of _ e])
    then have "token \<in> set (filter (\<lambda>token. token \<noteq> []) (map (\<lambda>entry. str_or_empty (env (l_tokenVar entry))) (planLogins state)))"
      using that(3) by simp
    then show ?thesis unfolding masks maskCommands_def set_map by (rule imageI)
  qed
  from loginAll_log [OF run] obtain n where "r = Inr () \<longrightarrow> n = length (planLogins state)"
    "log s' = log s @ map (\<lambda>e. login_cmd e (str_or_empty (env (l_tokenVar e)))) (take n (planLogins state))" by blast
  then show ?thesis using False mask by (intro exI [of _ n]) (simp add: new_cmds_def login_cmd_def comp_def)
qed

theorem login_keeps_tokens_out_of_argv_witness:
  "map c_args (log (snd (snd (login_main sample_run sample_env sample_state (fresh []))))) =
     [[''login'', ''ghcr.io'', ''-u'', ''own'', ''--password-stdin'']]"
proof -
  obtain masks r s' where run: "login_main sample_run sample_env sample_state (fresh []) = (masks, r, s')"
    by (metis prod.exhaust)
  have "fst (snd (login_main sample_run sample_env sample_state (fresh []))) = Inr ()" "\<not> st_dryRun sample_state"
    "map (\<lambda>e. loginArgv (l_registry e) (l_user e)) (planLogins sample_state) =
      [[''login'', ''ghcr.io'', ''-u'', ''own'', ''--password-stdin'']]"
    by code_simp+
  then show ?thesis using login_keeps_tokens_out_of_argv [OF run] run by (auto simp: new_cmds_def)
qed

end
