(* ===== verification/Locate_Action.thy ===== *)
theory Locate_Action
  imports Action_Errors Node_Path
begin

text \<open>
  \<open>locate-action.mjs\<close>: find the directory the scripts were copied to.  The file system is a
  parameter: \<open>ex\<close> tests a path, \<open>readdir\<close> lists a directory (name, is it a directory) or
  fails; \<open>cwd\<close> is the working directory.
\<close>

definition isActionDir :: "(string \<Rightarrow> bool) \<Rightarrow> string \<Rightarrow> bool" where
  "isActionDir ex dir \<longleftrightarrow>
     dir \<noteq> [] \<and> ex (path_join [dir, ''workflows'']) \<and> ex (path_join [dir, ''scripts'', ''build-push.mjs''])"

text \<open>The breadth-first search: the hits of a level, and the directories of the next.\<close>

type_synonym readdir = "string \<Rightarrow> (string \<times> bool) list option"

definition child_dirs :: "readdir \<Rightarrow> string \<Rightarrow> (string \<times> string) list" where
  "child_dirs readdir dir =
     (case readdir dir of
        None \<Rightarrow> []
      | Some entries \<Rightarrow> map (\<lambda>(name, _). (name, path_join [dir, name])) (filter snd entries))"

fun searchLevels :: "readdir \<Rightarrow> nat \<Rightarrow> string list \<Rightarrow> string list" where
  "searchLevels readdir 0 level = []"
| "searchLevels readdir (Suc depth) level =
     (if level = [] then []
      else let children = concat (map (child_dirs readdir) level) in
        map snd (filter (\<lambda>(name, _). name = ''.forgejo'') children) @
        searchLevels readdir depth (map snd (filter (\<lambda>(name, _). name \<noteq> ''.forgejo'') children)))"

definition findForgejoDirs :: "readdir \<Rightarrow> string \<Rightarrow> string list" where
  "findForgejoDirs readdir start = searchLevels readdir 6 [start]"

text \<open>The parents of the workspace, at most three of them.\<close>

fun parentDirs :: "nat \<Rightarrow> string \<Rightarrow> string list" where
  "parentDirs 0 walk = []"
| "parentDirs (Suc steps) walk =
     (if walk = [] \<or> walk = [slash] \<or> dirname walk = walk then []
      else path_join [walk, ''.forgejo''] # parentDirs steps (dirname walk))"

definition clean_dir :: "string \<Rightarrow> string \<Rightarrow> string" where
  "clean_dir cwd dir = strip_trailing slash (path_resolve cwd dir)"

definition or_else :: "string option \<Rightarrow> string \<Rightarrow> string" where
  "or_else v d = (if str_or_empty v \<noteq> [] then str_or_empty v else d)"

definition workspaceOf :: "string \<Rightarrow> env \<Rightarrow> string" where
  "workspaceOf cwd env = clean_dir cwd (or_else (env ''GITHUB_WORKSPACE'') (or_else (env ''PWD'') cwd))"

definition locateCandidates :: "readdir \<Rightarrow> string \<Rightarrow> env \<Rightarrow> string \<times> string list" where
  "locateCandidates readdir cwd env =
     (let workspace = workspaceOf cwd env;
          explicit = trim (str_or_empty (env ''GITHUB_ACTION_PATH''));
          dirs = [explicit, path_join [workspace, ''.forgejo'']] @ findForgejoDirs readdir workspace @
                 parentDirs 3 (dirname workspace)
      in (workspace, uniq (map (clean_dir cwd) (filter (\<lambda>d. d \<noteq> []) dirs))))"

definition locateActionDir :: "readdir \<Rightarrow> (string \<Rightarrow> bool) \<Rightarrow> string \<Rightarrow> env \<Rightarrow> string" where
  "locateActionDir readdir ex cwd env =
     (case List.find (isActionDir ex) (snd (locateCandidates readdir cwd env)) of Some d \<Rightarrow> d | None \<Rightarrow> [])"

text \<open>\<open>main\<close>: the step output and the two environment variables later steps read;
  \<^const>\<open>None\<close> is the failure with its diagnostic.\<close>

definition locate_main :: "readdir \<Rightarrow> (string \<Rightarrow> bool) \<Rightarrow> string \<Rightarrow> env \<Rightarrow> (string \<times> string) list option" where
  "locate_main readdir ex cwd env =
     (let dir = locateActionDir readdir ex cwd env in
      if dir = [] then None
      else Some [(''forgejo_dir'', dir), (''FORGEJO_DIR'', dir),
                 (''DOCKER_VARIANTS_FILE'', path_join [dir, ''variants.txt''])])"

section \<open>What is found\<close>

lemma locateActionDir_found:
  assumes "locateActionDir readdir ex cwd env = d" "d \<noteq> []"
  shows "isActionDir ex d" "d \<in> set (snd (locateCandidates readdir cwd env))"
  using assms by (auto simp: locateActionDir_def find_Some_iff split: option.splits)

lemma locateActionDir_none:
  "locateActionDir readdir ex cwd env = [] \<longleftrightarrow>
   (\<forall>d \<in> set (snd (locateCandidates readdir cwd env)). \<not> isActionDir ex d)"
  by (auto simp: locateActionDir_def find_None_iff find_Some_iff isActionDir_def split: option.splits)

text \<open>An explicit hint wins: it is the first candidate.\<close>

lemma locateActionDir_hint:
  assumes "trim (str_or_empty (env ''GITHUB_ACTION_PATH'')) = h" "h \<noteq> []" "isActionDir ex (clean_dir cwd h)"
  shows "locateActionDir readdir ex cwd env = clean_dir cwd h"
  using assms by (simp add: locateActionDir_def locateCandidates_def uniq_def Let_def)

text \<open>The search only reports directories that a listing named.\<close>

lemma searchLevels_step:
  "d \<in> set (searchLevels readdir n level) \<Longrightarrow>
   \<exists>parent entries. readdir parent = Some entries \<and> (''.forgejo'', True) \<in> set entries \<and>
     d = path_join [parent, ''.forgejo'']"
proof (induction n arbitrary: level)
  case (Suc n)
  let ?children = "concat (map (child_dirs readdir) level)"
  have "(''.forgejo'', d) \<in> set ?children \<or>
      d \<in> set (searchLevels readdir n (map snd (filter (\<lambda>(name, _). name \<noteq> ''.forgejo'') ?children)))"
    using Suc.prems by (auto simp: Let_def split: if_splits)
  then show ?case
  proof
    assume "(''.forgejo'', d) \<in> set ?children"
    then obtain p where "(''.forgejo'', d) \<in> set (child_dirs readdir p)" by auto
    then show ?thesis by (cases "readdir p") (auto simp: child_dirs_def intro!: exI [of _ p])
  next
    assume "d \<in> set (searchLevels readdir n (map snd (filter (\<lambda>(name, _). name \<noteq> ''.forgejo'') ?children)))"
    then show ?thesis by (rule Suc.IH)
  qed
qed simp

end
