(* ===== verification/Run_Dispatch.thy ===== *)
theory Run_Dispatch
  imports Endpoints Node_Path
begin

text \<open>
  \<open>run.mjs\<close>: the single entry point of the workflow.  A subcommand is a program run as a
  process of its own, or \<open>verify-action\<close>, which checks that every program was shipped.
\<close>

definition PROGRAMS :: "(string \<times> string) list" where
  "PROGRAMS =
     [(''locate-action'', ''locate-action.mjs''), (''plan-matrix'', ''matrix.mjs''), (''prepare'', ''prepare.mjs''),
      (''resolve'', ''resolve.mjs''), (''preflight'', ''preflight.mjs''), (''login'', ''login.mjs''),
      (''meta'', ''meta.mjs''), (''build-push'', ''build-push.mjs''), (''publish'', ''publish.mjs''),
      (''summary'', ''summary.mjs'')]"

definition REQUIRED_SCRIPTS :: "string list" where
  "REQUIRED_SCRIPTS =
     [''endpoints.mjs'', ''locate-action.mjs'', ''run.mjs'', ''config.mjs'', ''matrix.mjs'', ''prepare.mjs'',
      ''resolve.mjs'', ''preflight.mjs'', ''login.mjs'', ''meta.mjs'', ''build-push.mjs'', ''publish.mjs'',
      ''summary.mjs'']"

definition SUBCOMMANDS :: "string list" where
  "SUBCOMMANDS =
     [''locate-action'', ''verify-action'', ''plan-matrix'', ''prepare'', ''resolve'', ''preflight'', ''login'',
      ''meta'', ''build-push'', ''publish'', ''summary'']"

text \<open>The outside: the directory of the scripts, the working directory, the node binary, and
  how a started process ends (it cannot be started, or closes with a code or a signal).\<close>

datatype child_end = SpawnFailed | Closed "int option"

record 'w dispatch_host =
  dh_run :: "'w runner"
  dh_exists :: "'w file_test"
  dh_spawn :: "cmd \<Rightarrow> string \<Rightarrow> 'w \<Rightarrow> child_end \<times> 'w" \<comment> \<open>command, working directory\<close>
  dh_here :: string
  dh_cwd :: string
  dh_execPath :: string

definition workspaceDir :: "'w dispatch_host \<Rightarrow> env \<Rightarrow> string" where
  "workspaceDir h env =
     (let w = str_or_empty (env ''GITHUB_WORKSPACE'') in
      strip_trailing slash (if w \<noteq> [] then w else dh_cwd h))"

definition runCommand :: "'w dispatch_host \<Rightarrow> cmd \<Rightarrow> string \<Rightarrow> 'w sys \<Rightarrow> int \<times> 'w sys" where
  "runCommand h c cwd s =
     (let (e, w) = dh_spawn h c cwd (world s) in
      (case e of SpawnFailed \<Rightarrow> 127 | Closed (Some n) \<Rightarrow> n | Closed None \<Rightarrow> 1,
       s\<lparr>world := w, log := log s @ [c]\<rparr>))"

definition runSubprocessProgram :: "'w dispatch_host \<Rightarrow> string \<Rightarrow> env \<Rightarrow> 'w sys \<Rightarrow> int \<times> 'w sys" where
  "runSubprocessProgram h name env s =
     (let path = path_join [dh_here h, str_or_empty (map_of PROGRAMS name)] in
      if \<not> dh_exists h (world s) path then (1, s)
      else runCommand h (command (dh_execPath h) [path]) (workspaceDir h env) s)"

definition actionDir :: "'w dispatch_host \<Rightarrow> env \<Rightarrow> string" where
  "actionDir h env =
     (let p = str_or_empty (env ''GITHUB_ACTION_PATH'') in
      strip_trailing slash (if p \<noteq> [] then p
        else if endsWith (dh_here h) ''/scripts'' then take (length (dh_here h) - 8) (dh_here h)
        else dh_here h))"

definition missingScripts :: "'w dispatch_host \<Rightarrow> env \<Rightarrow> 'w sys \<Rightarrow> string list" where
  "missingScripts h env s =
     filter (\<lambda>name. \<not> dh_exists h (world s) (path_join [actionDir h env, ''scripts'', name])) REQUIRED_SCRIPTS"

definition verifyAction :: "'w dispatch_host \<Rightarrow> env \<Rightarrow> 'w sys \<Rightarrow> int \<times> 'w sys" where
  "verifyAction h env s =
     (if missingScripts h env s \<noteq> [] then (1, s)
      else (0, snd (probeDocker env (dh_run h) (dh_exists h) s)))"

definition dispatch :: "'w dispatch_host \<Rightarrow> string \<Rightarrow> env \<Rightarrow> 'w sys \<Rightarrow> int \<times> 'w sys" where
  "dispatch h name env s =
     (if name \<notin> set SUBCOMMANDS then (2, s)
      else if name = ''verify-action'' then verifyAction h env s
      else runSubprocessProgram h name env s)"

section \<open>The tables fit together\<close>

lemma subcommands_runnable:
  "list_all (\<lambda>name. name = ''verify-action'' \<or> str_or_empty (map_of PROGRAMS name) \<in> set REQUIRED_SCRIPTS) SUBCOMMANDS"
  "set (map fst PROGRAMS) \<subseteq> set SUBCOMMANDS" "distinct SUBCOMMANDS" "distinct REQUIRED_SCRIPTS"
  by code_simp+

end
