(* ===== verification/Runner_Properties.thy ===== *)
theory Runner_Properties
  imports Release_Properties Locate_Action Run_Dispatch
begin

text \<open>
  The properties of the steps around a release: preparing the runner, the preflight check,
  locating and running the scripts, and classifying an endpoint.
\<close>

section \<open>Preparing the runner\<close>

text \<open>C25: Waiting for the docker daemon ends: with a clock that runs and a finite
  \<open>DOCKER_DIND_WAIT\<close> the step returns, and when it returns a daemon, that daemon answered.\<close>

theorem daemon_wait_ends:
  assumes "clock_runs h" and "is_finite (waitSeconds env)"
  shows "\<exists>r s'. ensureDaemon h env s = Some (r, s') \<and> (\<forall>dm. r = Inr dm \<longrightarrow> d_daemon (dm_docker dm))"
proof -
  obtain r s' where run: "ensureDaemon h env s = Some (r, s')" using ensureDaemon_ends [OF assms, of s] by auto
  then show ?thesis using ensureDaemon_reaches by blast
qed

text \<open>A runner with a docker client and \<open>dockerd\<close>, whose daemon never comes up; the world is
  the clock, in milliseconds.\<close>

definition dead_daemon :: "rat prep_host" where
  "dead_daemon = \<lparr>ph_run = (\<lambda>c w. (\<lparr>p_status = Some (if c_program c = ''sh'' then 0 else 1), p_stdout = [], p_stderr = [],
       p_error = None\<rparr>, w)),
     ph_exists = (\<lambda>w path. False), ph_spawn = (\<lambda>c w. (0, w)), ph_exit_code = (\<lambda>child w. None),
     ph_can_open = (\<lambda>w path. True), ph_now = (\<lambda>w. w), ph_sleep = (\<lambda>n w. w + of_nat n + 1),
     ph_nodeArch = ''amd64''\<rparr>"

theorem daemon_wait_ends_witness:
  "\<exists>r s'. ensureDaemon dead_daemon Map.empty \<lparr>world = 0, log = []\<rparr> = Some (r, s')"
proof -
  have "clock_runs dead_daemon" by (simp add: clock_runs_def dead_daemon_def)
  moreover have "is_finite (waitSeconds Map.empty)" by code_simp
  ultimately show ?thesis using daemon_wait_ends [of dead_daemon Map.empty "\<lparr>world = 0, log = []\<rparr>"] by blast
qed

section \<open>The preflight check\<close>

text \<open>The preflight check passes exactly when the release can start: the tag plan exists, a
  docker client with buildx is there (and a daemon, unless the step only publishes), every
  Dockerfile of the plan exists, no credential is half configured, and a run that is not dry
  has a registry and an image.  It then reports the number of planned builds.\<close>

theorem preflight_passes_iff:
  assumes "probeDocker env run ex s = (docker, s1)"
  shows "fst (preflight_main rx lc run ex nodeArch now state env s) = Inr n \<longleftrightarrow>
    (\<exists>builds. computeBuilds rx lc state (env ''DOCKER_META_TAGS'') (env ''DOCKER_META_FLAVOR'')
        (env ''DOCKER_META_LABELS'') now = Inr builds \<and> n = length builds \<and>
      d_cli docker \<and> d_buildx docker \<and> (readOptional (env ''DOCKER_STEP'') = ''publish'' \<or> d_daemon docker) \<and>
      list_all (\<lambda>b. ex (world s1) (dockerfilePath (o_context (st_options state)) b)) builds \<and>
      halfConfigured state env = [] \<and>
      (st_dryRun state \<or> list_ex reg_enabled (st_registries state) \<and> st_images state \<noteq> []))"
proof (cases "computeBuilds rx lc state (env ''DOCKER_META_TAGS'') (env ''DOCKER_META_FLAVOR'')
        (env ''DOCKER_META_LABELS'') now")
  case (Inl e)
  then show ?thesis using assms by (simp add: preflight_main_def preflightChecks_def Let_def split_beta)
next
  case (Inr builds)
  have docker: "dockerErrors p docker = [] \<longleftrightarrow> d_cli docker \<and> d_buildx docker \<and> (p \<or> d_daemon docker)" for p
    by (auto simp: dockerErrors_def)
  have credentials: "credentialErrors state env = [] \<longleftrightarrow> halfConfigured state env = [] \<and>
      (st_dryRun state \<or> list_ex reg_enabled (st_registries state) \<and> st_images state \<noteq> [])"
    by (auto simp: credentialErrors_def Let_def list_ex_iff filter_empty_conv)
  have files: "missingDockerfiles (ex (world s1)) builds ctx = [] \<longleftrightarrow>
      list_all (\<lambda>b. ex (world s1) (dockerfilePath ctx b)) builds" for ctx
    by (auto simp: missingDockerfiles_def list_all_iff filter_empty_conv)
  have "fst (preflight_main rx lc run ex nodeArch now state env s) = Inr n \<longleftrightarrow>
      credentialErrors state env = [] \<and> missingDockerfiles (ex (world s1)) builds (o_context (st_options state)) = [] \<and>
      dockerErrors (readOptional (env ''DOCKER_STEP'') = ''publish'') docker = [] \<and> n = length builds"
    using assms Inr by (auto simp: preflight_main_def preflightChecks_def Let_def split_beta)
  then show ?thesis unfolding docker credentials files using Inr by auto
qed

theorem preflight_passes_iff_witness:
  "fst (preflight_main no_regex code_order sample_run (\<lambda>w path. True) ''amd64'' ''now'' sample_state sample_env (fresh [])) = Inr 2"
proof -
  obtain docker s1 where d: "probeDocker sample_env sample_run (\<lambda>w path. True) (fresh []) = (docker, s1)"
    by (metis prod.exhaust)
  have "(\<lambda>(d, s). (d_cli d, d_buildx d, d_daemon d)) (probeDocker sample_env sample_run (\<lambda>w path. True) (fresh [])) = (True, True, True)"
    "map_sum id length (computeBuilds no_regex code_order sample_state (sample_env ''DOCKER_META_TAGS'')
       (sample_env ''DOCKER_META_FLAVOR'') (sample_env ''DOCKER_META_LABELS'') ''now'') = Inr 2"
    "halfConfigured sample_state sample_env = []" "list_ex reg_enabled (st_registries sample_state)"
    "st_images sample_state \<noteq> []"
    by code_simp+
  then show ?thesis
    unfolding preflight_passes_iff [OF d, of no_regex code_order "''amd64''" "''now''" sample_state 2] using d
    by (cases "computeBuilds no_regex code_order sample_state (sample_env ''DOCKER_META_TAGS'')
       (sample_env ''DOCKER_META_FLAVOR'') (sample_env ''DOCKER_META_LABELS'') ''now''") (auto simp: list_all_iff)
qed

section \<open>Finding and running the scripts\<close>

text \<open>Locating the action is sound and complete over its candidates: the directory it reports
  is the first candidate that holds the action, and it reports none only when no candidate
  does; a usable hint in \<open>GITHUB_ACTION_PATH\<close> wins over everything else.\<close>

theorem locate_finds_first:
  assumes "locateActionDir readdir ex cwd env = d"
  shows "(d = [] \<longleftrightarrow> list_all (\<lambda>c. \<not> isActionDir ex c) (snd (locateCandidates readdir cwd env))) \<and>
     (d \<noteq> [] \<longrightarrow> isActionDir ex d \<and> (\<exists>before_d after_d. snd (locateCandidates readdir cwd env) = before_d @ d # after_d \<and>
        list_all (\<lambda>c. \<not> isActionDir ex c) before_d)) \<and>
     (\<forall>h. trim (str_or_empty (env ''GITHUB_ACTION_PATH'')) = h \<and> h \<noteq> [] \<and> isActionDir ex (clean_dir cwd h) \<longrightarrow>
        d = clean_dir cwd h)"
proof (intro conjI allI impI)
  show "d = [] \<longleftrightarrow> list_all (\<lambda>c. \<not> isActionDir ex c) (snd (locateCandidates readdir cwd env))"
    using locateActionDir_none [of readdir ex cwd env] assms by (simp add: list_all_iff)
  assume d: "d \<noteq> []"
  then show "isActionDir ex d" using locateActionDir_found [OF assms] by simp
  have "List.find (isActionDir ex) (snd (locateCandidates readdir cwd env)) = Some d"
    using assms d by (auto simp: locateActionDir_def split: option.splits)
  then obtain i where i: "i < length (snd (locateCandidates readdir cwd env))"
      "snd (locateCandidates readdir cwd env) ! i = d"
      "\<forall>j<i. \<not> isActionDir ex (snd (locateCandidates readdir cwd env) ! j)"
    by (auto simp: find_Some_iff)
  then show "\<exists>before_d after_d. snd (locateCandidates readdir cwd env) = before_d @ d # after_d \<and>
        list_all (\<lambda>c. \<not> isActionDir ex c) before_d"
    by (intro exI [of _ "take i (snd (locateCandidates readdir cwd env))"]
          exI [of _ "drop (Suc i) (snd (locateCandidates readdir cwd env))"])
      (auto simp: id_take_nth_drop [symmetric] list_all_length)
next
  fix h
  assume "trim (str_or_empty (env ''GITHUB_ACTION_PATH'')) = h \<and> h \<noteq> [] \<and> isActionDir ex (clean_dir cwd h)"
  then show "d = clean_dir cwd h" using locateActionDir_hint assms by blast
qed

theorem locate_finds_first_witness:
  "locateActionDir (\<lambda>d. None) (\<lambda>p. True) ''/'' [''GITHUB_ACTION_PATH'' \<mapsto> ''/a''] = ''/a''"
proof -
  have "clean_dir ''/'' ''/a'' = ''/a''" "trim ''/a'' = ''/a''" "isActionDir (\<lambda>p. True) ''/a''" by code_simp+
  then show ?thesis
    using locate_finds_first [of "\<lambda>d. None" "\<lambda>p. True" "''/''" "[''GITHUB_ACTION_PATH'' \<mapsto> ''/a'']"] by simp
qed

text \<open>The entry point starts at most one process: an unknown subcommand ends with status 2
  and runs nothing; when the required scripts are there, every subcommand but
  \<open>verify-action\<close> runs exactly its own program with node.\<close>

theorem dispatch_runs_one_program:
  assumes "list_all (\<lambda>f. dh_exists h (world s) (path_join [dh_here h, f])) REQUIRED_SCRIPTS"
    and "name \<noteq> ''verify-action''"
  shows "(name \<notin> set SUBCOMMANDS \<longrightarrow> dispatch h name env s = (2, s)) \<and>
     (name \<in> set SUBCOMMANDS \<longrightarrow> (\<exists>f. map_of PROGRAMS name = Some f \<and>
        log (snd (dispatch h name env s)) = log s @ [command (dh_execPath h) [path_join [dh_here h, f]]]))"
proof (intro conjI impI)
  assume "name \<in> set SUBCOMMANDS"
  moreover have "list_all (\<lambda>name. name = ''verify-action'' \<or> (case map_of PROGRAMS name of Some f \<Rightarrow> f \<in> set REQUIRED_SCRIPTS | None \<Rightarrow> False)) SUBCOMMANDS"
    by code_simp
  ultimately obtain f where f: "map_of PROGRAMS name = Some f" "f \<in> set REQUIRED_SCRIPTS"
    using assms(2) by (fastforce simp: list_all_iff split: option.splits)
  then have "dh_exists h (world s) (path_join [dh_here h, f])" using assms(1) by (simp add: list_all_iff)
  then have "dispatch h name env s = runCommand h (command (dh_execPath h) [path_join [dh_here h, f]]) (workspaceDir h env) s"
    using f(1) \<open>name \<in> set SUBCOMMANDS\<close> assms(2) by (simp add: dispatch_def runSubprocessProgram_def)
  then show "\<exists>f. map_of PROGRAMS name = Some f \<and>
        log (snd (dispatch h name env s)) = log s @ [command (dh_execPath h) [path_join [dh_here h, f]]]"
    using f(1) by (simp add: runCommand_def Let_def split_beta)
qed (simp add: dispatch_def)

definition sample_dispatch :: "unit dispatch_host" where
  "sample_dispatch = \<lparr>dh_run = (\<lambda>c w. (ok_proc True, w)), dh_exists = (\<lambda>w path. True), dh_spawn = (\<lambda>c d w. (Closed (Some 0), w)),
     dh_here = ''/x/scripts'', dh_cwd = ''/x'', dh_execPath = ''node''\<rparr>"

theorem dispatch_runs_one_program_witness:
  "log (snd (dispatch sample_dispatch ''meta'' Map.empty (fresh ()))) = [command ''node'' [''/x/scripts/meta.mjs'']]"
proof -
  have "list_all (\<lambda>f. dh_exists sample_dispatch () (path_join [dh_here sample_dispatch, f])) REQUIRED_SCRIPTS"
    "map_of PROGRAMS ''meta'' = Some ''meta.mjs''" "''meta'' \<in> set SUBCOMMANDS"
    "path_join [dh_here sample_dispatch, ''meta.mjs''] = ''/x/scripts/meta.mjs''" "dh_execPath sample_dispatch = ''node''"
    by code_simp+
  then show ?thesis using dispatch_runs_one_program [of sample_dispatch "fresh ()" "''meta''" Map.empty] by simp
qed

text \<open>An endpoint is used one way: a configured value is either offered as a mirror (whose
  expansion is stable) or as a forward proxy, never as both; an unset one as neither.\<close>

theorem endpoint_used_one_way:
  assumes "resolveEndpoint fetch manager env os = e" and "envValue env (MANAGER_PROXY_VARS manager) = c"
  shows "(c = [] \<longleftrightarrow> e_mirror e = [] \<and> e_proxy e = []) \<and>
     (c \<noteq> [] \<longrightarrow> (e_mirror e = [] \<and> e_proxy e = c) \<or>
        (\<exists>u. e_mirror e = [u] \<and> e_proxy e = [] \<and> expandEndpoint manager u os = [u]))"
proof -
  have one: "\<exists>u. expandEndpoint manager c os = [u]" if "expandEndpoint manager c os \<noteq> []"
    using that by (auto simp: expandEndpoint_def Let_def split: if_splits)
  have "expandEndpoint manager c os \<noteq> []" if "probeEndpoint fetch c manager os"
    using that by (auto simp: probeEndpoint_def split: list.splits)
  then show ?thesis using assms one expandEndpoint_idem
    by (auto simp: resolveEndpoint_def Let_def split: if_splits)
qed

theorem endpoint_used_one_way_witness:
  "e_mirror (resolveEndpoint (\<lambda>url. FetchOk True) ''npm'' [''NPM_PROXY'' \<mapsto> ''http://m/''] []) = [''http://m'']"
proof -
  have c: "envValue [''NPM_PROXY'' \<mapsto> ''http://m/''] (MANAGER_PROXY_VARS ''npm'') = ''http://m''"
    and p: "e_proxy (resolveEndpoint (\<lambda>url. FetchOk True) ''npm'' [''NPM_PROXY'' \<mapsto> ''http://m/''] []) = []"
    and x: "resolveEndpoint (\<lambda>url. FetchOk True) ''npm'' [''NPM_PROXY'' \<mapsto> ''http://m/''] [] =
      \<lparr>e_mirror = [''http://m''], e_proxy = [], e_source = ProxyAsMirror\<rparr>"
    by code_simp+
  show ?thesis using endpoint_used_one_way [OF refl c, of "\<lambda>url. FetchOk True" "[]"] x by simp
qed

end
