(* ===== verification/Summary.thy ===== *)
theory Summary
  imports Release_State
begin

text \<open>
  \<open>summary.mjs\<close>: the report of a run.  The fixed words of the report are values of a
  datatype here; everything it takes from the state is kept.
\<close>

definition resultRefs :: "run_result \<Rightarrow> string list" where
  "resultRefs result =
     (if r_published result \<noteq> [] then r_published result
      else if r_staging result \<noteq> [] then r_staging result
      else concat (map snd (r_images result)))"

datatype build_status = Promoted | ReusedStaging | StagedBuild

definition statusOf :: "run_result \<Rightarrow> build_status" where
  "statusOf result =
     (case r_builder result of
        Imagetools \<Rightarrow> Promoted
      | Buildx \<Rightarrow> if r_skipped result then ReusedStaging else StagedBuild)"

text \<open>A printed line: the head line of a result, or one of its references.\<close>

datatype summary_line =
    ResultLine string build_status "string option" string \<comment> \<open>variant, status, platforms, digest\<close>
  | RefLine string

definition resultLines :: "run_result \<Rightarrow> summary_line list" where
  "resultLines result =
     ResultLine (r_variant result) (statusOf result)
       (if r_platforms result \<noteq> [] then Some (join '','' (r_platforms result)) else None) (r_digest result) #
     map RefLine (resultRefs result)"

definition summaryLines :: "release_state \<Rightarrow> summary_line list" where
  "summaryLines state = concat (map resultLines (st_results state))"

text \<open>\<open>alpine=linux/amd64+linux/arm64\<close>; no platforms means those of the host.\<close>

datatype platform_word = HostPlatform | Platforms "string list"

definition platform_cell :: "string list \<Rightarrow> string list \<Rightarrow> platform_word" where
  "platform_cell own global =
     (let platforms = platformsFor own global in
      if platforms \<noteq> [] then Platforms platforms else HostPlatform)"

text \<open>The builds when \<open>meta\<close> has planned them (a plan is never empty), else the variants.\<close>

definition platformSummary :: "release_state \<Rightarrow> (string \<times> platform_word) list" where
  "platformSummary state =
     (let global = o_platforms (st_options state) in
      if st_builds state \<noteq> [] then map (\<lambda>b. (b_variant b, platform_cell (b_platforms b) global)) (st_builds state)
      else map (\<lambda>v. (v_name v, platform_cell (v_platforms v) global)) (st_variants state))"

datatype push_word = DryRunWord | PublishedWord | StagingWord | NotPushedWord

definition pushLine :: "release_state \<Rightarrow> push_word" where
  "pushLine state =
     (if st_dryRun state then DryRunWord
      else if list_ex (\<lambda>r. r_builder r = Imagetools) (st_results state) then PublishedWord
      else if list_ex (\<lambda>r. r_staging r \<noteq> []) (st_results state) then StagingWord
      else NotPushedWord)"

text \<open>The markdown: a header and a table with one row per reference; an empty digest or sha is
  shown as a dash.\<close>

record markdown =
  md_version :: string
  md_repo :: string
  md_tag :: string
  md_sha :: "string option"
  md_variants :: "string list"
  md_platforms :: "(string \<times> platform_word) list"
  md_push :: push_word
  md_rows :: "(string \<times> string \<times> string option) list"

definition digest_cell :: "string \<Rightarrow> string option" where
  "digest_cell digest = (if digest \<noteq> [] then Some digest else None)"

definition summaryMarkdown :: "release_state \<Rightarrow> markdown" where
  "summaryMarkdown state =
     \<lparr>md_version = st_version state, md_repo = st_repo state, md_tag = st_tag state,
      md_sha = (if st_sha state \<noteq> [] then Some (take 7 (st_sha state)) else None),
      md_variants = map v_name (st_variants state), md_platforms = platformSummary state,
      md_push = pushLine state,
      md_rows = concat (map (\<lambda>r. map (\<lambda>ref. (r_variant r, ref, digest_cell (r_digest r))) (resultRefs r))
        (st_results state))\<rparr>"

section \<open>Nothing is left out\<close>

lemma summary_rows:
  "(v, ref, d) \<in> set (md_rows (summaryMarkdown state)) \<longleftrightarrow>
   (\<exists>r \<in> set (st_results state). v = r_variant r \<and> ref \<in> set (resultRefs r) \<and> d = digest_cell (r_digest r))"
  by (auto simp: summaryMarkdown_def)

lemma summary_refs:
  "map (\<lambda>(v, ref, d). ref) (md_rows (summaryMarkdown state)) =
   concat (map (\<lambda>l. case l of RefLine ref \<Rightarrow> [ref] | _ \<Rightarrow> []) (summaryLines state))"
proof -
  have "concat (map (\<lambda>l. case l of RefLine ref \<Rightarrow> [ref] | _ \<Rightarrow> []) (map RefLine refs)) = refs" for refs
    by (induction refs) simp_all
  then have "map (\<lambda>(v, ref, d). ref) (concat (map (\<lambda>r. map (\<lambda>ref. (r_variant r, ref, digest_cell (r_digest r)))
      (resultRefs r)) rs)) =
    concat (map (\<lambda>l. case l of RefLine ref \<Rightarrow> [ref] | _ \<Rightarrow> []) (concat (map resultLines rs)))" for rs
    by (induction rs) (simp_all add: resultLines_def comp_def)
  then show ?thesis by (simp add: summaryMarkdown_def summaryLines_def)
qed

end
