(* ===== verification/Script_Main.thy ===== *)
theory Script_Main
  imports Plan_Matrix Build_Push Prepare Locate_Action Run_Dispatch Meta Summary
begin

text \<open>
  What the scripts do around their work: where the state file is, whether a script was started
  directly and with which code it ends, the step outputs (\<open>emit\<close>), the files that are read with a
  fallback, and the figures that are reported at the end.  Files are read through a parameter that
  answers \<^const>\<open>None\<close> when reading throws.
\<close>

section \<open>Starting and ending\<close>

definition statePath :: "env \<Rightarrow> string" where
  "statePath env = path_join [or_else (env ''RUNNER_TEMP'') ''/tmp'', ''docker-publish.json'']"

text \<open>\<open>IS_DIRECT\<close>: the started file is this one; \<open>realpath\<close> may throw.\<close>

definition IS_DIRECT :: "(string \<Rightarrow> string option) \<Rightarrow> string option \<Rightarrow> string \<Rightarrow> bool" where
  "IS_DIRECT realpath argv1 this =
     (str_or_empty argv1 \<noteq> [] \<and> endsWith (str_or_empty argv1) ''.mjs'' \<and>
      (case (realpath (str_or_empty argv1), realpath this) of (Some a, Some b) \<Rightarrow> a = b | _ \<Rightarrow> False))"

text \<open>The last block of a script: the exit code, when \<open>main\<close> runs at all.\<close>

definition script_exit :: "bool \<Rightarrow> 'a result \<Rightarrow> int option" where
  "script_exit direct r = (if direct then Some (case r of Inl _ \<Rightarrow> 1 | Inr _ \<Rightarrow> 0) else None)"

text \<open>The last block of \<open>run.mjs\<close>: the subcommand is the second argument.\<close>

definition run_exit :: "'w dispatch_host \<Rightarrow> bool \<Rightarrow> string option \<Rightarrow> env \<Rightarrow> 'w sys \<Rightarrow> int option \<times> 'w sys" where
  "run_exit h direct argv2 env s =
     (if direct then (let (code, s') = dispatch h (str_or_empty argv2) env s in (Some code, s')) else (None, s))"

section \<open>Reading with a fallback\<close>

definition readOsRelease :: "(string \<Rightarrow> string option) \<Rightarrow> string \<Rightarrow> (string, string) jmap" where
  "readOsRelease readFile path = (case readFile path of Some text \<Rightarrow> parseOsRelease text | None \<Rightarrow> [])"

definition last_of :: "nat \<Rightarrow> 'a list \<Rightarrow> 'a list" where
  "last_of n xs = drop (length xs - n) xs"

definition readLogTail :: "(string \<Rightarrow> string option) \<Rightarrow> nat \<Rightarrow> string \<Rightarrow> string" where
  "readLogTail readFile lines path =
     (case readFile path of
        Some text \<Rightarrow> join [newline] (last_of lines (split_on newline text))
      | None \<Rightarrow> [])"

section \<open>Step outputs\<close>

text \<open>\<open>emit\<close>: a line for the output file, when there is one, and for the standard output.\<close>

definition output_line :: "string \<times> string \<Rightarrow> string" where
  "output_line kv = fst kv @ ''='' @ snd kv @ [newline]"

record streams =
  to_file :: string
  to_stdout :: string

definition emit :: "env \<Rightarrow> string \<times> string \<Rightarrow> streams \<Rightarrow> streams" where
  "emit env kv out =
     (let line = output_line kv in
      out\<lparr>to_file := (if str_or_empty (env ''GITHUB_OUTPUT'') \<noteq> [] then to_file out @ line else to_file out),
          to_stdout := to_stdout out @ line\<rparr>)"

definition emitAll :: "env \<Rightarrow> (string \<times> string) list \<Rightarrow> streams \<Rightarrow> streams" where
  "emitAll env kvs out = fold (emit env) kvs out"

section \<open>Reports\<close>

text \<open>The line of \<open>resolve\<close> for a variant: name, Dockerfile with its target, default, platforms (none:
  the machine itself).\<close>

definition file_target :: "string \<Rightarrow> string \<Rightarrow> string" where
  "file_target dockerfile target = dockerfile @ (if target \<noteq> [] then ''#'' @ target else [])"

definition variant_note :: "build_options \<Rightarrow> variant \<Rightarrow> string \<times> string \<times> bool \<times> string" where
  "variant_note options v =
     (v_name v, file_target (v_dockerfile v) (v_target v), v_isDefault v,
      join ''+'' (platformsFor (v_platforms v) (o_platforms options)))"

text \<open>\<open>meta\<close>: the tags of every build, and how many there are on all images.\<close>

definition build_note :: "build \<Rightarrow> string \<times> bool \<times> string \<times> string list" where
  "build_note b = (b_variant b, b_isDefault b, file_target (b_dockerfile b) (b_target b), b_tagNames b)"

definition total_tags :: "build list \<Rightarrow> nat" where
  "total_tags builds = sum_list (map (\<lambda>b. sum_list (map (length \<circ> ti_tags) (b_images b))) builds)"

text \<open>\<open>build-push\<close>: the variants, those that were built, those that were reused, and whether they
  were pushed.\<close>

definition built_note :: "release_state \<Rightarrow> nat \<times> nat \<times> nat \<times> bool" where
  "built_note state =
     (let n = length (st_results state); built = length (filter (\<lambda>r. \<not> r_skipped r) (st_results state)) in
      (n, built, n - built, o_push (st_options state) \<and> \<not> st_dryRun state))"

text \<open>\<open>main\<close> of \<open>summary.mjs\<close>: the printed lines, and the file the report is appended to, if any.\<close>

definition summary_main :: "env \<Rightarrow> release_state \<Rightarrow> summary_line list \<times> (string \<times> markdown) option" where
  "summary_main env state =
     (summaryLines state,
      if str_or_empty (env ''GITHUB_STEP_SUMMARY'') \<noteq> []
      then Some (str_or_empty (env ''GITHUB_STEP_SUMMARY''), summaryMarkdown state) else None)"

section \<open>Where the action is\<close>

text \<open>\<open>main\<close> of \<open>locate-action.mjs\<close>: what is appended to the files of the outputs and of the
  environment, or the diagnosis: the hint, the workspace, every candidate with its check, and the
  listings of the workspace and of its parent.\<close>

definition listDir :: "readdir \<Rightarrow> string \<Rightarrow> string \<Rightarrow> string list" where
  "listDir readdir dir prefix =
     (case readdir dir of
        Some entries \<Rightarrow> map (\<lambda>(name, is_dir). prefix @ name @ (if is_dir then ''/'' else [])) entries
      | None \<Rightarrow> [prefix @ ''(unreadable: '' @ dir @ '')''])"

record diagnosis =
  dg_hint :: string
  dg_workspace :: string
  dg_candidates :: "(string \<times> bool) list"
  dg_inside :: "string list"
  dg_beside :: "string list"

definition locate_diagnosis :: "readdir \<Rightarrow> (string \<Rightarrow> bool) \<Rightarrow> string \<Rightarrow> env \<Rightarrow> diagnosis" where
  "locate_diagnosis readdir ex cwd env =
     (let (workspace, candidates) = locateCandidates readdir cwd env in
      \<lparr>dg_hint = str_or_empty (env ''GITHUB_ACTION_PATH''), dg_workspace = workspace,
       dg_candidates = map (\<lambda>c. (c, isActionDir ex c)) candidates,
       dg_inside = listDir readdir workspace ''  '', dg_beside = listDir readdir (dirname workspace) ''  ''\<rparr>)"

record located =
  lc_output :: string \<comment> \<open>appended to \<open>GITHUB_OUTPUT\<close>\<close>
  lc_env :: string \<comment> \<open>appended to \<open>GITHUB_ENV\<close>\<close>

definition locate_end :: "readdir \<Rightarrow> (string \<Rightarrow> bool) \<Rightarrow> string \<Rightarrow> env \<Rightarrow> diagnosis + located" where
  "locate_end readdir ex cwd env =
     (let dir = locateActionDir readdir ex cwd env in
      if dir = [] then Inl (locate_diagnosis readdir ex cwd env)
      else Inr
        \<lparr>lc_output = (if str_or_empty (env ''GITHUB_OUTPUT'') \<noteq> [] then output_line (''forgejo_dir'', dir) else []),
         lc_env = (if str_or_empty (env ''GITHUB_ENV'') \<noteq> []
           then output_line (''FORGEJO_DIR'', dir) @ output_line (''DOCKER_VARIANTS_FILE'', path_join [dir, ''variants.txt''])
           else [])\<rparr>)"

section \<open>Facts\<close>

text \<open>The diagnosis names no candidate that would have done.\<close>

lemma diagnosis_all_fail:
  "locate_end readdir ex cwd env = Inl d \<Longrightarrow> \<not> list_ex snd (dg_candidates d)"
  using locateActionDir_none [of readdir ex cwd env]
  by (auto simp: locate_end_def locate_diagnosis_def Let_def list_ex_iff split_beta split: if_splits)

lemma last_of_length: "length (last_of n xs) = min n (length xs)"
  by (simp add: last_of_def)

lemma last_of_suffix: "\<exists>ys. xs = ys @ last_of n xs"
  unfolding last_of_def by (metis append_take_drop_id)

lemma built_note_reused:
  "built_note state = (n, built, reused, pushed) \<Longrightarrow>
   built + reused = n \<and> reused = length (filter r_skipped (st_results state))"
  using sum_length_filter_compl [of r_skipped "st_results state"] by (auto simp: built_note_def Let_def)

text \<open>What a step reads back from the output file: the text before and after the first equals sign
  of every line.\<close>

definition read_output :: "string \<Rightarrow> string \<times> string" where
  "read_output line = (takeWhile (\<lambda>c. c \<noteq> CHR ''='') line, tl (dropWhile (\<lambda>c. c \<noteq> CHR ''='') line))"

definition read_outputs :: "string \<Rightarrow> (string \<times> string) list" where
  "read_outputs text = map read_output (filter (\<lambda>l. l \<noteq> []) (split_on newline text))"

definition output_ok :: "string \<times> string \<Rightarrow> bool" where
  "output_ok kv \<longleftrightarrow> newline \<notin> set (fst kv) \<and> CHR ''='' \<notin> set (fst kv) \<and> newline \<notin> set (snd kv)"

lemma split_on_line: "newline \<notin> set l \<Longrightarrow> split_on newline (l @ newline # rest) = l # split_on newline rest"
  by (induction l) auto

lemma read_output_line: "CHR ''='' \<notin> set k \<Longrightarrow> read_output (k @ ''='' @ v) = (k, v)"
  unfolding read_output_def by (induction k) auto

lemma read_outputs_lines:
  "list_all output_ok kvs \<Longrightarrow> read_outputs (concat (map output_line kvs)) = kvs"
proof (induction kvs)
  case Nil
  then show ?case by (simp add: read_outputs_def)
next
  case (Cons kv kvs)
  obtain k v where kv: "kv = (k, v)" by (cases kv)
  have ok: "newline \<notin> set (k @ ''='' @ v)" "CHR ''='' \<notin> set k" using Cons.prems by (auto simp: kv output_ok_def)
  have "split_on newline (concat (map output_line (kv # kvs))) =
      (k @ ''='' @ v) # split_on newline (concat (map output_line kvs))"
    using split_on_line [OF ok(1)] by (simp add: kv output_line_def)
  then show ?case using Cons read_output_line [OF ok(2)] by (simp add: read_outputs_def kv)
qed

lemma emitAll_file:
  "str_or_empty (env ''GITHUB_OUTPUT'') \<noteq> [] \<Longrightarrow>
   to_file (emitAll env kvs out) = to_file out @ concat (map output_line kvs)"
  "to_stdout (emitAll env kvs out) = to_stdout out @ concat (map output_line kvs)"
  by (induction kvs arbitrary: out) (simp_all add: emitAll_def emit_def Let_def)

text \<open>The outputs a step emits are the ones the workflow reads.\<close>

theorem outputs_read_back:
  assumes "list_all output_ok kvs" "str_or_empty (env ''GITHUB_OUTPUT'') \<noteq> []" "to_file out = []"
  shows "read_outputs (to_file (emitAll env kvs out)) = kvs"
  using assms by (simp add: emitAll_file read_outputs_lines)

lemma variant_ok_no_newline: "variant_ok v \<Longrightarrow> newline \<notin> set (v_name v)"
  using variant_name_tag [of "v_name v"]
  by (auto simp: variant_ok_def list_all_iff tag_char_def char_class_defs dest!: bspec [of _ _ newline])

text \<open>The environment later steps read back holds the directory and the file of the variant table.\<close>

lemma located_read_back:
  assumes "locate_end readdir ex cwd env = Inr l" "str_or_empty (env ''GITHUB_ENV'') \<noteq> []"
    and "dir = locateActionDir readdir ex cwd env" "newline \<notin> set dir" "newline \<notin> set (path_join [dir, ''variants.txt''])"
  shows "read_outputs (lc_env l) = [(''FORGEJO_DIR'', dir), (''DOCKER_VARIANTS_FILE'', path_join [dir, ''variants.txt''])]"
proof -
  let ?kvs = "[(''FORGEJO_DIR'', dir), (''DOCKER_VARIANTS_FILE'', path_join [dir, ''variants.txt''])]"
  have "lc_env l = concat (map output_line ?kvs)"
    using assms(1-3) by (auto simp: locate_end_def Let_def split: if_splits)
  moreover have "list_all output_ok ?kvs" using assms(4,5) by (simp add: output_ok_def)
  ultimately show ?thesis using read_outputs_lines [of ?kvs] by simp
qed

text \<open>The planned matrix keeps these conditions, so the jobs start from the names that were planned.\<close>

lemma namesOutput_line:
  assumes "list_all (\<lambda>v. newline \<notin> set (v_name v)) vs"
  shows "newline \<notin> set (namesOutput vs)" "newline \<notin> set (matrixJson vs)"
proof -
  have j: "newline \<notin> set sep \<Longrightarrow> list_all (\<lambda>x. newline \<notin> set x) xs \<Longrightarrow> newline \<notin> set (join sep xs)" for sep xs
    by (induction sep xs rule: join.induct) auto
  show "newline \<notin> set (namesOutput vs)"
    using assms unfolding namesOutput_def by (intro j) (auto simp: list_all_iff)
  have "newline \<notin> set (join '','' (map (\<lambda>v. json_name (v_name v)) vs))"
    using assms by (intro j) (auto simp: list_all_iff json_name_def)
  then show "newline \<notin> set (matrixJson vs)" by (simp add: matrixJson_def json_name_def)
qed

theorem matrix_outputs_read_back:
  assumes "matrix_main readInputs readFile env = Inr kvs" "str_or_empty (env ''GITHUB_OUTPUT'') \<noteq> []" "to_file out = []"
  shows "read_outputs (to_file (emitAll env kvs out)) = kvs"
proof -
  obtain vs ws where plan: "planMatrix readInputs readFile [] env = Inr (vs, ws)"
    and kvs: "kvs = [(''variants'', namesOutput vs), (''matrix'', matrixJson vs)]"
    using assms(1) by (auto simp: matrix_main_def)
  have "list_all (\<lambda>v. newline \<notin> set (v_name v)) vs"
    using planMatrix_ok(3) [OF plan] variant_ok_no_newline by (auto simp: list_all_iff)
  from namesOutput_line [OF this] have ok: "list_all output_ok kvs" by (simp add: kvs output_ok_def)
  show ?thesis using ok assms(2,3) by (rule outputs_read_back)
qed

end
