(* ===== verification/Web_Base.thy ===== *)
theory Web_Base
  imports JS_Number
begin

text \<open>
  Shared vocabulary of the web client (\<open>web/src\<close>): JSON values, what a server answers, what
  a handler does besides changing its state (requests, toasts, navigation).  The fixed prose of
  the interface is not kept: a fixed text is a value of \<open>prose\<close>.
\<close>

section \<open>JSON values\<close>

datatype (plugins only: code size) json =
    JNull
  | JBool bool
  | JNum int
  | JStr string
  | JArr "json list"
  | JObj "(string \<times> json) list"

section \<open>Effects of a handler\<close>

text \<open>The fixed texts, and the texts that put a fixed prefix before a variable part.\<close>

datatype (plugins only: code size) prose =
    Done | TestSent | TooManyRequests | ServerFailed | DemoOnly | StreamLost | StreamConnected | NoPersistence | Resent
  | ChannelUpdated | ChannelCreated | GroupMismatch | BadJson | NeedBotToken | NeedBotMessage | BotError
  | ChatIdRead | ErrorWord | Created | Updated | Copied | CopyFailed | LoggedIn | LoggedOut | Registered
  | NeedTurnstile | PasswordShort | PasswordMismatch | FormatFailed | TokenReset | DefaultPassword
  | NewVersion | UpToDate | MessageSent | ServerUnreachable | JsonEmpty | JsonInvalid | JsonNoObject
  | BadExtractRule | BadConstructRule | EmptyScript | BadParameter | SettingsSaved | WeChatBound
  | EmailBound | CodeSent | ResetMailSent | SessionExpired | UserUpdated | UserCreated | GitHubBound

datatype notice = Fixed prose | Prefixed prose string | Plain string

datatype toast_kind = ErrorToast | WarningToast | SuccessToast | InfoToast

text \<open>A toast and the seconds it stays; \<^const>\<open>None\<close> is the default of the toast library.\<close>

record toast =
  t_kind :: toast_kind
  t_note :: notice
  t_seconds :: "rat option"

datatype effect =
    Toast toast
  | Redirect string \<comment> \<open>\<open>window.location.href = ...\<close>\<close>
  | Navigate string \<comment> \<open>the router\<close>
  | OpenPage string
  | StoreItem string string \<comment> \<open>\<open>localStorage\<close>\<close>
  | RemoveItem string
  | CopyText string \<comment> \<open>to the clipboard\<close>

datatype request =
    Get string
  | Delete string
  | Post string json
  | Put string json

text \<open>\<open>res.data\<close>: on success its \<open>data\<close>, otherwise its \<open>message\<close> (possibly undefined).\<close>

datatype 'a reply = Success 'a | Failure "string option"

section \<open>Toasts\<close>

text \<open>\<open>constants/toast.constants.js\<close>, in milliseconds.\<close>

definition SUCCESS_TIMEOUT :: nat where "SUCCESS_TIMEOUT = 500"
definition INFO_TIMEOUT :: nat where "INFO_TIMEOUT = 3000"
definition ERROR_TIMEOUT :: nat where "ERROR_TIMEOUT = 5000"
definition WARNING_TIMEOUT :: nat where "WARNING_TIMEOUT = 10000"
definition NOTICE_TIMEOUT :: nat where "NOTICE_TIMEOUT = 20000"

definition seconds_of :: "nat \<Rightarrow> rat" where
  "seconds_of ms = of_nat ms / 1000"

definition error_toast :: "notice \<Rightarrow> effect" where
  "error_toast n = Toast \<lparr>t_kind = ErrorToast, t_note = n, t_seconds = Some (seconds_of ERROR_TIMEOUT)\<rparr>"

definition showWarning :: "notice \<Rightarrow> effect" where
  "showWarning n = Toast \<lparr>t_kind = WarningToast, t_note = n, t_seconds = Some (seconds_of WARNING_TIMEOUT)\<rparr>"

definition showSuccess :: "notice \<Rightarrow> effect" where
  "showSuccess n = Toast \<lparr>t_kind = SuccessToast, t_note = n, t_seconds = Some (seconds_of SUCCESS_TIMEOUT)\<rparr>"

definition showInfo :: "notice \<Rightarrow> effect" where
  "showInfo n = Toast \<lparr>t_kind = InfoToast, t_note = n, t_seconds = Some (seconds_of INFO_TIMEOUT)\<rparr>"

definition showNotice :: "notice \<Rightarrow> effect" where
  "showNotice n = Toast \<lparr>t_kind = InfoToast, t_note = n, t_seconds = Some 0\<rparr>"

text \<open>What \<open>showError\<close> may be given: nothing, a text, a fixed text, or an exception.\<close>

record exn =
  x_name :: string
  x_message :: string
  x_status :: "int option" \<comment> \<open>\<open>error.response?.status\<close>\<close>

datatype thrown = NoError | TextError notice | Exception exn

text \<open>An exception without a message prints as its name.\<close>

definition showError :: "thrown \<Rightarrow> effect list" where
  "showError e =
     (case e of
        NoError \<Rightarrow> []
      | TextError (Plain t) \<Rightarrow> if t = [] then [] else [error_toast (Prefixed ErrorWord t)]
      | TextError n \<Rightarrow> [error_toast n]
      | Exception x \<Rightarrow>
          if x_message x = [] then [error_toast (Prefixed ErrorWord (x_name x))]
          else if x_name x = ''AxiosError'' then
            (if x_status x = Some 401 then [Redirect ''/login?expired=true'']
             else if x_status x = Some 429 then [error_toast (Fixed TooManyRequests)]
             else if x_status x = Some 500 then [error_toast (Fixed ServerFailed)]
             else if x_status x = Some 405
             then [Toast \<lparr>t_kind = InfoToast, t_note = Fixed DemoOnly, t_seconds = None\<rparr>]
             else [error_toast (Prefixed ErrorWord (x_message x))])
          else [error_toast (Prefixed ErrorWord (x_message x))])"

text \<open>\<open>showError(message)\<close> for the message of a reply, and for a fixed text.\<close>

definition showMessage :: "string option \<Rightarrow> effect list" where
  "showMessage m = showError (case m of None \<Rightarrow> NoError | Some t \<Rightarrow> TextError (Plain t))"

definition showProse :: "prose \<Rightarrow> effect list" where
  "showProse p = showError (TextError (Fixed p))"

lemma showMessage_simps [simp]:
  "showMessage None = []" "showMessage (Some []) = []"
  "t \<noteq> [] \<Longrightarrow> showMessage (Some t) = [error_toast (Prefixed ErrorWord t)]"
  by (simp_all add: showMessage_def showError_def)

lemma showProse_simp [simp]: "showProse p = [error_toast (Fixed p)]"
  by (simp add: showProse_def showError_def)

lemma success_not_error [simp]:
  "showSuccess n \<noteq> error_toast m" "error_toast m \<noteq> showSuccess n" "showWarning n \<noteq> error_toast m"
  "showInfo n \<noteq> error_toast m"
  by (simp_all add: showSuccess_def error_toast_def showWarning_def showInfo_def)

section \<open>Numbers and hexadecimal text\<close>

definition digit_char :: "nat \<Rightarrow> char" where
  "digit_char d = char_of (if d < 10 then 48 + d else 87 + d)"

fun nat_text_fuel :: "nat \<Rightarrow> nat \<Rightarrow> string \<Rightarrow> string" where
  "nat_text_fuel 0 n acc = acc"
| "nat_text_fuel (Suc f) n acc =
     (if n < 10 then digit_char n # acc else nat_text_fuel f (n div 10) (digit_char (n mod 10) # acc))"

text \<open>\<open>String(n)\<close> of a natural number: it has at most \<open>Suc n\<close> digits.\<close>

definition nat_text :: "nat \<Rightarrow> string" where
  "nat_text n = nat_text_fuel (Suc n) n []"

definition int_text :: "int \<Rightarrow> string" where
  "int_text i = (if i < 0 then CHR ''-'' # nat_text (nat (- i)) else nat_text (nat i))"

text \<open>The fuel is enough: the text reads back as the number, so different numbers have different
  texts.\<close>

lemma digit_nat_char: "d < 10 \<Longrightarrow> digit_nat (digit_char d) = d"
  by (simp add: digit_nat_def digit_char_def of_char_of)

lemma nat_text_fuel_reads:
  "n < f \<Longrightarrow> nat_of_digits 0 (nat_text_fuel f n acc) = nat_of_digits n acc"
proof (induction f arbitrary: n acc)
  case (Suc f)
  show ?case
  proof (cases "n < 10")
    case False
    then have "n div 10 < f" using Suc.prems by (simp add: div_less_dividend less_le_trans)
    from Suc.IH [OF this] show ?thesis using False by (simp add: digit_nat_char)
  qed (simp add: digit_nat_char)
qed simp

lemma nat_text_reads: "nat_of_digits 0 (nat_text n) = n"
  by (simp add: nat_text_def nat_text_fuel_reads del: nat_text_fuel.simps)

lemma nat_text_inj: "nat_text m = nat_text n \<longleftrightarrow> m = n"
  by (metis nat_text_reads)

end
