(* ===== verification/Web_Api.thy ===== *)
theory Web_Api
  imports Web_Base
begin

text \<open>
  \<open>helpers/api.js\<close>, \<open>helpers/loader.js\<close>, \<open>helpers/auth-header.js\<close> and the parts of
  \<open>helpers/utils.js\<close> that talk to the server or read who is logged in.  Times are in
  milliseconds.
\<close>

section \<open>The response interceptor and the rate limit\<close>

definition RATE_LIMIT_COOLDOWN_MS :: int where
  "RATE_LIMIT_COOLDOWN_MS = 210 * 1000"

text \<open>The module keeps one variable, \<open>rateLimitedUntil\<close>, initially \<open>0\<close>.\<close>

definition isRateLimited :: "int \<Rightarrow> int \<Rightarrow> bool" where
  "isRateLimited now until \<longleftrightarrow> now < until"

definition getRateLimitRemainSeconds :: "int \<Rightarrow> int \<Rightarrow> int" where
  "getRateLimitRemainSeconds now until = max 0 \<lceil>of_int (until - now) / (1000 :: rat)\<rceil>"

text \<open>What axios hands over: a response, or an error.\<close>

datatype 'a outcome = Responded "'a reply" | Rejected exn

definition intercept :: "int \<Rightarrow> 'a outcome \<Rightarrow> int \<Rightarrow> 'a reply \<times> effect list \<times> int" where
  "intercept now outcome until =
     (case outcome of
        Responded r \<Rightarrow> (r, [], until)
      | Rejected x \<Rightarrow>
          (Failure None, showError (Exception x),
           if x_status x = Some 429 then now + RATE_LIMIT_COOLDOWN_MS else until))"

text \<open>A session: outcomes with the time they arrive.\<close>

fun interceptAll :: "(int \<times> 'a outcome) list \<Rightarrow> int \<Rightarrow> int" where
  "interceptAll [] until = until"
| "interceptAll ((now, outcome) # rest) until = interceptAll rest (snd (snd (intercept now outcome until)))"

section \<open>Who is logged in\<close>

text \<open>The user that \<open>login\<close> stored in \<open>localStorage\<close>; the parts that are read here.\<close>

record stored_user =
  su_role :: int
  su_token :: string

definition isAdmin :: "stored_user option \<Rightarrow> bool" where
  "isAdmin user = (case user of None \<Rightarrow> False | Some u \<Rightarrow> su_role u \<ge> 10)"

definition isRoot :: "stored_user option \<Rightarrow> bool" where
  "isRoot user = (case user of None \<Rightarrow> False | Some u \<Rightarrow> su_role u \<ge> 100)"

definition authHeader :: "stored_user option \<Rightarrow> (string \<times> string) list" where
  "authHeader user =
     (case user of
        None \<Rightarrow> []
      | Some u \<Rightarrow> if su_token u \<noteq> [] then [(''Authorization'', ''Bearer '' @ su_token u)] else [])"

section \<open>Loading the user and the channels\<close>

text \<open>The parts of the user that the client reads.\<close>

record loaded_user =
  lu_username :: string
  lu_channel :: string
  lu_token :: string

definition loadUser_request :: request where
  "loadUser_request = Get ''/api/user/self''"

definition loadUser :: "loaded_user reply \<Rightarrow> loaded_user option \<times> effect list" where
  "loadUser reply =
     (case reply of
        Success data \<Rightarrow>
          let data = (if lu_channel data = [] then data\<lparr>lu_channel := ''email''\<rparr> else data);
              data = (if lu_token data = '' '' then data\<lparr>lu_token := []\<rparr> else data)
          in (Some data, [])
      | Failure m \<Rightarrow> (None, showMessage m))"

record brief_channel =
  bc_name :: string
  bc_description :: "string option" \<comment> \<open>\<^const>\<open>None\<close>: the fixed text for an empty description\<close>

record channel_option =
  co_key :: string
  co_text :: string
  co_value :: string
  co_description :: "string option"

definition loadUserChannels_request :: request where
  "loadUserChannels_request = Get ''/api/channel?brief=true''"

definition channelOption :: "brief_channel \<Rightarrow> channel_option" where
  "channelOption c =
     \<lparr>co_key = bc_name c, co_text = bc_name c, co_value = bc_name c,
      co_description = (if bc_description c = Some [] then None else bc_description c)\<rparr>"

definition loadUserChannels :: "brief_channel list reply \<Rightarrow> channel_option list option \<times> effect list" where
  "loadUserChannels reply =
     (case reply of
        Success data \<Rightarrow> (Some (map channelOption data), [])
      | Failure m \<Rightarrow> (None, showMessage m))"

section \<open>The test message\<close>

text \<open>\<open>testChannel\<close>: the title, description and content are fixed texts; the description
  names the channel when one is given.\<close>

datatype test_text = TestTitle | TestDescription | TestChannelDescription string | TestContent

record test_push =
  tp_url :: string
  tp_token :: string
  tp_channel :: string
  tp_title :: test_text
  tp_description :: test_text
  tp_content :: test_text

definition testChannel_request :: "string \<Rightarrow> string \<Rightarrow> string \<Rightarrow> test_push" where
  "testChannel_request username token channel =
     \<lparr>tp_url = ''/push/'' @ username @ ''/'', tp_token = token, tp_channel = channel, tp_title = TestTitle,
      tp_description = (if channel = [] then TestDescription else TestChannelDescription channel),
      tp_content = TestContent\<rparr>"

definition testChannel_done :: "unit reply \<Rightarrow> effect list" where
  "testChannel_done reply =
     (case reply of Success _ \<Rightarrow> [showSuccess (Fixed TestSent)] | Failure m \<Rightarrow> showMessage m)"

section \<open>The rate limit window\<close>

lemma intercept_failure: "fst (intercept now (Rejected x) until) = Failure None"
  by (simp add: intercept_def)

lemma remain_zero_iff: "getRateLimitRemainSeconds now until = 0 \<longleftrightarrow> \<not> isRateLimited now until"
proof -
  have "getRateLimitRemainSeconds now until = 0 \<longleftrightarrow> \<lceil>of_int (until - now) / (1000 :: rat)\<rceil> \<le> 0"
  proof -
    have "max 0 c = 0 \<longleftrightarrow> c \<le> 0" for c :: int by (simp add: max_def)
    then show ?thesis unfolding getRateLimitRemainSeconds_def .
  qed
  also have "\<dots> \<longleftrightarrow> of_int (until - now) \<le> (0 :: rat)" unfolding ceiling_le_zero by (simp add: divide_le_0_iff)
  finally show ?thesis unfolding isRateLimited_def by (simp add: not_less)
qed

text \<open>The seconds shown are the remaining milliseconds, rounded up.\<close>

lemma remain_bounds:
  assumes "isRateLimited now until"
  shows "(getRateLimitRemainSeconds now until - 1) * 1000 < until - now"
    and "until - now \<le> getRateLimitRemainSeconds now until * 1000"
proof -
  define d where "d = until - now"
  have "0 < d" using assms by (simp add: isRateLimited_def d_def)
  define c where "c = \<lceil>of_int d / (1000 :: rat)\<rceil>"
  have lower: "of_int d / 1000 \<le> (of_int c :: rat)" and upper: "of_int c - 1 < of_int d / (1000 :: rat)"
    unfolding c_def by (rule le_of_int_ceiling, linarith)
  then have "(of_int d :: rat) \<le> of_int (c * 1000)" "of_int ((c - 1) * 1000) < (of_int d :: rat)"
    by (simp_all add: field_simps)
  then have bounds: "d \<le> c * 1000" "(c - 1) * 1000 < d" by (simp_all only: of_int_le_iff of_int_less_iff)
  then have "getRateLimitRemainSeconds now until = c"
    using \<open>0 < d\<close> unfolding getRateLimitRemainSeconds_def d_def [symmetric] c_def [symmetric] by linarith
  then show "(getRateLimitRemainSeconds now until - 1) * 1000 < until - now"
    and "until - now \<le> getRateLimitRemainSeconds now until * 1000" using bounds by (simp_all add: d_def)
qed

text \<open>The cooldown in force is the one of the last 429.\<close>

lemma interceptAll_append: "interceptAll (xs @ ys) until = interceptAll ys (interceptAll xs until)"
  by (induction xs until rule: interceptAll.induct) simp_all

lemma interceptAll_keeps:
  "\<forall>(t, o1) \<in> set xs. \<forall>x. o1 = Rejected x \<longrightarrow> x_status x \<noteq> Some 429 \<Longrightarrow> interceptAll xs until = until"
  by (induction xs until rule: interceptAll.induct) (auto simp: intercept_def split: outcome.splits)

end
