(* ===== verification/Web_Helpers.thy ===== *)
theory Web_Helpers
  imports Web_Api "HOL-Library.Word"
begin

text \<open>
  The remaining helpers and constants of the web client: \<open>helpers/utils.js\<close>, \<open>format.js\<close>,
  \<open>language.js\<close>, \<open>theme.js\<close>, \<open>responsive.js\<close> and the reducers under \<open>context\<close>.
\<close>

section \<open>Small utilities\<close>

definition removeTrailingSlash :: "string \<Rightarrow> string" where
  "removeTrailingSlash url = (if endsWith url ''/'' then butlast url else url)"

definition verifyJSON :: "(string \<Rightarrow> string + json) \<Rightarrow> string \<Rightarrow> bool" where
  "verifyJSON parse s = (case parse s of Inl _ \<Rightarrow> False | Inr _ \<Rightarrow> True)"

text \<open>The fields of a \<open>Date\<close> in local time (the time zone belongs to the host).\<close>

record date_fields =
  df_year :: nat
  df_month0 :: nat
  df_day :: nat
  df_hour :: nat
  df_minute :: nat
  df_second :: nat

definition pad2 :: "nat \<Rightarrow> string" where
  "pad2 n = (let s = nat_text n in if length s = 1 then CHR ''0'' # s else s)"

definition timestamp2string :: "(int \<Rightarrow> date_fields) \<Rightarrow> int \<Rightarrow> string" where
  "timestamp2string date timestamp =
     (let d = date (timestamp * 1000) in
      nat_text (df_year d) @ ''-'' @ pad2 (df_month0 d + 1) @ ''-'' @ pad2 (df_day d) @ '' '' @
      pad2 (df_hour d) @ '':'' @ pad2 (df_minute d) @ '':'' @ pad2 (df_second d))"

text \<open>\<open>byte.toString(16).padStart(2, '0')\<close>, and upper case.\<close>

definition hex_pair :: "8 word \<Rightarrow> string" where
  "hex_pair b = [digit_char (unat b div 16), digit_char (unat b mod 16)]"

definition upper_char :: "char \<Rightarrow> char" where
  "upper_char c = (if is_lower c then char_of (code c - 32) else c)"

definition generateToken :: "8 word list \<Rightarrow> string" where
  "generateToken bytes = map upper_char (concat (map hex_pair bytes))"

text \<open>\<open>copy\<close>: which way the text went to the clipboard; each way may throw.\<close>

datatype copy_way = ViaClipboard | ViaTextarea

definition copy_way :: "bool \<Rightarrow> copy_way" where
  "copy_way hasClipboard = (if hasClipboard then ViaClipboard else ViaTextarea)"

definition copy_text :: "bool \<Rightarrow> (copy_way \<Rightarrow> string \<Rightarrow> bool) \<Rightarrow> string \<Rightarrow> bool" where
  "copy_text hasClipboard succeeds text = succeeds (copy_way hasClipboard) text"

section \<open>Formatting\<close>

datatype format_result = FormatOk string | FormatEmpty | FormatError string

definition formatJSON :: "(string \<Rightarrow> string + json) \<Rightarrow> (json \<Rightarrow> string + string) \<Rightarrow> string \<Rightarrow> format_result" where
  "formatJSON parse stringify source =
     (if trim source = [] then FormatEmpty
      else case parse source of
        Inl e \<Rightarrow> FormatError e
      | Inr parsed \<Rightarrow> (case stringify parsed of Inl e \<Rightarrow> FormatError e | Inr value \<Rightarrow> FormatOk value))"

text \<open>\<open>beautify\<close> is the loaded library; loading it or running it may throw.\<close>

definition formatJavaScript :: "(string \<Rightarrow> string + string) \<Rightarrow> string \<Rightarrow> format_result" where
  "formatJavaScript beautify source =
     (if trim source = [] then FormatEmpty
      else case beautify source of Inl e \<Rightarrow> FormatError e | Inr value \<Rightarrow> FormatOk value)"

datatype formatter = JsonFormatter | JavaScriptFormatter

definition formatterOf :: "string \<Rightarrow> formatter option" where
  "formatterOf language =
     (if language = ''json'' then Some JsonFormatter
      else if language = ''javascript'' then Some JavaScriptFormatter else None)"

section \<open>Detecting the language\<close>

fun tails :: "'a list \<Rightarrow> 'a list list" where
  "tails [] = [[]]"
| "tails (x # xs) = (x # xs) # tails xs"

definition word_char :: "char \<Rightarrow> bool" where
  "word_char c \<longleftrightarrow> is_digit c \<or> is_lower c \<or> is_upper c \<or> c = CHR ''_''"

text \<open>\<open>^[[{][\s\S]*["'][^"']*["']\s*:\<close>\<close>

definition any_quote :: "char \<Rightarrow> bool" where
  "any_quote c \<longleftrightarrow> code c = 34 \<or> code c = 39"

definition quoted_key_at :: "string \<Rightarrow> bool" where
  "quoted_key_at t =
     (case t of [] \<Rightarrow> False | c # r \<Rightarrow> any_quote c \<and>
        (case dropWhile (\<lambda>x. \<not> any_quote x) r of [] \<Rightarrow> False
         | _ # r' \<Rightarrow> (case dropWhile js_ws r' of [] \<Rightarrow> False | x # _ \<Rightarrow> x = CHR '':'')))"

definition looks_like_json :: "string \<Rightarrow> bool" where
  "looks_like_json v = (case v of [] \<Rightarrow> False
     | c # r \<Rightarrow> (c = CHR ''['' \<or> code c = 123) \<and> list_ex quoted_key_at (tails r))"

text \<open>\<open>^<[a-zA-Z!/?]\<close>\<close>

definition looks_like_html :: "string \<Rightarrow> bool" where
  "looks_like_html v = (case v of a # b # _ \<Rightarrow>
       a = CHR ''<'' \<and> (is_lower b \<or> is_upper b \<or> b \<in> {CHR ''!'', CHR ''/'', CHR ''?''})
     | _ \<Rightarrow> False)"

text \<open>\<open>\b(word|...)\b\<close>: the alternatives at a position, with a word boundary on both sides.\<close>

definition js_words :: "string list" where
  "js_words = [''function'', ''const'', ''let'', ''var'', ''return'', ''require'', ''import'', ''export'',
     ''=>'', ''new'']"

definition boundary :: "char option \<Rightarrow> char option \<Rightarrow> bool" where
  "boundary a b \<longleftrightarrow> (case a of None \<Rightarrow> False | Some c \<Rightarrow> word_char c) \<noteq> (case b of None \<Rightarrow> False | Some c \<Rightarrow> word_char c)"

definition hd_opt :: "'a list \<Rightarrow> 'a option" where
  "hd_opt xs = (case xs of [] \<Rightarrow> None | x # _ \<Rightarrow> Some x)"

fun word_from :: "char option \<Rightarrow> string \<Rightarrow> bool" where
  "word_from prev t =
     (list_ex (\<lambda>w. startsWith t w \<and> boundary prev (hd_opt t) \<and>
        boundary (Some (last w)) (hd_opt (drop (length w) t))) js_words \<or>
      (case t of [] \<Rightarrow> False | c # r \<Rightarrow> word_from (Some c) r))"

definition looks_like_javascript :: "string \<Rightarrow> bool" where
  "looks_like_javascript v = word_from None v"

text \<open>The Markdown shapes: a line that starts one, or a link anywhere.\<close>

definition ws_then :: "string \<Rightarrow> bool" where
  "ws_then t = (case t of [] \<Rightarrow> False | c # _ \<Rightarrow> js_ws c)"

definition md_marker :: "string \<Rightarrow> bool" where
  "md_marker t \<longleftrightarrow>
     (let h = takeWhile (\<lambda>c. c = CHR ''#'') t; d = takeWhile is_digit t; r = dropWhile is_digit t in
      (h \<noteq> [] \<and> length h \<le> 6 \<and> ws_then (drop (length h) t)) \<or>
      (case t of [] \<Rightarrow> False | c # cs \<Rightarrow> c \<in> {CHR ''-'', CHR ''*'', CHR ''+'', CHR ''>''} \<and> ws_then cs) \<or>
      (d \<noteq> [] \<and> (case r of [] \<Rightarrow> False | c # cs \<Rightarrow> c = CHR ''.'' \<and> ws_then cs)) \<or>
      startsWith t [CHR 0x60, CHR 0x60, CHR 0x60] \<or> startsWith t ''~~~'')"

text \<open>\<open>^\s{0,3}\<close>: up to three white space characters (line ends count) before the marker.\<close>

fun md_block_at :: "nat \<Rightarrow> string \<Rightarrow> bool" where
  "md_block_at 0 t = md_marker t"
| "md_block_at (Suc n) t = (md_marker t \<or> (case t of [] \<Rightarrow> False | c # r \<Rightarrow> js_ws c \<and> md_block_at n r))"

fun line_starts :: "bool \<Rightarrow> string \<Rightarrow> string list" where
  "line_starts start [] = (if start then [[]] else [])"
| "line_starts start (c # cs) = (if start then [c # cs] else []) @ line_starts (is_line_end c) cs"

text \<open>\<open>\[[^\]]*\]\([^)]*\)\<close>\<close>

definition md_link_at :: "string \<Rightarrow> bool" where
  "md_link_at t =
     (case t of [] \<Rightarrow> False | c # r \<Rightarrow> c = CHR ''['' \<and>
        (case dropWhile (\<lambda>x. x \<noteq> CHR '']'') r of
           _ # p # r' \<Rightarrow> p = CHR ''('' \<and> CHR '')'' \<in> set r'
         | _ \<Rightarrow> False))"

definition looks_like_markdown :: "string \<Rightarrow> bool" where
  "looks_like_markdown v \<longleftrightarrow> list_ex (md_block_at 3) (line_starts True v) \<or> list_ex md_link_at (tails v)"

definition detectLanguage :: "(string \<Rightarrow> string + json) \<Rightarrow> string \<Rightarrow> string \<Rightarrow> string" where
  "detectLanguage parse text expected =
     (let value = trim text; fallback = (if expected \<noteq> [] then expected else ''plaintext'') in
      if value = [] then fallback
      else if (startsWith value [CHR 0x7B] \<or> startsWith value ''['') \<and> (case parse value of Inr _ \<Rightarrow> True | Inl _ \<Rightarrow> False)
      then ''json''
      else if looks_like_json value then ''json''
      else if looks_like_html value then ''html''
      else if looks_like_javascript value then ''javascript''
      else if looks_like_markdown value then ''markdown''
      else fallback)"

text \<open>The languages that have a label, and the colours of the labels.\<close>

definition LANGUAGE_COLORS :: "(string \<times> string) list" where
  "LANGUAGE_COLORS = [(''json'', ''blue''), (''javascript'', ''gold''), (''markdown'', ''green''),
     (''html'', ''orange''), (''plaintext'', ''default'')]"

section \<open>Theme\<close>

datatype theme_mode = Light | Dark | System

fun mode_of :: "string \<Rightarrow> theme_mode option" where
  "mode_of s = (if s = ''light'' then Some Light else if s = ''dark'' then Some Dark
     else if s = ''system'' then Some System else None)"

fun mode_name :: "theme_mode \<Rightarrow> string" where
  "mode_name Light = ''light''"
| "mode_name Dark = ''dark''"
| "mode_name System = ''system''"

text \<open>The storage: reading or writing it may throw (\<open>usable\<close> is false); an item may be absent.\<close>

record storage =
  usable :: bool
  theme_item :: "string option"

definition readStoredMode :: "storage \<Rightarrow> theme_mode" where
  "readStoredMode st =
     (if \<not> usable st then System
      else case theme_item st of None \<Rightarrow> System
        | Some s \<Rightarrow> (case mode_of s of None \<Rightarrow> System | Some m \<Rightarrow> m))"

definition storeMode :: "theme_mode \<Rightarrow> storage \<Rightarrow> storage" where
  "storeMode m st = (if usable st then st\<lparr>theme_item := Some (mode_name m)\<rparr> else st)"

text \<open>\<open>matchMedia\<close>: \<^const>\<open>None\<close> when the browser has none (or it throws).\<close>

definition systemPrefersDark :: "bool option \<Rightarrow> bool" where
  "systemPrefersDark matchDark = (matchDark = Some True)"

definition resolveMode :: "bool option \<Rightarrow> theme_mode \<Rightarrow> theme_mode" where
  "resolveMode matchDark mode =
     (if mode = Light \<or> mode = Dark then mode else if systemPrefersDark matchDark then Dark else Light)"

definition meta_color :: "theme_mode \<Rightarrow> string" where
  "meta_color resolved = (if resolved = Dark then ''#1a1a1a'' else ''#ffffff'')"

record theme_tokens =
  colorBgLayout :: string
  colorBgContainer :: string
  colorBorder :: string
  colorBorderSecondary :: string

fun THEME_TOKENS :: "theme_mode \<Rightarrow> theme_tokens option" where
  "THEME_TOKENS Light = Some \<lparr>colorBgLayout = ''#f5f6f8'', colorBgContainer = ''#ffffff'',
     colorBorder = ''#d9d9d9'', colorBorderSecondary = ''#f0f0f0''\<rparr>"
| "THEME_TOKENS Dark = Some \<lparr>colorBgLayout = ''#0d0d0d'', colorBgContainer = ''#1a1a1a'',
     colorBorder = ''#424242'', colorBorderSecondary = ''#2e2e2e''\<rparr>"
| "THEME_TOKENS System = None"

definition MOBILE_BREAKPOINT :: nat where "MOBILE_BREAKPOINT = 768"

definition matchesMobile :: "bool option \<Rightarrow> bool" where
  "matchesMobile matchMobile = (matchMobile = Some True)"

section \<open>Reducers\<close>

datatype 'u user_action = Login 'u | Logout | OtherUserAction

definition userReducer :: "'u option \<Rightarrow> 'u user_action \<Rightarrow> 'u option" where
  "userReducer user action = (case action of Login u \<Rightarrow> Some u | Logout \<Rightarrow> None | OtherUserAction \<Rightarrow> user)"

datatype 's status_action = SetStatus 's | UnsetStatus | OtherStatusAction

definition statusReducer :: "'s option \<Rightarrow> 's status_action \<Rightarrow> 's option" where
  "statusReducer status action =
     (case action of SetStatus s \<Rightarrow> Some s | UnsetStatus \<Rightarrow> None | OtherStatusAction \<Rightarrow> status)"

datatype theme_action = SetTheme theme_mode | OtherThemeAction

definition themeReducer :: "theme_mode \<Rightarrow> theme_action \<Rightarrow> theme_mode" where
  "themeReducer mode action = (case action of SetTheme m \<Rightarrow> m | OtherThemeAction \<Rightarrow> mode)"

text \<open>The theme provider: the stored mode follows the state after every action.\<close>

definition themeStep :: "theme_action \<Rightarrow> theme_mode \<times> storage \<Rightarrow> theme_mode \<times> storage" where
  "themeStep action = (\<lambda>(mode, st). let mode' = themeReducer mode action in
     (mode', if mode' = mode then st else storeMode mode' st))"

definition themeStart :: "storage \<Rightarrow> theme_mode \<times> storage" where
  "themeStart st = (let mode = readStoredMode st in (mode, storeMode mode st))"

section \<open>Tokens can be read back\<close>

fun token_bytes :: "string \<Rightarrow> 8 word list" where
  "token_bytes (a # b # cs) = word_of_nat (16 * hex_value a + hex_value b) # token_bytes cs"
| "token_bytes _ = []"

lemma code_char_of: "n < 256 \<Longrightarrow> code (char_of n) = n"
  by (simp add: of_char_of)

text \<open>The upper case digits: their code and what they stand for.\<close>

lemma hex_digit_code:
  assumes "d < 16"
  shows "code (upper_char (digit_char d)) = (if d < 10 then 48 + d else 55 + d)"
proof (cases "d < 10")
  case True
  then have "code (digit_char d) = 48 + d" by (simp add: digit_char_def code_char_of)
  then show ?thesis using True by (simp add: upper_char_def is_lower_def)
next
  case False
  then have "code (digit_char d) = 87 + d" using assms by (simp add: digit_char_def code_char_of)
  then show ?thesis using False assms by (simp add: upper_char_def is_lower_def code_char_of)
qed

lemma hex_digit_value: "d < 16 \<Longrightarrow> hex_value (upper_char (digit_char d)) = d"
  by (simp add: hex_value_def is_digit_def is_lower_def hex_digit_code)

definition hex_upper :: "char \<Rightarrow> bool" where
  "hex_upper c \<longleftrightarrow> is_digit c \<or> is_upper c \<and> code c \<le> 70"

lemma hex_digit_class: "d < 16 \<Longrightarrow> hex_upper (upper_char (digit_char d))"
  by (simp add: hex_upper_def is_digit_def is_upper_def hex_digit_code)

lemma byte_digits: "unat (b :: 8 word) div 16 < 16" "unat b mod 16 < 16"
  using unsigned_less [of b, where ?'a = nat] by simp_all

lemma generateToken_Cons:
  "generateToken (b # bs) =
   upper_char (digit_char (unat b div 16)) # upper_char (digit_char (unat b mod 16)) # generateToken bs"
  by (simp add: generateToken_def hex_pair_def)

lemma generateToken_read: "token_bytes (generateToken bs) = bs"
proof (induction bs)
  case (Cons b bs)
  have "16 * (unat b div 16) + unat b mod 16 = unat b" by simp
  then show ?case using Cons by (simp add: generateToken_Cons hex_digit_value byte_digits)
qed (simp add: generateToken_def)

lemma generateToken_shape:
  "length (generateToken bs) = 2 * length bs"
  "list_all hex_upper (generateToken bs)"
proof -
  show "length (generateToken bs) = 2 * length bs"
    by (induction bs) (simp_all add: generateToken_Cons, simp add: generateToken_def)
  show "list_all hex_upper (generateToken bs)"
    by (induction bs) (simp_all add: generateToken_Cons hex_digit_class byte_digits, simp add: generateToken_def)
qed

section \<open>The theme is persistent\<close>

definition theme_synced :: "theme_mode \<times> storage \<Rightarrow> bool" where
  "theme_synced = (\<lambda>(mode, st). readStoredMode st = (if usable st then mode else System))"

lemma mode_of_name [simp]: "mode_of (mode_name m) = Some m"
  by (cases m) simp_all

lemma readStoredMode_store: "usable st \<Longrightarrow> readStoredMode (storeMode m st) = m"
  by (simp add: readStoredMode_def storeMode_def del: mode_of.simps)

lemma themeStart_synced: "theme_synced (themeStart st)"
  by (cases "usable st") (auto simp: themeStart_def theme_synced_def readStoredMode_store Let_def,
      simp_all add: storeMode_def readStoredMode_def)

lemma themeStep_synced: "theme_synced s \<Longrightarrow> theme_synced (themeStep a s)"
  by (cases s; cases "usable (snd s)")
    (auto simp: themeStep_def theme_synced_def readStoredMode_store Let_def, simp_all add: storeMode_def readStoredMode_def)

lemma resolveMode_resolved: "resolveMode m mode \<noteq> System" "THEME_TOKENS (resolveMode m mode) \<noteq> None"
  by (cases mode; simp add: resolveMode_def)+

section \<open>The detected language is a known one\<close>

lemma detectLanguage_known:
  "expected \<in> insert [] (set (map fst LANGUAGE_COLORS)) \<Longrightarrow>
   detectLanguage parse text expected \<in> set (map fst LANGUAGE_COLORS)"
  by (auto simp: detectLanguage_def LANGUAGE_COLORS_def Let_def)

lemma formatJSON_verify:
  "trim s \<noteq> [] \<Longrightarrow> (\<And>j. \<exists>t. stringify j = Inr t) \<Longrightarrow>
   (\<exists>t. formatJSON parse stringify s = FormatOk t) \<longleftrightarrow> verifyJSON parse s"
  by (auto simp: formatJSON_def verifyJSON_def split: sum.splits) (metis sum.simps(4))

end
