(* ===== verification/Web_Navigation.thy ===== *)
theory Web_Navigation
  imports Web_Helpers
begin

text \<open>
  \<open>constants/navigation.js\<close>, \<open>constants/channel.constants.js\<close>, the routes and start-up of
  \<open>App.jsx\<close>, \<open>PrivateRoute.jsx\<close>, \<open>Header.jsx\<close>, \<open>BottomNav.jsx\<close> and the swipe gesture of
  \<open>SwipeNav.jsx\<close>.  Labels and icons are not kept.
\<close>

section \<open>The navigation items\<close>

record nav_item =
  n_to :: string
  n_admin :: bool

definition nav :: "string \<Rightarrow> bool \<Rightarrow> nav_item" where
  "nav to admin = \<lparr>n_to = to, n_admin = admin\<rparr>"

definition NAV_ITEMS :: "nav_item list" where
  "NAV_ITEMS = [nav ''/'' False, nav ''/message'' False, nav ''/editor'' False, nav ''/channel'' False,
     nav ''/webhook'' False, nav ''/user'' True, nav ''/setting'' False, nav ''/about'' False]"

definition isNavItemActive :: "string \<Rightarrow> string \<Rightarrow> bool" where
  "isNavItemActive to pathname =
     (if to = ''/'' then pathname = ''/'' else pathname = to \<or> startsWith pathname (to @ ''/''))"

fun find_index :: "('a \<Rightarrow> bool) \<Rightarrow> 'a list \<Rightarrow> nat option" where
  "find_index P [] = None"
| "find_index P (x # xs) = (if P x then Some 0 else map_option Suc (find_index P xs))"

text \<open>\<open>findIndex\<close>, with \<^const>\<open>None\<close> for \<open>-1\<close>.\<close>

definition exactNavIndex :: "string \<Rightarrow> nav_item list \<Rightarrow> nat option" where
  "exactNavIndex pathname items = find_index (\<lambda>item. n_to item = pathname) items"

text \<open>Only an administrator sees the items for administrators.\<close>

definition visibleItems :: "stored_user option \<Rightarrow> nav_item list" where
  "visibleItems user = filter (\<lambda>item. \<not> (n_admin item \<and> \<not> isAdmin user)) NAV_ITEMS"

section \<open>The swipe gesture\<close>

definition SWIPE_MIN_DISTANCE :: rat where "SWIPE_MIN_DISTANCE = 60"
definition SWIPE_MAX_DURATION :: rat where "SWIPE_MAX_DURATION = 800"
definition SWIPE_DIRECTION_RATIO :: rat where "SWIPE_DIRECTION_RATIO = 3 / 2"

record touch =
  tx :: rat
  ty :: rat
  ttime :: rat

text \<open>\<open>handleTouchStart\<close>: \<open>n\<close> touches, \<open>ignored\<close> when the target is inside an ignored area.\<close>

definition handleTouchStart :: "nat option \<Rightarrow> nat \<Rightarrow> bool \<Rightarrow> touch \<Rightarrow> touch option" where
  "handleTouchStart activeIndex n ignored t =
     (if activeIndex = None \<or> n \<noteq> 1 then None else if ignored then None else Some t)"

text \<open>\<open>handleTouchEnd\<close>: the page to navigate to, and the remembered start is cleared.\<close>

definition handleTouchEnd ::
    "touch option \<Rightarrow> nat \<Rightarrow> touch \<Rightarrow> nat option \<Rightarrow> nav_item list \<Rightarrow> string option \<times> touch option" where
  "handleTouchEnd start n t activeIndex items =
     (case start of
        None \<Rightarrow> (None, None)
      | Some s \<Rightarrow>
          if n \<noteq> 1 then (None, None)
          else let deltaX = tx t - tx s; deltaY = ty t - ty s; duration = ttime t - ttime s in
            if SWIPE_MAX_DURATION < duration \<or> \<bar>deltaX\<bar> < SWIPE_MIN_DISTANCE \<or>
               \<bar>deltaX\<bar> < \<bar>deltaY\<bar> * SWIPE_DIRECTION_RATIO
            then (None, None)
            else case activeIndex of
                None \<Rightarrow> (None, None)
              | Some i \<Rightarrow>
                  if deltaX < 0
                  then (if Suc i < length items then (Some (n_to (items ! Suc i)), None) else (None, None))
                  else (if i = 0 \<or> length items \<le> i - 1 then (None, None)
                        else (Some (n_to (items ! (i - 1))), None)))"

definition handleTouchCancel :: "touch option" where
  "handleTouchCancel = None"

section \<open>The bottom navigation\<close>

text \<open>The scroll position that brings the active item into view; \<^const>\<open>None\<close> when it is in view.\<close>

definition bottomScroll :: "rat \<Rightarrow> rat \<Rightarrow> rat \<Rightarrow> rat \<Rightarrow> rat \<Rightarrow> rat option" where
  "bottomScroll cl cr el er scrollLeft =
     (let edgePadding = 8;
          left = (if el < cl + edgePadding then scrollLeft - (cl + edgePadding - el)
                  else if cr - edgePadding < er then scrollLeft + (er - (cr - edgePadding))
                  else scrollLeft)
      in if left \<noteq> scrollLeft then Some (max 0 left) else None)"

section \<open>The channel types\<close>

definition CHANNEL_OPTIONS :: "(string \<times> string) list" where
  "CHANNEL_OPTIONS =
     [(''email'', ''#4285f4''), (''test'', ''#2cbb00''), (''corp_app'', ''#5fc9ec''), (''corp'', ''#019d82''),
      (''lark'', ''#00d6b9''), (''lark_app'', ''#0d71fe''), (''ding'', ''#007fff''), (''bark'', ''#ff3b30''),
      (''client'', ''#121212''), (''telegram'', ''#29a9ea''), (''discord'', ''#404eed''), (''one_bot'', ''#76FF03''),
      (''custom'', ''#cc33ff''), (''group'', ''#FF9800''), (''tencent_alarm'', ''#00a4ff''), (''none'', ''#808080'')]"

section \<open>Routes\<close>

datatype page =
    HomePage | UserPage | EditUserPage | AddUserPage | ResetConfirmPage | ChannelPage | EditChannelPage
  | WebhookPage | EditWebhookPage | MessagePage | EditMessagePage | LoginPage | RegisterPage | ResetPage
  | GitHubPage | SettingPage | AboutPage | NotFoundPage

record route =
  rt_path :: string
  rt_private :: bool
  rt_page :: page

definition routes :: "route list" where
  "routes = map (\<lambda>(p, private, page). \<lparr>rt_path = p, rt_private = private, rt_page = page\<rparr>)
     [(''/'', False, HomePage), (''/user'', True, UserPage), (''/user/edit/:id'', False, EditUserPage),
      (''/user/edit'', False, EditUserPage), (''/user/add'', False, AddUserPage),
      (''/user/reset'', False, ResetConfirmPage), (''/channel'', True, ChannelPage),
      (''/channel/edit/:id'', False, EditChannelPage), (''/channel/add'', False, EditChannelPage),
      (''/webhook'', True, WebhookPage), (''/webhook/edit/:id'', False, EditWebhookPage),
      (''/webhook/add'', False, EditWebhookPage), (''/message'', True, MessagePage),
      (''/editor'', True, EditMessagePage), (''/editor/:id'', True, EditMessagePage),
      (''/login'', False, LoginPage), (''/register'', False, RegisterPage), (''/reset'', False, ResetPage),
      (''/oauth/github'', False, GitHubPage), (''/setting'', True, SettingPage), (''/about'', False, AboutPage),
      (''*'', False, NotFoundPage)]"

datatype shown = Shows page | RedirectsToLogin string

text \<open>\<open>PrivateRoute\<close>: without a stored user the page is replaced by the login page, which is
  told where to come back to.\<close>

definition PrivateRoute :: "string option \<Rightarrow> string \<Rightarrow> page \<Rightarrow> shown" where
  "PrivateRoute user location children =
     (if str_or_empty user = [] then RedirectsToLogin location else Shows children)"

definition showRoute :: "string option \<Rightarrow> string \<Rightarrow> route \<Rightarrow> shown" where
  "showRoute user location r =
     (if rt_private r then PrivateRoute user location (rt_page r) else Shows (rt_page r))"

section \<open>Start-up and logging out\<close>

record server_status =
  ss_version :: string
  ss_footer_html :: string
  ss_home_page_link :: string

text \<open>\<open>loadStatus\<close>: the stored items, and the notice of a newer version.\<close>

definition loadStatus ::
    "(server_status \<Rightarrow> string) \<Rightarrow> string \<Rightarrow> server_status reply \<Rightarrow> server_status status_action option \<times> effect list" where
  "loadStatus stringify appVersion reply =
     (case reply of
        Success data \<Rightarrow>
          (Some (SetStatus data),
           [StoreItem ''status'' (stringify data), StoreItem ''footer_html'' (ss_footer_html data),
            StoreItem ''home_page_link'' (ss_home_page_link data)] @
           (if ss_version data \<noteq> appVersion \<and> ss_version data \<noteq> ''v0.0.0'' \<and> appVersion \<noteq> []
            then [showNotice (Prefixed NewVersion (ss_version data))] else []))
      | Failure m \<Rightarrow> (None, showProse ServerUnreachable))"

definition loadStoredUser :: "'u option \<Rightarrow> 'u user_action option" where
  "loadStoredUser user = map_option Login user"

definition logout_request :: request where
  "logout_request = Get ''/api/user/logout''"

text \<open>Whatever the server answers.\<close>

definition logout_done :: "'a reply \<Rightarrow> 'u user_action \<times> effect list" where
  "logout_done reply = (Logout, [showSuccess (Fixed LoggedOut), RemoveItem ''user'', Navigate ''/login''])"

section \<open>Facts about the navigation\<close>

lemma find_index_Some:
  "find_index P xs = Some i \<Longrightarrow> i < length xs \<and> P (xs ! i) \<and> (\<forall>j < i. \<not> P (xs ! j))"
proof (induction xs arbitrary: i)
  case (Cons x xs)
  then show ?case by (cases i) (auto simp: less_Suc_eq_0_disj split: if_splits)
qed simp

lemma find_index_nth:
  "distinct (map f xs) \<Longrightarrow> i < length xs \<Longrightarrow> find_index (\<lambda>x. f x = f (xs ! i)) xs = Some i"
proof (induction xs arbitrary: i)
  case (Cons x xs)
  then show ?case by (cases i) auto
qed simp

lemma visibleItems_distinct: "distinct (map n_to (visibleItems user))"
proof -
  have "distinct (map n_to NAV_ITEMS)" by code_simp
  then show ?thesis unfolding visibleItems_def by (rule distinct_map_filter)
qed

text \<open>A path below two items would start with the names of both.\<close>

lemma startsWith_both: "startsWith p a \<Longrightarrow> startsWith p b \<Longrightarrow> startsWith a b \<or> startsWith b a"
  unfolding startsWith_def by (metis le_cases min_def take_take)

lemma nav_prefix_free:
  "list_all (\<lambda>i. list_all (\<lambda>j. n_to i = n_to j \<or> n_to i = ''/'' \<or> n_to j = ''/'' \<or>
     \<not> startsWith (n_to i @ ''/'') (n_to j @ ''/'')) NAV_ITEMS) NAV_ITEMS"
  by (simp add: NAV_ITEMS_def nav_def startsWith_def)

lemma nav_slash: "list_all (\<lambda>i. n_to i = ''/'' \<or> \<not> startsWith ''/'' (n_to i @ ''/'') \<and> n_to i \<noteq> []) NAV_ITEMS"
  by code_simp

lemma isNavItemActive_unique:
  assumes "i \<in> set NAV_ITEMS" "j \<in> set NAV_ITEMS" "isNavItemActive (n_to i) p" "isNavItemActive (n_to j) p"
  shows "n_to i = n_to j"
proof -
  have below: "startsWith (p @ ''/'') (n_to k @ ''/'')" if "isNavItemActive (n_to k) p" "n_to k \<noteq> ''/''" for k
    using that by (auto simp: isNavItemActive_def startsWith_iff)
  have not_root: False if "k \<in> set NAV_ITEMS" "isNavItemActive (n_to k) ''/''" "n_to k \<noteq> ''/''" for k
    using that nav_slash by (auto simp: isNavItemActive_def list_all_iff)
  show ?thesis
  proof (cases "n_to i = ''/'' \<or> n_to j = ''/''")
    case True
    then have "p = ''/''" using assms(3,4) by (auto simp: isNavItemActive_def)
    then have "n_to i = ''/''" "n_to j = ''/''"
      using not_root [OF assms(1)] not_root [OF assms(2)] assms(3,4) by auto
    then show ?thesis by simp
  next
    case False
    then have "startsWith (n_to i @ ''/'') (n_to j @ ''/'') \<or> startsWith (n_to j @ ''/'') (n_to i @ ''/'')"
      using startsWith_both [OF below [OF assms(3)] below [OF assms(4)]] by blast
    then show ?thesis
      using nav_prefix_free [unfolded list_all_iff, THEN bspec, OF assms(1), THEN bspec, OF assms(2)]
        nav_prefix_free [unfolded list_all_iff, THEN bspec, OF assms(2), THEN bspec, OF assms(1)] False
      by argo
  qed
qed

end
