(* ===== verification/Paged_Table.thy ===== *)
theory Paged_Table
  imports Web_Navigation "HOL-Library.Multiset"
begin

text \<open>
  What the table components share: rows that are loaded page by page, searched, sorted and
  marked as deleted.  Every handler is given the answer of its request; handlers run one at a
  time (the interleavings of \<open>MessagesTable\<close> have a theory of their own).
\<close>

definition ITEMS_PER_PAGE :: nat where "ITEMS_PER_PAGE = 10"

record 'r table =
  rows :: "'r list"
  loading :: bool
  activePage :: nat
  searchKeyword :: string
  searching :: bool

definition initialTable :: "'r table" where
  "initialTable = \<lparr>rows = [], loading = True, activePage = 1, searchKeyword = [], searching = False\<rparr>"

text \<open>The list of open requests of a page without the one that was just answered.\<close>

definition drop_at :: "nat \<Rightarrow> 'a list \<Rightarrow> 'a list" where
  "drop_at k xs = take k xs @ drop (Suc k) xs"

section \<open>Loading and paging\<close>

definition listRequest :: "string \<Rightarrow> nat \<Rightarrow> request" where
  "listRequest path startIdx = Get (path @ ''?p='' @ nat_text startIdx)"

definition loadRows :: "nat \<Rightarrow> 'r list reply \<Rightarrow> 'r table \<Rightarrow> 'r table \<times> effect list" where
  "loadRows startIdx reply t =
     (case reply of
        Success data \<Rightarrow> (t\<lparr>rows := (if startIdx = 0 then data else rows t @ data), loading := False\<rparr>, [])
      | Failure m \<Rightarrow> (t\<lparr>loading := False\<rparr>, showMessage m))"

text \<open>\<open>Math.ceil(rows.length / ITEMS_PER_PAGE)\<close>\<close>

definition filledPages :: "nat \<Rightarrow> nat" where
  "filledPages n = (n + ITEMS_PER_PAGE - 1) div ITEMS_PER_PAGE"

definition totalPages :: "nat \<Rightarrow> nat" where
  "totalPages n = filledPages n + (if n mod ITEMS_PER_PAGE = 0 then 1 else 0)"

text \<open>\<open>onPaginationChange\<close>: the offset that is requested first, if any, and the page after it.\<close>

definition pageRequest :: "nat \<Rightarrow> 'r table \<Rightarrow> nat option" where
  "pageRequest page t = (if page = filledPages (length (rows t)) + 1 then Some (page - 1) else None)"

definition onPaginationChange :: "nat \<Rightarrow> 'r list reply \<Rightarrow> 'r table \<Rightarrow> 'r table \<times> effect list" where
  "onPaginationChange page reply t =
     (let (t1, es) = (case pageRequest page t of Some p \<Rightarrow> loadRows p reply t | None \<Rightarrow> (t, [])) in
      (t1\<lparr>activePage := page\<rparr>, es))"

text \<open>The rows a page shows: a slice, without the rows marked as deleted.\<close>

definition pageSlice :: "nat \<Rightarrow> 'r list \<Rightarrow> 'r list" where
  "pageSlice page xs = take ITEMS_PER_PAGE (drop ((page - 1) * ITEMS_PER_PAGE) xs)"

definition pagedRows :: "('r \<Rightarrow> bool) \<Rightarrow> 'r table \<Rightarrow> 'r list" where
  "pagedRows deleted t = filter (\<lambda>r. \<not> deleted r) (pageSlice (activePage t) (rows t))"

section \<open>Searching\<close>

definition handleKeywordChange :: "string \<Rightarrow> 'r table \<Rightarrow> 'r table" where
  "handleKeywordChange value t = t\<lparr>searchKeyword := trim value\<rparr>"

definition searchRequest :: "string \<Rightarrow> string \<Rightarrow> 'r table \<Rightarrow> request" where
  "searchRequest listPath searchPath t =
     (if searchKeyword t = [] then listRequest listPath 0
      else Get (searchPath @ ''?keyword='' @ searchKeyword t))"

definition searchRows :: "'r list reply \<Rightarrow> 'r table \<Rightarrow> 'r table \<times> effect list" where
  "searchRows reply t =
     (if searchKeyword t = [] then
        (let (t1, es) = loadRows 0 reply t in (t1\<lparr>activePage := 1\<rparr>, es))
      else case reply of
          Success data \<Rightarrow> (t\<lparr>rows := data, activePage := 1, searching := False\<rparr>, [])
        | Failure m \<Rightarrow> (t\<lparr>searching := False\<rparr>, showMessage m))"

section \<open>Sorting\<close>

text \<open>\<open>field\<close> is a column as text; \<open>lc\<close> is \<open>localeCompare\<close>.  When the first row stays the
  first one the order is reversed.\<close>

definition sortRows ::
    "(string \<Rightarrow> string \<Rightarrow> int) \<Rightarrow> ('r \<Rightarrow> int) \<Rightarrow> ('r \<Rightarrow> string) \<Rightarrow> 'r table \<Rightarrow> 'r table" where
  "sortRows lc rid field t =
     (if rows t = [] then t
      else let sorted = sort_by (\<lambda>a b. lc (field a) (field b) \<le> 0) (rows t) in
        t\<lparr>rows := (if rid (hd sorted) = rid (hd (rows t)) then rev sorted else sorted), loading := False\<rparr>)"

section \<open>Changing one row\<close>

text \<open>\<open>findIndex\<close> by id, then the row there is changed; \<^const>\<open>None\<close> when there is no such row
  (the handler then throws).\<close>

definition changeRow :: "('r \<Rightarrow> int) \<Rightarrow> int \<Rightarrow> ('r \<Rightarrow> 'r) \<Rightarrow> 'r list \<Rightarrow> 'r list option" where
  "changeRow rid i f xs =
     (case find_index (\<lambda>r. rid r = i) xs of
        None \<Rightarrow> None
      | Some k \<Rightarrow> Some (xs[k := f (xs ! k)]))"

section \<open>Columns, and the cards of the mobile layout\<close>

record column =
  c_key :: string
  c_sortable :: bool

definition columns_of :: "string list \<Rightarrow> column list" where
  "columns_of keys = map (\<lambda>k. \<lparr>c_key = k, c_sortable = True\<rparr>) keys @ [\<lparr>c_key = ''action'', c_sortable = False\<rparr>]"

text \<open>\<open>MobileCardList.jsx\<close>: the head, the extra, the fields and the actions of a card.\<close>

record mobile_card =
  k_primary :: "column option"
  k_secondary :: "column option"
  k_fields :: "column list"
  k_actions :: "column option"

definition mobileCard :: "column list \<Rightarrow> string \<Rightarrow> string \<Rightarrow> string \<Rightarrow> mobile_card" where
  "mobileCard columns primaryKey secondaryKey actionsKey =
     \<lparr>k_primary = List.find (\<lambda>c. c_key c = primaryKey) columns,
      k_secondary = List.find (\<lambda>c. c_key c = secondaryKey) columns,
      k_fields = filter (\<lambda>c. c_key c \<noteq> primaryKey \<and> c_key c \<noteq> secondaryKey \<and> c_key c \<noteq> actionsKey) columns,
      k_actions = List.find (\<lambda>c. c_key c = actionsKey) columns\<rparr>"

definition cardColumns :: "mobile_card \<Rightarrow> column list" where
  "cardColumns k = (case k_primary k of Some c \<Rightarrow> [c] | None \<Rightarrow> []) @
     (case k_secondary k of Some c \<Rightarrow> [c] | None \<Rightarrow> []) @ k_fields k @
     (case k_actions k of Some c \<Rightarrow> [c] | None \<Rightarrow> [])"

definition sortItems :: "column list \<Rightarrow> string list" where
  "sortItems columns = map c_key (filter c_sortable columns)"

text \<open>\<open>handleSort\<close>: choosing an item sorts by that column when it is sortable.\<close>

definition handleSort :: "column list \<Rightarrow> (string \<Rightarrow> 'r table \<Rightarrow> 'r table) \<Rightarrow> string \<Rightarrow> 'r table \<Rightarrow> 'r table" where
  "handleSort columns sorter key t =
     (case List.find (\<lambda>c. c_key c = key) (filter c_sortable columns) of Some c \<Rightarrow> sorter (c_key c) t | None \<Rightarrow> t)"

section \<open>Pages\<close>

lemma filledPages_bounds: "n \<le> filledPages n * ITEMS_PER_PAGE" "filledPages n * ITEMS_PER_PAGE < n + ITEMS_PER_PAGE"
  unfolding filledPages_def ITEMS_PER_PAGE_def by presburger+

lemma pageSlice_concat: "concat (map (\<lambda>p. pageSlice (Suc p) xs) [0..<n]) = take (n * ITEMS_PER_PAGE) xs"
proof (induction n)
  case (Suc n)
  have "take (n * ITEMS_PER_PAGE) xs @ take ITEMS_PER_PAGE (drop (n * ITEMS_PER_PAGE) xs) =
      take (n * ITEMS_PER_PAGE + ITEMS_PER_PAGE) xs" by (rule take_add [symmetric])
  then show ?case using Suc by (simp add: pageSlice_def add.commute)
qed simp

text \<open>The filled pages, one after the other, are the rows.\<close>

lemma pages_cover: "concat (map (\<lambda>p. pageSlice (Suc p) xs) [0..<filledPages (length xs)]) = xs"
  using filledPages_bounds(1) [of "length xs"] by (simp add: pageSlice_concat)

text \<open>A page that is offered and requested continues exactly where the rows end.\<close>

lemma pageRequest_offset:
  assumes "pageRequest page t = Some p" "page \<le> totalPages (length (rows t))"
  shows "p * ITEMS_PER_PAGE = length (rows t)"
proof -
  have "length (rows t) mod ITEMS_PER_PAGE = 0" "p = filledPages (length (rows t))"
    using assms by (auto simp: pageRequest_def totalPages_def split: if_splits)
  then show ?thesis unfolding filledPages_def ITEMS_PER_PAGE_def by presburger
qed

section \<open>Changing a row\<close>

lemma find_index_None: "find_index P xs = None \<longleftrightarrow> (\<forall>x \<in> set xs. \<not> P x)"
  by (induction xs) auto

lemma changeRow_None: "changeRow rid i f xs = None \<longleftrightarrow> i \<notin> rid ` set xs"
proof (cases "find_index (\<lambda>r. rid r = i) xs")
  case None
  then have "changeRow rid i f xs = None" by (simp add: changeRow_def)
  moreover have "i \<notin> rid ` set xs" using None by (auto simp: find_index_None)
  ultimately show ?thesis by simp
next
  case (Some k)
  then have "k < length xs" "rid (xs ! k) = i" using find_index_Some by fastforce+
  then show ?thesis using Some by (auto simp: changeRow_def intro!: image_eqI [of _ _ "xs ! k"])
qed

lemma changeRow_map:
  assumes "changeRow rid i f xs = Some ys" "distinct (map rid xs)"
  shows "ys = map (\<lambda>r. if rid r = i then f r else r) xs"
proof -
  obtain k where k: "find_index (\<lambda>r. rid r = i) xs = Some k" "ys = xs[k := f (xs ! k)]"
    using assms(1) by (auto simp: changeRow_def split: option.splits)
  from find_index_Some [OF k(1)] have at: "k < length xs" "rid (xs ! k) = i" by auto
  have "rid (xs ! j) = i \<longleftrightarrow> j = k" if "j < length xs" for j
    using nth_eq_iff_index_eq [OF assms(2), of j k] that at by simp
  then show ?thesis unfolding k(2) using at by (auto intro!: nth_equalityI simp: nth_list_update)
qed

section \<open>Sorting is a rearrangement\<close>

lemma mset_insert_by: "mset (insert_by b x xs) = add_mset x (mset xs)"
  by (induction xs) auto

lemma mset_sort_by: "mset (sort_by b xs) = mset xs"
  by (induction xs) (simp_all add: sort_by_Cons mset_insert_by)

lemma sortRows_mset: "mset (rows (sortRows lc rid field t)) = mset (rows t)"
  by (simp add: sortRows_def mset_sort_by Let_def)

lemma sortRows_sorted:
  assumes total: "\<And>a b. lc a b \<le> 0 \<or> lc b a \<le> 0" and trans: "\<And>a b c. lc a b \<le> 0 \<Longrightarrow> lc b c \<le> 0 \<Longrightarrow> lc a c \<le> 0"
  shows "sorted_wrt (\<lambda>a b. lc (field a) (field b) \<le> 0) (rows (sortRows lc rid field t)) \<or>
     sorted_wrt (\<lambda>a b. lc (field b) (field a) \<le> 0) (rows (sortRows lc rid field t))"
proof (cases "rows t = []")
  case True
  then show ?thesis by (simp add: sortRows_def)
next
  case False
  have "sorted_wrt (\<lambda>a b. lc (field a) (field b) \<le> 0) (sort_by (\<lambda>a b. lc (field a) (field b) \<le> 0) (rows t))"
    by (rule sorted_sort_by [where A = UNIV]) (use total trans in blast)+
  then show ?thesis using False by (auto simp: sortRows_def Let_def sorted_wrt_rev)
qed

section \<open>Cards show every column\<close>

lemma filter_key: "distinct (map c_key cs) \<Longrightarrow>
   filter (\<lambda>c. c_key c = k) cs = (case List.find (\<lambda>c. c_key c = k) cs of Some c \<Rightarrow> [c] | None \<Rightarrow> [])"
proof (induction cs)
  case (Cons c cs)
  show ?case
  proof (cases "c_key c = k")
    case True
    then have "filter (\<lambda>c. c_key c = k) cs = []" using Cons.prems unfolding filter_empty_conv
      by (metis distinct.simps(2) imageI list.set_map list.simps(9))
    then show ?thesis using True by simp
  next
    case False
    then show ?thesis using Cons by simp
  qed
qed simp

lemma mobileCard_mset:
  assumes "distinct (map c_key columns)" "distinct [p, s, a]"
  shows "mset (cardColumns (mobileCard columns p s a)) = mset columns"
proof -
  have "mset columns = filter_mset (\<lambda>c. c_key c = p) (mset columns) + filter_mset (\<lambda>c. c_key c = s) (mset columns) +
      filter_mset (\<lambda>c. c_key c \<noteq> p \<and> c_key c \<noteq> s \<and> c_key c \<noteq> a) (mset columns) +
      filter_mset (\<lambda>c. c_key c = a) (mset columns)"
    using assms(2) by (intro multiset_eqI) (auto simp: not_in_iff)
  then show ?thesis
    unfolding cardColumns_def mobileCard_def mobile_card.simps filter_key [OF assms(1), symmetric] by (simp add: add_ac)
qed

end
