(* ===== verification/Messages_Table.thy ===== *)
theory Messages_Table
  imports Paged_Table
begin

text \<open>
  \<open>MessagesTable.jsx\<close> as a state machine: requests are in flight and may be answered in any
  order, the message stream delivers messages and breaks, a timer ticks.  An event is one of
  these, or a user action; a step runs the handler up to its next \<open>await\<close>.
\<close>

section \<open>The state\<close>

record message_row =
  mr_id :: int
  mr_title :: string
  mr_channel :: string
  mr_timestamp :: int
  mr_status :: int

text \<open>What a list request does after its own work: nothing, show a page, or (after a
  deletion) clear the loading flag.\<close>

datatype after_load = ThenNothing | ThenPage nat | ThenIdle

datatype pending =
    PendingLoad nat nat after_load \<comment> \<open>sequence number, offset\<close>
  | PendingDelete int
  | PendingSearch
  | PendingView int
  | PendingResend int

record messages_state =
  ms_messages :: "message_row list"
  ms_loading :: bool
  ms_autoRefresh :: bool
  ms_shownSeconds :: int \<comment> \<open>the state variable, what the button shows\<close>
  ms_refSeconds :: nat \<comment> \<open>the ref the interval reads\<close>
  ms_activePage :: nat
  ms_keyword :: string
  ms_searching :: bool
  ms_viewed :: "message_row option"
  ms_viewOpen :: bool
  ms_loadSeq :: nat
  ms_pending :: "pending list"
  ms_stream :: bool \<comment> \<open>an event source is open\<close>
  ms_timer :: "nat option" \<comment> \<open>a reconnect is scheduled\<close>
  ms_retryDelay :: nat
  ms_retryNotified :: bool
  ms_closed :: bool

definition AUTO_REFRESH_SECONDS :: nat where "AUTO_REFRESH_SECONDS = 60"

definition startLoad :: "nat \<Rightarrow> after_load \<Rightarrow> messages_state \<Rightarrow> messages_state" where
  "startLoad startIdx after s =
     s\<lparr>ms_loadSeq := Suc (ms_loadSeq s), ms_loading := True,
       ms_pending := ms_pending s @ [PendingLoad (Suc (ms_loadSeq s)) startIdx after]\<rparr>"

text \<open>The first render and its effect: the list is requested, the stream is opened.\<close>

definition mountedState :: messages_state where
  "mountedState = startLoad 0 ThenNothing
     \<lparr>ms_messages = [], ms_loading = True, ms_autoRefresh = True,
      ms_shownSeconds = int AUTO_REFRESH_SECONDS, ms_refSeconds = AUTO_REFRESH_SECONDS, ms_activePage = 1,
      ms_keyword = [], ms_searching = False, ms_viewed = None, ms_viewOpen = False, ms_loadSeq = 0,
      ms_pending = [], ms_stream = True, ms_timer = None, ms_retryDelay = 1000, ms_retryNotified = False,
      ms_closed = False\<rparr>"

text \<open>What the mount effect says at once, before the stream is open.\<close>

definition mountEffects :: "effect list" where
  "mountEffects = [showInfo (Fixed StreamConnected)]"

section \<open>Answers\<close>

definition runAfter :: "after_load \<Rightarrow> messages_state \<Rightarrow> messages_state" where
  "runAfter after s =
     (case after of
        ThenNothing \<Rightarrow> s
      | ThenPage p \<Rightarrow> s\<lparr>ms_activePage := p\<rparr>
      | ThenIdle \<Rightarrow> s\<lparr>ms_loading := False\<rparr>)"

definition appendNew :: "message_row list \<Rightarrow> message_row list \<Rightarrow> message_row list" where
  "appendNew messages data = messages @ filter (\<lambda>m. mr_id m \<notin> mr_id ` set messages) data"

text \<open>\<open>loadMessages\<close> after its \<open>await\<close>: an answer that is not the one of the latest request is
  dropped.\<close>

definition loadAnswered ::
    "nat \<Rightarrow> nat \<Rightarrow> message_row list reply \<Rightarrow> messages_state \<Rightarrow> messages_state \<times> effect list" where
  "loadAnswered seq startIdx reply s =
     (if seq \<noteq> ms_loadSeq s then (s, [])
      else let s = s\<lparr>ms_loading := False\<rparr> in
        case reply of
          Success data \<Rightarrow>
            (s\<lparr>ms_messages := (if startIdx = 0 then data else appendNew (ms_messages s) data)\<rparr>, [])
        | Failure m \<Rightarrow> (s, showMessage m))"

text \<open>The answer to a request of each kind.  The rows are those of a list or a search, or the
  one message that was asked for.\<close>

definition answered :: "pending \<Rightarrow> message_row list reply \<Rightarrow> messages_state \<Rightarrow> messages_state \<times> effect list" where
  "answered p reply s =
     (case p of
        PendingLoad seq startIdx after \<Rightarrow>
          (let (s1, es) = loadAnswered seq startIdx reply s in (runAfter after s1, es))
      | PendingDelete i \<Rightarrow>
          (case reply of
             Success _ \<Rightarrow> (startLoad 0 ThenIdle (s\<lparr>ms_messages := filter (\<lambda>m. mr_id m \<noteq> i) (ms_messages s)\<rparr>),
               [showSuccess (Fixed Done)])
           | Failure m \<Rightarrow> (s\<lparr>ms_loading := False\<rparr>, showMessage m))
      | PendingSearch \<Rightarrow>
          (case reply of
             Success data \<Rightarrow> (s\<lparr>ms_messages := data, ms_activePage := 1, ms_searching := False\<rparr>, [])
           | Failure m \<Rightarrow> (s\<lparr>ms_searching := False\<rparr>, showMessage m))
      | PendingView i \<Rightarrow>
          (case reply of
             Success data \<Rightarrow> (s\<lparr>ms_viewed := (case data of [] \<Rightarrow> None | m # _ \<Rightarrow> Some m), ms_viewOpen := True,
               ms_loading := False\<rparr>, [])
           | Failure m \<Rightarrow> (s\<lparr>ms_loading := False\<rparr>, showMessage m))
      | PendingResend i \<Rightarrow>
          (case reply of
             Success _ \<Rightarrow> (s\<lparr>ms_loading := False\<rparr>, [showSuccess (Fixed Resent)])
           | Failure m \<Rightarrow> (s\<lparr>ms_loading := False\<rparr>, showMessage m)))"

section \<open>User actions\<close>

definition searchMessages :: "messages_state \<Rightarrow> messages_state" where
  "searchMessages s =
     (if ms_keyword s = [] then startLoad 0 (ThenPage 1) s
      else s\<lparr>ms_searching := True, ms_pending := ms_pending s @ [PendingSearch]\<rparr>)"

definition paginationMessages :: "nat \<Rightarrow> messages_state \<Rightarrow> messages_state" where
  "paginationMessages page s =
     (if page = filledPages (length (ms_messages s)) + 1 then startLoad (page - 1) (ThenPage page) s
      else s\<lparr>ms_activePage := page\<rparr>)"

definition request_row :: "pending \<Rightarrow> messages_state \<Rightarrow> messages_state" where
  "request_row p s = s\<lparr>ms_loading := True, ms_pending := ms_pending s @ [p]\<rparr>"

definition messageField :: "string \<Rightarrow> message_row \<Rightarrow> string" where
  "messageField key m =
     (if key = ''id'' then int_text (mr_id m) else if key = ''title'' then mr_title m
      else if key = ''channel'' then mr_channel m else if key = ''timestamp'' then int_text (mr_timestamp m)
      else if key = ''status'' then int_text (mr_status m) else ''undefined'')"

definition sortMessage :: "(string \<Rightarrow> string \<Rightarrow> int) \<Rightarrow> string \<Rightarrow> messages_state \<Rightarrow> messages_state" where
  "sortMessage lc key s =
     (if ms_messages s = [] then s
      else let sorted = sort_by (\<lambda>a b. lc (messageField key a) (messageField key b) \<le> 0) (ms_messages s) in
        s\<lparr>ms_messages := (if mr_id (hd sorted) = mr_id (hd (ms_messages s)) then rev sorted else sorted),
          ms_loading := False\<rparr>)"

section \<open>The stream and the timer\<close>

definition insertNewMessage :: "message_row \<Rightarrow> messages_state \<Rightarrow> messages_state" where
  "insertNewMessage m s =
     s\<lparr>ms_messages := (case find_index (\<lambda>x. mr_id x = mr_id m) (ms_messages s) of
          Some k \<Rightarrow> (ms_messages s)[k := m]
        | None \<Rightarrow> m # ms_messages s),
       ms_activePage := 1\<rparr>"

definition streamOpened :: "messages_state \<Rightarrow> messages_state" where
  "streamOpened s = s\<lparr>ms_retryDelay := 1000, ms_retryNotified := False\<rparr>"

definition streamBroken :: "messages_state \<Rightarrow> messages_state \<times> effect list" where
  "streamBroken s =
     (let s = s\<lparr>ms_stream := False\<rparr> in
      if ms_closed s then (s, [])
      else (s\<lparr>ms_retryNotified := True, ms_timer := Some (ms_retryDelay s),
              ms_retryDelay := min (ms_retryDelay s * 2) 60000\<rparr>,
            if ms_retryNotified s then [] else [showWarning (Fixed StreamLost)]))"

definition connectEventSource :: "messages_state \<Rightarrow> messages_state" where
  "connectEventSource s =
     (let s = s\<lparr>ms_timer := None\<rparr> in if ms_closed s then s else s\<lparr>ms_stream := True\<rparr>)"

definition unmounted :: "messages_state \<Rightarrow> messages_state" where
  "unmounted s = s\<lparr>ms_closed := True, ms_timer := None, ms_stream := False\<rparr>"

text \<open>One tick of the interval, at the time \<open>now\<close>, with the rate limit of \<open>Web_Api\<close>.\<close>

definition tick :: "int \<Rightarrow> int \<Rightarrow> messages_state \<Rightarrow> messages_state" where
  "tick now until s =
     (if ms_closed s \<or> \<not> ms_autoRefresh s then s
      else if ms_refSeconds s = 0 then
        (let s = s\<lparr>ms_refSeconds := AUTO_REFRESH_SECONDS, ms_shownSeconds := int AUTO_REFRESH_SECONDS\<rparr> in
         if isRateLimited now until then s else startLoad 0 (ThenPage 1) s)
      else s\<lparr>ms_refSeconds := ms_refSeconds s - 1, ms_shownSeconds := ms_shownSeconds s - 1\<rparr>)"

definition toggleAutoRefresh :: "messages_state \<Rightarrow> messages_state" where
  "toggleAutoRefresh s =
     s\<lparr>ms_autoRefresh := \<not> ms_autoRefresh s, ms_shownSeconds := int AUTO_REFRESH_SECONDS\<rparr>"

text \<open>\<open>checkPermission\<close>: the answers about the server and about the user; the user is only asked
  for when the server does not keep messages.\<close>

definition checkPermission :: "bool reply \<Rightarrow> int reply \<Rightarrow> effect list" where
  "checkPermission status self =
     (if status = Success True then []
      else case self of
          Success saves \<Rightarrow> if saves \<noteq> 1 then [showWarning (Fixed NoPersistence)] else []
        | Failure m \<Rightarrow> showMessage m)"

text \<open>\<open>renderStatus\<close>: the colour of the tag.\<close>

definition renderStatus :: "int \<Rightarrow> string" where
  "renderStatus status = (if status = 1 then ''lime'' else if status = 2 then ''green''
     else if status = 3 then ''red'' else if status = 4 then ''orange'' else ''default'')"

definition messageColumns :: "column list" where
  "messageColumns = columns_of [''id'', ''title'', ''channel'', ''timestamp'', ''status'']"

definition messageCard :: mobile_card where
  "messageCard = mobileCard messageColumns ''title'' ''status'' ''action''"

datatype message_cell =
    MText string
  | MTitle "string option" pending \<comment> \<open>the title, if any, and the request of a click\<close>
  | MTag string
  | MTime int
  | MStatus string
  | MActions pending string pending pending \<comment> \<open>view, the edit link, resend, delete\<close>

definition messageCell :: "string \<Rightarrow> message_row \<Rightarrow> message_cell option" where
  "messageCell key m =
     (if key = ''id'' then Some (MText (CHR 0x23 # int_text (mr_id m)))
      else if key = ''title'' then Some (MTitle (if mr_title m \<noteq> [] then Some (mr_title m) else None) (PendingView (mr_id m)))
      else if key = ''channel'' then Some (MTag (mr_channel m))
      else if key = ''timestamp'' then Some (MTime (mr_timestamp m))
      else if key = ''status'' then Some (MStatus (renderStatus (mr_status m)))
      else if key = ''action'' then Some (MActions (PendingView (mr_id m)) (''/editor/'' @ int_text (mr_id m))
        (PendingResend (mr_id m)) (PendingDelete (mr_id m)))
      else None)"

definition messagePages :: "messages_state \<Rightarrow> nat" where
  "messagePages s = totalPages (length (ms_messages s))"

definition pagedMessages :: "messages_state \<Rightarrow> message_row list" where
  "pagedMessages s = pageSlice (ms_activePage s) (ms_messages s)"

section \<open>Events and steps\<close>

datatype event =
    Answer nat "message_row list reply" \<comment> \<open>the place of the request in flight\<close>
  | ClickSearch
  | TypeKeyword string
  | ClickPage nat
  | ClickRefresh
  | ClickDelete int
  | ClickView int
  | CloseView
  | ClickResend int
  | ClickSort string
  | ToggleRefresh
  | Tick int int
  | StreamOpen
  | StreamMessage message_row
  | StreamError
  | TimerFires
  | Unmount

definition mstep :: "(string \<Rightarrow> string \<Rightarrow> int) \<Rightarrow> event \<Rightarrow> messages_state \<Rightarrow> messages_state \<times> effect list" where
  "mstep lc e s =
     (case e of
        Answer k reply \<Rightarrow>
          if k < length (ms_pending s)
          then answered (ms_pending s ! k) reply (s\<lparr>ms_pending := drop_at k (ms_pending s)\<rparr>) else (s, [])
      | ClickSearch \<Rightarrow> (searchMessages s, [])
      | TypeKeyword v \<Rightarrow> (s\<lparr>ms_keyword := trim v\<rparr>, [])
      | ClickPage page \<Rightarrow> (paginationMessages page s, [])
      | ClickRefresh \<Rightarrow> (startLoad 0 (ThenPage 1) s, [])
      | ClickDelete i \<Rightarrow> (request_row (PendingDelete i) s, [])
      | ClickView i \<Rightarrow> (request_row (PendingView i) s, [])
      | CloseView \<Rightarrow> (s\<lparr>ms_viewOpen := False\<rparr>, [])
      | ClickResend i \<Rightarrow> (request_row (PendingResend i) s, [])
      | ClickSort key \<Rightarrow> (sortMessage lc key s, [])
      | ToggleRefresh \<Rightarrow> (toggleAutoRefresh s, [])
      | Tick now until \<Rightarrow> (tick now until s, [])
      | StreamOpen \<Rightarrow> if ms_stream s then (streamOpened s, []) else (s, [])
      | StreamMessage m \<Rightarrow> if ms_stream s then (insertNewMessage m s, []) else (s, [])
      | StreamError \<Rightarrow> if ms_stream s then streamBroken s else (s, [])
      | TimerFires \<Rightarrow> if ms_timer s = None then (s, []) else (connectEventSource s, [])
      | Unmount \<Rightarrow> (unmounted s, []))"

text \<open>Reachable states; the server never lists an id twice (ids are a primary key).\<close>

definition reply_distinct :: "message_row list reply \<Rightarrow> bool" where
  "reply_distinct reply = (case reply of Success data \<Rightarrow> distinct (map mr_id data) | Failure _ \<Rightarrow> True)"

definition event_ok :: "event \<Rightarrow> bool" where
  "event_ok e = (case e of Answer _ reply \<Rightarrow> reply_distinct reply | _ \<Rightarrow> True)"

declare mstep_def [handler_defs] searchMessages_def [handler_defs] paginationMessages_def [handler_defs] request_row_def [handler_defs]
  toggleAutoRefresh_def [handler_defs] streamOpened_def [handler_defs] connectEventSource_def [handler_defs] unmounted_def [handler_defs]

inductive reachable_messages :: "(string \<Rightarrow> string \<Rightarrow> int) \<Rightarrow> messages_state \<Rightarrow> bool" for lc where
  mounted: "reachable_messages lc mountedState"
| step: "reachable_messages lc s \<Longrightarrow> event_ok e \<Longrightarrow> mstep lc e s = (s', es) \<Longrightarrow> reachable_messages lc s'"

inductive_cases reachable_messages_cases: "reachable_messages lc s"

section \<open>The invariant\<close>

fun seqs_of :: "pending list \<Rightarrow> nat list" where
  "seqs_of [] = []"
| "seqs_of (PendingLoad seq i a # ps) = seq # seqs_of ps"
| "seqs_of (p # ps) = seqs_of ps"

lemma seqs_of_append [simp]: "seqs_of (ps @ qs) = seqs_of ps @ seqs_of qs"
  by (induction ps rule: seqs_of.induct) simp_all

definition pending_seqs :: "messages_state \<Rightarrow> nat list" where
  "pending_seqs s = seqs_of (ms_pending s)"

definition ids_ok :: "messages_state \<Rightarrow> bool" where
  "ids_ok s \<longleftrightarrow> distinct (map mr_id (ms_messages s))"

definition seqs_ok :: "messages_state \<Rightarrow> bool" where
  "seqs_ok s \<longleftrightarrow> distinct (pending_seqs s) \<and> (\<forall>n \<in> set (pending_seqs s). n \<le> ms_loadSeq s)"

definition retry_ok :: "nat \<Rightarrow> bool" where
  "retry_ok d \<longleftrightarrow> 1000 \<le> d \<and> d \<le> 60000"

definition stream_ok :: "messages_state \<Rightarrow> bool" where
  "stream_ok s \<longleftrightarrow> retry_ok (ms_retryDelay s) \<and> (\<forall>d. ms_timer s = Some d \<longrightarrow> retry_ok d) \<and>
     (ms_stream s \<longrightarrow> ms_timer s = None) \<and> (ms_closed s \<longrightarrow> ms_timer s = None \<and> \<not> ms_stream s)"

definition messages_ok :: "messages_state \<Rightarrow> bool" where
  "messages_ok s \<longleftrightarrow> ids_ok s \<and> seqs_ok s \<and> stream_ok s \<and> ms_refSeconds s \<le> AUTO_REFRESH_SECONDS"

lemma appendNew_distinct:
  "distinct (map mr_id xs) \<Longrightarrow> distinct (map mr_id data) \<Longrightarrow> distinct (map mr_id (appendNew xs data))"
proof -
  assume d: "distinct (map mr_id xs)" "distinct (map mr_id data)"
  have "set (map mr_id xs) \<inter> set (map mr_id (filter (\<lambda>m. mr_id m \<notin> mr_id ` set xs) data)) = {}"
  proof (rule equals0I, elim IntE)
    fix v
    assume "v \<in> set (map mr_id (filter (\<lambda>m. mr_id m \<notin> mr_id ` set xs) data))"
    then have "v \<notin> mr_id ` set xs" by auto
    moreover assume "v \<in> set (map mr_id xs)"
    ultimately show False by simp
  qed
  then show ?thesis using d unfolding appendNew_def map_append distinct_append by (blast intro: distinct_map_filter)
qed

lemma update_distinct:
  assumes "distinct (map mr_id xs)" "find_index (\<lambda>x. mr_id x = mr_id m) xs = Some k"
  shows "map mr_id (xs[k := m]) = map mr_id xs"
  using find_index_Some [OF assms(2)] by (metis list_update_id map_update nth_map)

lemma ids_loadAnswered:
  assumes "ids_ok s" "reply_distinct reply" "loadAnswered seq i reply s = (s', es)"
  shows "ids_ok s'"
proof (cases "seq = ms_loadSeq s")
  case True
  then show ?thesis using assms appendNew_distinct
    by (cases reply) (auto simp: loadAnswered_def ids_ok_def reply_distinct_def Let_def)
next
  case False
  then show ?thesis using assms by (simp add: loadAnswered_def)
qed

lemma after_same [simp]:
  "ms_messages (runAfter a s) = ms_messages s" "ms_loadSeq (runAfter a s) = ms_loadSeq s"
  "ms_pending (runAfter a s) = ms_pending s" "ms_retryDelay (runAfter a s) = ms_retryDelay s"
  "ms_timer (runAfter a s) = ms_timer s" "ms_stream (runAfter a s) = ms_stream s"
  "ms_closed (runAfter a s) = ms_closed s" "ms_refSeconds (runAfter a s) = ms_refSeconds s"
  by (simp_all add: runAfter_def split: after_load.splits)

lemma startLoad_same [simp]:
  "ms_messages (startLoad i a s) = ms_messages s" "ms_loadSeq (startLoad i a s) = Suc (ms_loadSeq s)"
  "ms_pending (startLoad i a s) = ms_pending s @ [PendingLoad (Suc (ms_loadSeq s)) i a]"
  "ms_retryDelay (startLoad i a s) = ms_retryDelay s"
  "ms_timer (startLoad i a s) = ms_timer s" "ms_stream (startLoad i a s) = ms_stream s"
  "ms_closed (startLoad i a s) = ms_closed s" "ms_refSeconds (startLoad i a s) = ms_refSeconds s"
  by (simp_all add: startLoad_def)

lemma loadAnswered_same:
  assumes "loadAnswered seq i reply s = (s', es)"
  shows "ms_loadSeq s' = ms_loadSeq s" "ms_pending s' = ms_pending s" "ms_retryDelay s' = ms_retryDelay s"
    "ms_timer s' = ms_timer s" "ms_stream s' = ms_stream s" "ms_closed s' = ms_closed s"
    "ms_refSeconds s' = ms_refSeconds s"
  using assms by (auto simp: loadAnswered_def Let_def split: if_splits reply.splits)

lemma answered_ids:
  assumes "ids_ok s" "reply_distinct reply" "answered p reply s = (s', es)"
  shows "ids_ok s'"
proof (cases p)
  case (PendingLoad seq i a)
  obtain s1 es1 where "loadAnswered seq i reply s = (s1, es1)" by (metis prod.exhaust)
  then show ?thesis using assms ids_loadAnswered PendingLoad by (fastforce simp: answered_def ids_ok_def)
qed (use assms in \<open>auto simp: answered_def ids_ok_def reply_distinct_def distinct_map_filter split: reply.splits\<close>)

lemma seqs_startLoad: "seqs_ok s \<Longrightarrow> seqs_ok (startLoad i a s)"
  by (fastforce simp: seqs_ok_def pending_seqs_def)

lemma answered_seqs:
  assumes "seqs_ok s" "answered p reply s = (s', es)"
  shows "seqs_ok s'"
proof (cases p)
  case (PendingLoad seq i a)
  obtain s1 es1 where l: "loadAnswered seq i reply s = (s1, es1)" by (metis prod.exhaust)
  then show ?thesis using assms loadAnswered_same [OF l] PendingLoad
    by (auto simp: answered_def seqs_ok_def pending_seqs_def)
next
  case (PendingDelete i)
  have "seqs_ok (s\<lparr>ms_messages := m\<rparr>)" "seqs_ok (s\<lparr>ms_loading := l\<rparr>)" for m l
    using assms(1) by (simp_all add: seqs_ok_def pending_seqs_def)
  then show ?thesis using assms(2) PendingDelete seqs_startLoad by (auto simp: answered_def split: reply.splits)
qed (use assms in \<open>auto simp: answered_def seqs_ok_def pending_seqs_def split: reply.splits\<close>)

lemma answered_rest:
  assumes "answered p reply s = (s', es)"
  shows "stream_ok s' = stream_ok s" "ms_refSeconds s' = ms_refSeconds s" "ms_closed s' = ms_closed s"
    "ms_stream s' = ms_stream s" "ms_timer s' = ms_timer s"
proof -
  have "ms_retryDelay s' = ms_retryDelay s \<and> ms_timer s' = ms_timer s \<and> ms_stream s' = ms_stream s \<and>
      ms_closed s' = ms_closed s \<and> ms_refSeconds s' = ms_refSeconds s"
  proof (cases p)
    case (PendingLoad seq i a)
    obtain s1 es1 where l: "loadAnswered seq i reply s = (s1, es1)" by (metis prod.exhaust)
    then show ?thesis using assms loadAnswered_same [OF l] PendingLoad by (auto simp: answered_def)
  qed (use assms in \<open>auto simp: answered_def split: reply.splits\<close>)
  then show "stream_ok s' = stream_ok s" "ms_refSeconds s' = ms_refSeconds s" "ms_closed s' = ms_closed s"
    "ms_stream s' = ms_stream s" "ms_timer s' = ms_timer s"
    by (simp_all add: stream_ok_def)
qed

lemma drop_at_seqs:
  assumes "seqs_ok s"
  shows "seqs_ok (s\<lparr>ms_pending := drop_at k (ms_pending s)\<rparr>)"
proof (cases "k < length (ms_pending s)")
  case True
  let ?l = "seqs_of (take k (ms_pending s))" and ?r = "seqs_of (drop (Suc k) (ms_pending s))"
  have "ms_pending s = take k (ms_pending s) @ [ms_pending s ! k] @ drop (Suc k) (ms_pending s)"
    using True by (simp add: Cons_nth_drop_Suc)
  then have "seqs_of (ms_pending s) = ?l @ seqs_of [ms_pending s ! k] @ ?r" by (metis seqs_of_append)
  then show ?thesis using assms by (auto simp: seqs_ok_def pending_seqs_def drop_at_def)
next
  case False
  then show ?thesis using assms by (simp add: seqs_ok_def pending_seqs_def drop_at_def)
qed

lemma mounted_ok: "messages_ok mountedState"
  by (simp add: messages_ok_def ids_ok_def seqs_ok_def pending_seqs_def stream_ok_def retry_ok_def mountedState_def
      startLoad_def AUTO_REFRESH_SECONDS_def)

lemma sort_ids:
  assumes "ids_ok s"
  shows "ids_ok (sortMessage lc key s)"
proof -
  let ?x = "sort_by (\<lambda>a b. lc (messageField key a) (messageField key b) \<le> 0) (ms_messages s)"
  have d: "distinct (map mr_id ?x)" using assms by (simp add: ids_ok_def distinct_map_sort_by)
  then have r: "distinct (map mr_id (rev ?x))" by (metis rev_map distinct_rev)
  have "ms_messages (sortMessage lc key s) \<in> {ms_messages s, ?x, rev ?x}" by (simp add: sortMessage_def Let_def)
  then show ?thesis using assms d r unfolding ids_ok_def by (elim insertE emptyE) simp_all
qed

lemma insert_ids:
  assumes "ids_ok s"
  shows "ids_ok (insertNewMessage m s)"
proof (cases "find_index (\<lambda>x. mr_id x = mr_id m) (ms_messages s)")
  case None
  then have "mr_id m \<notin> mr_id ` set (ms_messages s)" by (auto simp: find_index_None)
  then show ?thesis using assms None by (simp add: insertNewMessage_def ids_ok_def)
next
  case (Some k)
  then show ?thesis using assms update_distinct [OF _ Some] by (simp add: insertNewMessage_def ids_ok_def)
qed

text \<open>The state an event starts from: an answered request is no longer in flight.\<close>

lemma mstep_ids:
  assumes "ids_ok s" "event_ok e" "mstep lc e s = (s', es)"
  shows "ids_ok s'"
proof (cases e)
  case (Answer k reply)
  have "ids_ok (s\<lparr>ms_pending := ps\<rparr>)" for ps using assms(1) by (simp add: ids_ok_def)
  then show ?thesis using assms Answer
    by (auto simp: mstep_def event_ok_def split: if_splits intro: answered_ids [where p = "ms_pending s ! k"])
next
  case (ClickSort key)
  then show ?thesis using assms sort_ids by (auto simp: mstep_def)
next
  case (StreamMessage m)
  then show ?thesis using assms insert_ids by (auto simp: mstep_def split: if_splits)
next
  case (Tick now until)
  then show ?thesis using assms by (auto simp: mstep_def tick_def ids_ok_def Let_def split: if_splits)
qed (use assms in \<open>auto simp: handler_defs ids_ok_def streamBroken_def Let_def split: if_splits\<close>)

lemma mstep_seqs:
  assumes "seqs_ok s" "mstep lc e s = (s', es)"
  shows "seqs_ok s'"
proof -
  have same: "seqs_ok t" if "ms_pending t = ms_pending s" "ms_loadSeq t = ms_loadSeq s" for t
    using assms(1) that by (simp add: seqs_ok_def pending_seqs_def)
  have load: "seqs_ok (startLoad i a t)" if "ms_pending t = ms_pending s" "ms_loadSeq t = ms_loadSeq s" for i a t
    using same [OF that] by (rule seqs_startLoad)
  have other: "seqs_ok t" if "ms_pending t = ms_pending s @ [p]" "seqs_of [p] = []" "ms_loadSeq t = ms_loadSeq s" for t p
    using assms(1) that by (simp add: seqs_ok_def pending_seqs_def)
  have request: "seqs_ok (request_row p s)" if "seqs_of [p] = []" for p
    by (rule other [OF _ that]) (simp_all add: request_row_def)
  show ?thesis
  proof (cases e)
    case (Answer k reply)
    then show ?thesis using assms drop_at_seqs [OF assms(1), of k]
      by (auto simp: mstep_def split: if_splits intro: answered_seqs [where p = "ms_pending s ! k"])
  next
    case (ClickSort key)
    then show ?thesis using assms by (auto simp: mstep_def sortMessage_def Let_def same)
  next
    case (Tick now until)
    then show ?thesis using assms by (auto simp: mstep_def tick_def Let_def same load split: if_splits)
  next
    case ClickSearch
    then show ?thesis using assms by (auto simp: mstep_def searchMessages_def load other [where p = PendingSearch] split: if_splits)
  next
    case (ClickPage page)
    then show ?thesis using assms by (auto simp: mstep_def paginationMessages_def load same split: if_splits)
  qed (use assms in \<open>auto simp: mstep_def insertNewMessage_def toggleAutoRefresh_def streamOpened_def
      streamBroken_def connectEventSource_def unmounted_def Let_def same load request split: if_splits\<close>)
qed

lemma mstep_stream:
  assumes "stream_ok s" "mstep lc e s = (s', es)"
  shows "stream_ok s'"
proof (cases e)
  case (Answer k reply)
  have "stream_ok (s\<lparr>ms_pending := ps\<rparr>)" for ps using assms(1) by (simp add: stream_ok_def)
  then show ?thesis using assms answered_rest(1) Answer by (auto simp: mstep_def split: if_splits)
next
  case StreamError
  have "retry_ok (min (d * 2) 60000)" if "retry_ok d" for d using that by (auto simp: retry_ok_def)
  then show ?thesis using assms StreamError by (auto simp: mstep_def streamBroken_def stream_ok_def Let_def split: if_splits)
next
  case StreamOpen
  then show ?thesis using assms by (auto simp: mstep_def streamOpened_def stream_ok_def retry_ok_def split: if_splits)
next
  case (Tick now until)
  then show ?thesis using assms by (auto simp: mstep_def tick_def stream_ok_def Let_def split: if_splits)
qed (use assms in \<open>auto simp: handler_defs stream_ok_def sortMessage_def insertNewMessage_def Let_def split: if_splits\<close>)

lemma mstep_ref:
  assumes "ms_refSeconds s \<le> AUTO_REFRESH_SECONDS" "mstep lc e s = (s', es)"
  shows "ms_refSeconds s' \<le> AUTO_REFRESH_SECONDS"
proof (cases e)
  case (Answer k reply)
  then show ?thesis using assms answered_rest(2) by (fastforce simp: mstep_def split: if_splits)
next
  case (Tick now until)
  then show ?thesis using assms by (auto simp: mstep_def tick_def Let_def split: if_splits)
qed (use assms in \<open>auto simp: handler_defs sortMessage_def insertNewMessage_def streamBroken_def Let_def split: if_splits\<close>)

lemma mstep_ok: "messages_ok s \<Longrightarrow> event_ok e \<Longrightarrow> mstep lc e s = (s', es) \<Longrightarrow> messages_ok s'"
  unfolding messages_ok_def using mstep_ids mstep_seqs mstep_stream mstep_ref by blast

lemma reachable_messages_ok: "reachable_messages lc s \<Longrightarrow> messages_ok s"
  by (induction rule: reachable_messages.induct) (auto intro: mounted_ok mstep_ok)

end
