(* ===== verification/Messages_Properties.thy ===== *)
theory Messages_Properties
  imports Messages_Table
begin

text \<open>
  The properties of the messages page, over runs of its events; the runs used as witnesses
  start from the freshly mounted page.
\<close>

section \<open>Properties of the messages page\<close>

fun mrun :: "(string \<Rightarrow> string \<Rightarrow> int) \<Rightarrow> event list \<Rightarrow> messages_state \<Rightarrow> messages_state" where
  "mrun lc [] s = s"
| "mrun lc (e # es) s = mrun lc es (fst (mstep lc e s))"

lemma mrun_append: "mrun lc (es @ fs) s = mrun lc fs (mrun lc es s)"
  by (induction es arbitrary: s) simp_all

lemma mrun_reachable: "list_all event_ok es \<Longrightarrow> reachable_messages lc s \<Longrightarrow> reachable_messages lc (mrun lc es s)"
proof (induction es arbitrary: s)
  case (Cons e es)
  have "event_ok e" "list_all event_ok es" using Cons.prems(1) by auto
  then have "reachable_messages lc (fst (mstep lc e s))"
    using reachable_messages.step [OF Cons.prems(2) _ prod.collapse [symmetric]] by blast
  then show ?case unfolding mrun.simps by (rule Cons.IH [OF \<open>list_all event_ok es\<close>])
qed simp

definition sample_row :: "int \<Rightarrow> message_row" where
  "sample_row i = \<lparr>mr_id = i, mr_title = ''t'', mr_channel = ''bark'', mr_timestamp = 1, mr_status = 2\<rparr>"

definition no_order :: "string \<Rightarrow> string \<Rightarrow> int" where
  "no_order a b = 0"

text \<open>A message arrives by the stream and in the list that was requested before.\<close>

definition sample_events :: "event list" where
  "sample_events = [StreamMessage (sample_row 3), Answer 0 (Success [sample_row 3, sample_row 2]), StreamMessage (sample_row 2)]"

lemma sample_reachable: "reachable_messages no_order (mrun no_order sample_events mountedState)"
  by (rule mrun_reachable [OF _ reachable_messages.mounted])
    (simp add: sample_events_def event_ok_def reply_distinct_def sample_row_def)

text \<open>C3: The message list never holds an id twice, in any order of answers, deliveries and user
  actions, as long as the server's own lists do not.\<close>

theorem messages_no_duplicates:
  assumes "reachable_messages lc s"
  shows "distinct (map mr_id (ms_messages s))"
  using reachable_messages_ok [OF assms] by (simp add: messages_ok_def ids_ok_def)

theorem messages_no_duplicates_witness:
  "distinct (map mr_id (ms_messages (mrun no_order sample_events mountedState))) \<and>
   map mr_id (ms_messages (mrun no_order sample_events mountedState)) = [3, 2]"
proof -
  have "map mr_id (ms_messages (mrun no_order sample_events mountedState)) = [3, 2]"
    by (simp add: sample_events_def mstep_def mountedState_def startLoad_def insertNewMessage_def answered_def
        loadAnswered_def runAfter_def drop_at_def sample_row_def)
  then show ?thesis using messages_no_duplicates [OF sample_reachable] by simp
qed

text \<open>C5: The page has at most one stream: while one is open no reconnect is scheduled; a
  reconnect waits between one and sixty seconds; after the page is left there is neither a
  stream nor a timer, and nothing brings one back.\<close>

theorem one_stream_at_most:
  assumes "reachable_messages lc s"
  shows "(ms_stream s \<longrightarrow> ms_timer s = None) \<and>
     (\<forall>d. ms_timer s = Some d \<longrightarrow> 1000 \<le> d \<and> d \<le> 60000) \<and>
     (ms_closed s \<longrightarrow> ms_timer s = None \<and> \<not> ms_stream s)"
  using reachable_messages_ok [OF assms] by (simp add: messages_ok_def stream_ok_def retry_ok_def)

theorem one_stream_at_most_witness:
  "\<not> ms_stream (mrun no_order [StreamError, Unmount, TimerFires] mountedState)"
proof -
  have "reachable_messages no_order (mrun no_order [StreamError, Unmount, TimerFires] mountedState)"
    by (rule mrun_reachable [OF _ reachable_messages.mounted]) (simp add: event_ok_def)
  moreover have "ms_closed (mrun no_order [StreamError, Unmount, TimerFires] mountedState)"
    by (simp add: mstep_def mountedState_def startLoad_def streamBroken_def unmounted_def Let_def)
  ultimately show ?thesis using one_stream_at_most by blast
qed


fun failures :: "nat \<Rightarrow> event list" where
  "failures 0 = []"
| "failures (Suc n) = failures n @ [StreamError, TimerFires]"

lemma min_double: "min (min (1000 * 2 ^ n) 60000 * 2) 60000 = min (1000 * 2 ^ Suc n) (60000 :: nat)"
proof -
  have "min (min (1000 * x) 60000 * 2) 60000 = min (1000 * (2 * x)) (60000 :: nat)" for x
  proof (cases "x \<le> 60")
    case True
    then have "min (1000 * x) (60000 :: nat) = 1000 * x" by (simp add: min_absorb1)
    then show ?thesis by (simp add: mult.commute mult.left_commute)
  next
    case False
    then show ?thesis by (simp add: min_absorb2)
  qed
  from this [of "2 ^ n"] show ?thesis unfolding power_Suc .
qed

lemma failures_state:
  assumes "ms_stream s" "ms_timer s = None" "\<not> ms_closed s" "ms_retryDelay s = 1000"
  shows "ms_retryDelay (mrun lc (failures n) s) = min (1000 * 2 ^ n) 60000 \<and> ms_stream (mrun lc (failures n) s) \<and>
     ms_timer (mrun lc (failures n) s) = None \<and> \<not> ms_closed (mrun lc (failures n) s) \<and>
     (0 < n \<longrightarrow> ms_retryNotified (mrun lc (failures n) s))"
proof (induction n)
  case 0
  then show ?case using assms by simp
next
  case (Suc n)
  then show ?case using min_double [of n]
    by (simp add: mrun_append mstep_def streamBroken_def connectEventSource_def Let_def)
qed

text \<open>C22: Reconnecting backs off: after \<open>n\<close> failed connections in a row the next one waits
  \<open>min (1000 * 2^n) 60000\<close> milliseconds, and the user was warned once.\<close>
theorem reconnect_backs_off:
  assumes "ms_stream s" "ms_timer s = None" "\<not> ms_closed s" "ms_retryDelay s = 1000" "\<not> ms_retryNotified s"
  shows "ms_timer (mrun lc (failures n @ [StreamError]) s) = Some (min (1000 * 2 ^ n) 60000) \<and>
    snd (mstep lc StreamError (mrun lc (failures n) s)) = (if n = 0 then [showWarning (Fixed StreamLost)] else [])"
  using failures_state [OF assms(1-4), of lc n] assms(5)
  by (cases n) (auto simp: mrun_append mstep_def streamBroken_def Let_def)

theorem reconnect_backs_off_witness:
  "ms_timer (mrun no_order (failures 10 @ [StreamError]) mountedState) = Some 60000"
proof -
  have "ms_stream mountedState \<and> ms_timer mountedState = None \<and> \<not> ms_closed mountedState \<and>
     ms_retryDelay mountedState = 1000 \<and> \<not> ms_retryNotified mountedState"
    by (simp add: mountedState_def startLoad_def)
  then show ?thesis using reconnect_backs_off [of mountedState no_order 10] by simp
qed

text \<open>C13: An answer that is not the one to the latest list request is dropped: it reports nothing and
  changes nothing but what its own click set out to do at the end (the page number of a click on a
  page, a search or a refresh; the loading mark of a deletion).  The list, the search, the message
  that is viewed, the stream, the timers and the other open requests stay as they are.\<close>

theorem stale_answer_is_dropped:
  assumes "k < length (ms_pending s)" "ms_pending s ! k = PendingLoad seq i a" "seq \<noteq> ms_loadSeq s"
  shows "mstep lc (Answer k reply) s =
    (case a of
       ThenNothing \<Rightarrow> s\<lparr>ms_pending := drop_at k (ms_pending s)\<rparr>
     | ThenPage p \<Rightarrow> s\<lparr>ms_pending := drop_at k (ms_pending s), ms_activePage := p\<rparr>
     | ThenIdle \<Rightarrow> s\<lparr>ms_pending := drop_at k (ms_pending s), ms_loading := False\<rparr>, [])"
  using assms by (simp add: mstep_def answered_def loadAnswered_def runAfter_def split: after_load.split)

theorem stale_answer_is_dropped_witness:
  "mrun no_order [ClickRefresh, Answer 0 (Success [sample_row 1])] mountedState =
   (mrun no_order [ClickRefresh] mountedState)\<lparr>ms_pending := [PendingLoad 2 0 (ThenPage 1)]\<rparr>"
proof -
  let ?s = "mrun no_order [ClickRefresh] mountedState"
  have p: "ms_pending ?s = [PendingLoad 1 0 ThenNothing, PendingLoad 2 0 (ThenPage 1)]" "ms_loadSeq ?s = 2"
    by (simp_all add: mstep_def mountedState_def startLoad_def)
  then have "mstep no_order (Answer 0 (Success [sample_row 1])) ?s =
      (?s\<lparr>ms_pending := drop_at 0 (ms_pending ?s)\<rparr>, [])"
    using stale_answer_is_dropped [of 0 ?s 1 0 ThenNothing no_order "Success [sample_row 1]"] by simp
  then show ?thesis unfolding p by (simp add: drop_at_def)
qed

section \<open>Deleting a message\<close>

text \<open>The events that may list the message \<open>i\<close> (again): the stream delivers it, a search finds it, or a
  list that was requested after the one with number \<open>n\<close> holds it.\<close>

definition brings :: "int \<Rightarrow> nat \<Rightarrow> messages_state \<Rightarrow> event \<Rightarrow> bool" where
  "brings i n s e =
     (case e of
        StreamMessage m \<Rightarrow> mr_id m = i
      | Answer k (Success data) \<Rightarrow> k < length (ms_pending s) \<and> i \<in> mr_id ` set data \<and>
          (case ms_pending s ! k of
             PendingSearch \<Rightarrow> True
           | PendingLoad seq _ _ \<Rightarrow> n < seq
           | _ \<Rightarrow> False)
      | _ \<Rightarrow> False)"

fun never_brings :: "(string \<Rightarrow> string \<Rightarrow> int) \<Rightarrow> int \<Rightarrow> nat \<Rightarrow> event list \<Rightarrow> messages_state \<Rightarrow> bool" where
  "never_brings lc i n [] s = True"
| "never_brings lc i n (e # es) s = (\<not> brings i n s e \<and> never_brings lc i n es (fst (mstep lc e s)))"

lemma mstep_loadSeq: "ms_loadSeq s \<le> ms_loadSeq (fst (mstep lc e s))"
  by (cases e) (auto simp: handler_defs sortMessage_def insertNewMessage_def streamBroken_def tick_def Let_def
      answered_def loadAnswered_def runAfter_def startLoad_def split: pending.split after_load.split reply.split)

lemma set_sortMessage: "set (ms_messages (sortMessage lc key s)) = set (ms_messages s)"
  by (simp add: sortMessage_def Let_def)

lemma answered_away:
  assumes "i \<notin> mr_id ` set (ms_messages s)" "n < ms_loadSeq s"
    and "\<And>data. reply = Success data \<Longrightarrow> i \<in> mr_id ` set data \<Longrightarrow> p \<noteq> PendingSearch \<and> (\<forall>seq k a. p = PendingLoad seq k a \<longrightarrow> seq \<le> n)"
  shows "i \<notin> mr_id ` set (ms_messages (fst (answered p reply s)))"
proof (cases p)
  case (PendingLoad seq k a)
  have after: "ms_messages (runAfter b t) = ms_messages t" for b t by (simp add: runAfter_def split: after_load.split)
  show ?thesis
  proof (cases "seq = ms_loadSeq s")
    case True
    then have "i \<notin> mr_id ` set data" if "reply = Success data" for data
      using assms(2,3) that PendingLoad by fastforce
    then show ?thesis using assms(1) PendingLoad True after
      by (auto simp: answered_def loadAnswered_def Let_def split_beta appendNew_def split: reply.splits)
  next
    case False
    then show ?thesis using assms(1) PendingLoad after by (simp add: answered_def loadAnswered_def)
  qed
qed (use assms in \<open>auto simp: answered_def startLoad_def split: reply.splits list.splits\<close>)

lemma mstep_away:
  assumes "i \<notin> mr_id ` set (ms_messages s)" "n < ms_loadSeq s" "\<not> brings i n s e"
  shows "i \<notin> mr_id ` set (ms_messages (fst (mstep lc e s)))"
proof (cases e)
  case (Answer k reply)
  show ?thesis
  proof (cases "k < length (ms_pending s)")
    case True
    have "i \<notin> mr_id ` set (ms_messages (fst (answered (ms_pending s ! k) reply (s\<lparr>ms_pending := drop_at k (ms_pending s)\<rparr>))))"
    proof (rule answered_away [where n = n])
      fix data
      assume "reply = Success data" "i \<in> mr_id ` set data"
      then show "ms_pending s ! k \<noteq> PendingSearch \<and> (\<forall>seq m a. ms_pending s ! k = PendingLoad seq m a \<longrightarrow> seq \<le> n)"
        using assms(3) True Answer by (auto simp: brings_def not_less)
    qed (use assms in simp_all)
    then show ?thesis using True Answer by (simp add: mstep_def)
  qed (use assms Answer in \<open>simp add: mstep_def\<close>)
next
  case (StreamMessage m)
  then have "mr_id m \<noteq> i" using assms(3) by (simp add: brings_def)
  then have "i \<notin> mr_id ` set (ms_messages (insertNewMessage m s))"
    using assms(1) set_update_subset_insert [of "ms_messages s" _ m]
    by (cases "find_index (\<lambda>x. mr_id x = mr_id m) (ms_messages s)") (auto simp: insertNewMessage_def dest!: subsetD)
  then show ?thesis using assms(1) StreamMessage by (simp add: mstep_def)
next
  case (ClickSort key)
  then show ?thesis using assms(1) set_sortMessage [of lc key s] by (simp add: mstep_def)
qed (use assms(1) in \<open>simp_all add: handler_defs streamBroken_def tick_def Let_def startLoad_def\<close>)

lemma mrun_away:
  "i \<notin> mr_id ` set (ms_messages s) \<Longrightarrow> n < ms_loadSeq s \<Longrightarrow> never_brings lc i n es s \<Longrightarrow>
   i \<notin> mr_id ` set (ms_messages (mrun lc es s))"
proof (induction es arbitrary: s)
  case (Cons e es)
  have "\<not> brings i n s e" "never_brings lc i n es (fst (mstep lc e s))" using Cons.prems(3) by simp_all
  from Cons.IH [OF mstep_away [OF Cons.prems(1,2) this(1)] _ this(2)]
  show ?case using Cons.prems(2) mstep_loadSeq [of s lc e] by simp
qed simp

text \<open>C16: A deleted message does not come back with an old list.  Once the server confirms a deletion the
  message is gone, and it stays away through any further events, whatever the lists hold that were
  requested before the confirmation and whenever they arrive: only the stream, a search, or a list
  requested afterwards could show it again.  (Every open list request is one of those before.)\<close>

theorem deleted_row_stays_away:
  assumes "reachable_messages lc s" and "k < length (ms_pending s)" "ms_pending s ! k = PendingDelete i"
    and "s' = fst (mstep lc (Answer k (Success d)) s)" "never_brings lc i (ms_loadSeq s) es s'"
  shows "i \<notin> mr_id ` set (ms_messages (mrun lc es s')) \<and> (\<forall>seq \<in> set (pending_seqs s). seq \<le> ms_loadSeq s)"
proof
  have s': "s' = startLoad 0 ThenIdle (s\<lparr>ms_pending := drop_at k (ms_pending s),
      ms_messages := filter (\<lambda>m. mr_id m \<noteq> i) (ms_messages s)\<rparr>)"
    using assms(2-4) by (simp add: mstep_def answered_def)
  then have "i \<notin> mr_id ` set (ms_messages s')" "ms_loadSeq s < ms_loadSeq s'" by (auto simp: startLoad_def)
  then show "i \<notin> mr_id ` set (ms_messages (mrun lc es s'))" using assms(5) by (rule mrun_away)
  show "\<forall>seq \<in> set (pending_seqs s). seq \<le> ms_loadSeq s"
    using reachable_messages_ok [OF assms(1)] by (auto simp: messages_ok_def seqs_ok_def)
qed

definition before_deletion :: messages_state where
  "before_deletion = mrun no_order [StreamMessage (sample_row 3), ClickDelete 3] mountedState"

theorem deleted_row_stays_away_witness:
  "3 \<notin> mr_id ` set (ms_messages (mrun no_order [Answer 0 (Success [sample_row 3]), StreamMessage (sample_row 4)]
     (fst (mstep no_order (Answer 1 (Success [])) before_deletion))))"
proof -
  have reach: "reachable_messages no_order before_deletion" unfolding before_deletion_def
    by (rule mrun_reachable [OF _ reachable_messages.mounted]) (simp add: event_ok_def)
  have s: "ms_pending before_deletion = [PendingLoad 1 0 ThenNothing, PendingDelete 3]" "ms_loadSeq before_deletion = 1"
    by (simp_all add: before_deletion_def handler_defs mountedState_def startLoad_def insertNewMessage_def)
  then have "never_brings no_order 3 1 [Answer 0 (Success [sample_row 3]), StreamMessage (sample_row 4)]
      (fst (mstep no_order (Answer 1 (Success [])) before_deletion))"
    by (simp add: mstep_def answered_def startLoad_def brings_def drop_at_def sample_row_def)
  from deleted_row_stays_away [OF reach _ _ refl, where k = 1 and i = 3 and d = "[]", unfolded s, OF _ _ this] show ?thesis by simp
qed

text \<open>C17: A search is not guarded like that: when a search was asked for before the deletion of a message
  was confirmed and its answer, which still holds the message, arrives afterwards, the deleted message
  is shown again.\<close>

theorem late_search_restores_deleted_row:
  assumes "k < length (ms_pending s)" "ms_pending s ! k = PendingDelete i"
    and "j < length (ms_pending s)" "ms_pending s ! j = PendingSearch" "i \<in> mr_id ` set data"
    and "s1 = fst (mstep lc (Answer k (Success d)) s)"
    and "s2 = fst (mstep lc (Answer (if j < k then j else j - 1) (Success data)) s1)"
  shows "i \<notin> mr_id ` set (ms_messages s1) \<and> ms_messages s2 = data \<and> i \<in> mr_id ` set (ms_messages s2)"
proof -
  let ?j = "if j < k then j else j - 1"
  have s1: "s1 = startLoad 0 ThenIdle (s\<lparr>ms_pending := drop_at k (ms_pending s),
      ms_messages := filter (\<lambda>m. mr_id m \<noteq> i) (ms_messages s)\<rparr>)"
    using assms(1,2,6) by (simp add: mstep_def answered_def)
  have "j \<noteq> k" using assms(2,4) by auto
  then have "?j < length (drop_at k (ms_pending s))" "drop_at k (ms_pending s) ! ?j = PendingSearch"
    using assms(1,3,4) by (auto simp: drop_at_def nth_append min_def)
  then have "ms_pending s1 ! ?j = PendingSearch" "?j < length (ms_pending s1)" by (simp_all add: s1 startLoad_def nth_append)
  then have "ms_messages s2 = data" unfolding assms(7) by (simp add: mstep_def answered_def)
  moreover have "i \<notin> mr_id ` set (ms_messages s1)" by (auto simp: s1 startLoad_def)
  ultimately show ?thesis using assms(5) by simp
qed

theorem late_search_restores_deleted_row_witness:
  "3 \<in> mr_id ` set (ms_messages (fst (mstep no_order (Answer 1 (Success [sample_row 3])) (fst (mstep no_order (Answer 2 (Success []))
     (mrun no_order [StreamMessage (sample_row 3), TypeKeyword ''t'', ClickSearch, ClickDelete 3] mountedState))))))"
proof -
  let ?s = "mrun no_order [StreamMessage (sample_row 3), TypeKeyword ''t'', ClickSearch, ClickDelete 3] mountedState"
  have p: "ms_pending ?s = [PendingLoad 1 0 ThenNothing, PendingSearch, PendingDelete 3]"
    by (simp add: handler_defs mountedState_def startLoad_def insertNewMessage_def trim_def js_ws_def)
  have "3 \<in> mr_id ` set [sample_row 3]" by (simp add: sample_row_def)
  then show ?thesis
    using late_search_restores_deleted_row [of 2 ?s 3 1 "[sample_row 3]" _ no_order "[]", OF _ _ _ _ _ refl refl] p by simp
qed

section \<open>The automatic refresh\<close>

definition is_tick :: "event \<Rightarrow> bool" where
  "is_tick e = (case e of Tick _ _ \<Rightarrow> True | _ \<Rightarrow> False)"

text \<open>Only a tick changes the count the interval reads, by one.\<close>

lemma mstep_refSeconds:
  "ms_refSeconds s \<le> ms_refSeconds (fst (mstep lc e s)) + (if is_tick e then 1 else 0)" if "ms_refSeconds s \<noteq> 0 \<or> \<not> is_tick e"
  using that by (cases e) (auto simp: is_tick_def handler_defs sortMessage_def insertNewMessage_def streamBroken_def tick_def Let_def
      answered_def loadAnswered_def runAfter_def startLoad_def split: pending.split after_load.split reply.split)

lemma mrun_refSeconds:
  "length (filter is_tick es) \<le> ms_refSeconds s \<Longrightarrow>
   ms_refSeconds s \<le> ms_refSeconds (mrun lc es s) + length (filter is_tick es)"
proof (induction es arbitrary: s)
  case (Cons e es)
  have "ms_refSeconds s \<noteq> 0 \<or> \<not> is_tick e" using Cons.prems by auto
  from mstep_refSeconds [OF this, of lc] Cons.IH [of "fst (mstep lc e s)"] Cons.prems show ?case
    by (auto split: if_splits)
qed simp

lemma tick_quiet: "ms_refSeconds s \<noteq> 0 \<or> isRateLimited now until \<Longrightarrow> ms_pending (fst (mstep lc (Tick now until) s)) = ms_pending s"
  by (auto simp: mstep_def tick_def Let_def)

text \<open>C23: The automatic refresh respects the rate limit and its interval.  A tick during the cooldown sends
  no request.  A tick that does send one asks for the first page, once, and then none of the next
  sixty ticks sends another, whatever else happens between them (answers, clicks, messages, switching
  the refresh off and on); nor do the next sixty ticks after one that was held back by the cooldown.\<close>
theorem refresh_respects_rate_limit:
  assumes "s1 = fst (mstep lc (Tick now until) s)"
    and "length (filter is_tick es) < AUTO_REFRESH_SECONDS" "s2 = mrun lc es s1"
  shows "(isRateLimited now until \<longrightarrow> ms_pending s1 = ms_pending s) \<and>
    (ms_pending s1 \<noteq> ms_pending s \<longrightarrow> ms_pending s1 = ms_pending s @ [PendingLoad (Suc (ms_loadSeq s)) 0 (ThenPage 1)]) \<and>
    (ms_pending s1 \<noteq> ms_pending s \<or> ms_refSeconds s = 0 \<and> ms_autoRefresh s \<and> \<not> ms_closed s \<longrightarrow>
       ms_pending (fst (mstep lc (Tick now' until') s2)) = ms_pending s2)"
proof (intro conjI impI)
  show "isRateLimited now until \<Longrightarrow> ms_pending s1 = ms_pending s" using tick_quiet unfolding assms(1) by blast
  have sent: "ms_pending s1 = ms_pending s @ [PendingLoad (Suc (ms_loadSeq s)) 0 (ThenPage 1)]" "ms_refSeconds s = 0"
    "ms_autoRefresh s" "\<not> ms_closed s" if "ms_pending s1 \<noteq> ms_pending s"
    using that unfolding assms(1) by (auto simp: mstep_def tick_def startLoad_def Let_def split: if_splits)
  then show "ms_pending s1 \<noteq> ms_pending s \<Longrightarrow> ms_pending s1 = ms_pending s @ [PendingLoad (Suc (ms_loadSeq s)) 0 (ThenPage 1)]"
    by blast
  assume "ms_pending s1 \<noteq> ms_pending s \<or> ms_refSeconds s = 0 \<and> ms_autoRefresh s \<and> \<not> ms_closed s"
  then have "ms_refSeconds s = 0 \<and> ms_autoRefresh s \<and> \<not> ms_closed s" using sent by blast
  then have "ms_refSeconds s1 = AUTO_REFRESH_SECONDS" unfolding assms(1) by (simp add: mstep_def tick_def startLoad_def Let_def)
  then have "ms_refSeconds s2 \<noteq> 0" using mrun_refSeconds [of es s1 lc] assms(2,3) by auto
  then show "ms_pending (fst (mstep lc (Tick now' until') s2)) = ms_pending s2" by (simp add: tick_quiet)
qed

theorem refresh_respects_rate_limit_witness:
  "\<exists>s1. s1 = fst (mstep no_order (Tick 5 0) (mountedState\<lparr>ms_refSeconds := 0\<rparr>)) \<and> length (ms_pending s1) = 2 \<and>
    ms_pending (mrun no_order [StreamMessage (sample_row 3), Tick 6 0, ClickSort ''id'', Tick 7 0] s1) = ms_pending s1"
proof -
  let ?s = "mountedState\<lparr>ms_refSeconds := 0\<rparr>"
  define s1 where "s1 = fst (mstep no_order (Tick 5 0) ?s)"
  let ?es = "[StreamMessage (sample_row 3), Tick 6 0, ClickSort ''id'']"
  have two: "length (ms_pending s1) = 2" "ms_pending s1 \<noteq> ms_pending ?s"
    by (simp_all add: s1_def mstep_def tick_def isRateLimited_def mountedState_def startLoad_def)
  have few: "length (filter is_tick ?es) < AUTO_REFRESH_SECONDS" by (simp add: is_tick_def AUTO_REFRESH_SECONDS_def)
  have "ms_pending (mrun no_order ?es s1) = ms_pending s1"
    by (simp add: s1_def mstep_def tick_def isRateLimited_def mountedState_def startLoad_def insertNewMessage_def
        sortMessage_def AUTO_REFRESH_SECONDS_def Let_def)
  moreover have "ms_pending (fst (mstep no_order (Tick 7 0) (mrun no_order ?es s1))) = ms_pending (mrun no_order ?es s1)"
    using refresh_respects_rate_limit [OF s1_def few refl, of 7 0] two by blast
  ultimately show ?thesis using two s1_def by auto
qed

text \<open>The countdown that is shown is not always the one that runs: switching the automatic
  refresh off and on again shows sixty seconds, but the refresh comes when the old count ends.\<close>

theorem countdown_shown_can_differ:
  assumes "ms_refSeconds s \<noteq> AUTO_REFRESH_SECONDS"
  shows "ms_shownSeconds (mrun lc [ToggleRefresh, ToggleRefresh] s) \<noteq> int (ms_refSeconds (mrun lc [ToggleRefresh, ToggleRefresh] s))"
  using assms by (simp add: mstep_def toggleAutoRefresh_def)

theorem countdown_shown_can_differ_witness:
  "ms_shownSeconds (mrun no_order [Tick 0 0, ToggleRefresh, ToggleRefresh] mountedState) \<noteq>
     int (ms_refSeconds (mrun no_order [Tick 0 0, ToggleRefresh, ToggleRefresh] mountedState))"
  using countdown_shown_can_differ [of "mrun no_order [Tick 0 0] mountedState" no_order]
  by (simp add: mstep_def tick_def mountedState_def startLoad_def AUTO_REFRESH_SECONDS_def)

end
