(* ===== verification/Web_Forms.thy ===== *)
theory Web_Forms
  imports Web_Navigation JS_Map
begin

text \<open>
  What the forms of the web client share.  The state of a form is a JavaScript object with one
  property per input (\<open>inputs\<close>); it is kept as the list of its properties, an undefined one being
  absent.  A form shows fields, each bound to one property; submitting it reads the properties,
  and either sends a request or stops.
\<close>

section \<open>Objects\<close>

type_synonym inputs = "(string, json) jmap"

text \<open>\<open>{...inputs, [name]: v}\<close>; setting a property to \<open>undefined\<close> removes it, as the object is
  only read and sent as JSON.\<close>

definition set_opt :: "string \<Rightarrow> json option \<Rightarrow> inputs \<Rightarrow> inputs" where
  "set_opt name v obj =
     (case v of Some x \<Rightarrow> jm_set name x obj | None \<Rightarrow> filter (\<lambda>(k, _). k \<noteq> name) obj)"

definition set_text :: "string \<Rightarrow> string \<Rightarrow> inputs \<Rightarrow> inputs" where
  "set_text name v obj = jm_set name (JStr v) obj"

text \<open>The properties of \<open>later\<close> over those of \<open>obj\<close>: \<open>{...obj, ...later}\<close>.\<close>

definition spread :: "inputs \<Rightarrow> inputs \<Rightarrow> inputs" where
  "spread obj later = fold (\<lambda>(k, v). jm_set k v) later obj"

text \<open>What a condition sees: undefined, null, false, zero and the empty string count as false.\<close>

definition truthy :: "json option \<Rightarrow> bool" where
  "truthy v = (case v of None \<Rightarrow> False | Some JNull \<Rightarrow> False | Some (JBool b) \<Rightarrow> b
     | Some (JNum n) \<Rightarrow> n \<noteq> 0 | Some (JStr s) \<Rightarrow> s \<noteq> [] | Some _ \<Rightarrow> True)"

text \<open>What a template string or \<open>String(...)\<close> makes of a value.\<close>

fun json_text :: "json \<Rightarrow> string" where
  "json_text JNull = ''null''"
| "json_text (JBool b) = (if b then ''true'' else ''false'')"
| "json_text (JNum n) = int_text n"
| "json_text (JStr s) = s"
| "json_text (JArr xs) = join '','' (map (\<lambda>x. if x = JNull then [] else json_text x) xs)"
| "json_text (JObj _) = ''[object Object]''"

definition template :: "json option \<Rightarrow> string" where
  "template v = (case v of None \<Rightarrow> ''undefined'' | Some x \<Rightarrow> json_text x)"

text \<open>A property on which a string method is called: anything but a string throws.\<close>

definition text_of :: "string \<Rightarrow> inputs \<Rightarrow> string option" where
  "text_of name obj = (case jm_get name obj of Some (JStr s) \<Rightarrow> Some s | _ \<Rightarrow> None)"

text \<open>\<open>parseInt(text)\<close> without a radix: a \<open>0x\<close> prefix selects hexadecimal.\<close>

definition parseInt :: "string \<Rightarrow> int option" where
  "parseInt text =
     (let (pos, r) = take_sign (dropWhile js_ws text); sign = (if pos then 1 else -1) in
      if startsWith r ''0x'' \<or> startsWith r ''0X'' then
        (let ds = takeWhile (radix_digit 16) (drop 2 r) in
         if ds = [] then None else Some (sign * int (radix_value 16 0 ds)))
      else
        (let ds = takeWhile is_digit r in
         if ds = [] then None else Some (sign * int (nat_of_digits 0 ds))))"

text \<open>A number in JSON: \<open>NaN\<close> becomes \<open>null\<close>.\<close>

definition json_number :: "int option \<Rightarrow> json" where
  "json_number n = (case n of Some i \<Rightarrow> JNum i | None \<Rightarrow> JNull)"

section \<open>Fields and submissions\<close>

text \<open>The fields of a form and what they change.  A choice offers its values, a code editor has a
  language.\<close>

datatype field =
    Input string
  | Password string
  | Choice string "string list"
  | Toggle string
  | Code string string

fun field_name :: "field \<Rightarrow> string" where
  "field_name (Input n) = n"
| "field_name (Password n) = n"
| "field_name (Choice n _) = n"
| "field_name (Toggle n) = n"
| "field_name (Code n _) = n"

text \<open>Submitting: a request, or an end without one (a message, or nothing; an exception in the
  handler shows nothing either).\<close>

datatype submission = Sends request | Stops "effect list"

fun is_sent :: "submission \<Rightarrow> bool" where
  "is_sent (Sends _) = True"
| "is_sent (Stops _) = False"

text \<open>The state of a form page: its inputs, and whether it still loads.\<close>

record form =
  f_inputs :: inputs
  f_loading :: bool

section \<open>What the pages read of the stored server status\<close>

text \<open>The parsed \<open>localStorage.status\<close>; an item that was never stored is \<^const>\<open>None\<close>.\<close>

record site_status =
  si_email_verification :: bool
  si_github_oauth :: bool
  si_github_client_id :: string
  si_wechat_login :: bool
  si_turnstile_check :: bool
  si_turnstile_site_key :: string

text \<open>The Turnstile check of a page: whether it is on, its key, and the token of the visitor.\<close>

record turnstile =
  ts_enabled :: bool
  ts_siteKey :: string
  ts_token :: string

definition no_turnstile :: turnstile where
  "no_turnstile = \<lparr>ts_enabled = False, ts_siteKey = [], ts_token = []\<rparr>"

definition loadTurnstile :: "site_status option \<Rightarrow> turnstile \<Rightarrow> turnstile" where
  "loadTurnstile status ts =
     (case status of
        Some s \<Rightarrow> if si_turnstile_check s then ts\<lparr>ts_enabled := True, ts_siteKey := si_turnstile_site_key s\<rparr> else ts
      | None \<Rightarrow> ts)"

definition verifyTurnstile :: "string \<Rightarrow> turnstile \<Rightarrow> turnstile" where
  "verifyTurnstile token ts = ts\<lparr>ts_token := token\<rparr>"

definition turnstileMissing :: "turnstile \<Rightarrow> bool" where
  "turnstileMissing ts \<longleftrightarrow> ts_enabled ts \<and> ts_token ts = []"

section \<open>Forms that are saved\<close>

text \<open>The answers to one form's requests, one after the other.\<close>

fun run_saves :: "('a reply \<Rightarrow> 's \<Rightarrow> 's \<times> effect list) \<Rightarrow> 'a reply list \<Rightarrow> 's \<Rightarrow> 's \<times> effect list" where
  "run_saves saved [] s = (s, [])"
| "run_saves saved (reply # replies) s =
     (let (s1, es1) = saved reply s; (s2, es2) = run_saves saved replies s1 in (s2, es1 @ es2))"

fun is_success_toast :: "effect \<Rightarrow> bool" where
  "is_success_toast (Toast t) = (t_kind t = SuccessToast)"
| "is_success_toast _ = False"

fun is_saved :: "'a reply \<Rightarrow> bool" where
  "is_saved (Success _) = True"
| "is_saved (Failure _) = False"

lemma showMessage_no_success: "filter is_success_toast (showMessage m) = []"
  by (cases m; cases "m = Some []") (auto simp: showMessage_def showError_def error_toast_def)

lemma showSuccess_success: "is_success_toast (showSuccess n)"
  by (simp add: showSuccess_def)

text \<open>What a page promises about the answer to a save: a refusal keeps what was typed and is
  shown; a success is announced once.\<close>

locale save_form =
  fixes inputs_of :: "'s \<Rightarrow> inputs" and saved :: "'a reply \<Rightarrow> 's \<Rightarrow> 's \<times> effect list"
  assumes failure_keeps: "inputs_of (fst (saved (Failure m) s)) = inputs_of s"
    and failure_tells: "snd (saved (Failure m) s) = showMessage m"
    and success_tells: "\<exists>n. snd (saved (Success x) s) = [showSuccess n]"
begin

lemma refused_saves:
  "inputs_of (fst (run_saves saved (map Failure ms) s)) = inputs_of s \<and>
   snd (run_saves saved (map Failure ms) s) = concat (map showMessage ms)"
proof (induction ms arbitrary: s)
  case (Cons m ms)
  show ?case
    using Cons [of "fst (saved (Failure m) s)"] failure_keeps [of m s] failure_tells [of m s]
    by (simp add: split_beta)
qed simp

lemma announced_saves:
  "length (filter is_success_toast (snd (run_saves saved rs s))) = length (filter is_saved rs)"
proof (induction rs arbitrary: s)
  case (Cons r rs)
  have "length (filter is_success_toast (snd (saved r s))) = (if is_saved r then 1 else 0)"
  proof (cases r)
    case (Success x)
    then show ?thesis using success_tells [of x s] by (auto simp: showSuccess_success)
  next
    case (Failure m)
    then show ?thesis by (simp add: failure_tells showMessage_no_success)
  qed
  then show ?case using Cons [of "fst (saved r s)"] by (simp add: split_beta)
qed simp

end

section \<open>Facts about objects\<close>

lemma get_set_opt: "jm_get k (set_opt name v obj) = (if k = name then v else jm_get k obj)"
proof (cases v)
  case None
  have "map_of (filter (\<lambda>(k, _). k \<noteq> name) obj) k = (if k = name then None else map_of obj k)"
    by (induction obj) auto
  then show ?thesis using None by (simp add: set_opt_def jm_get_def)
qed (simp add: set_opt_def jm_get_set)

lemma get_set_text: "jm_get k (set_text name v obj) = (if k = name then Some (JStr v) else jm_get k obj)"
  by (simp add: set_text_def jm_get_set)

lemma text_of_set_text:
  "text_of k (set_text name v obj) = (if k = name then Some v else text_of k obj)"
  by (simp add: text_of_def get_set_text)

lemma text_of_set:
  "text_of k (jm_set name v obj) =
     (if k = name then (case v of JStr s \<Rightarrow> Some s | _ \<Rightarrow> None) else text_of k obj)"
  by (simp add: text_of_def jm_get_set)

lemma text_of_Some: "text_of k obj = Some s \<longleftrightarrow> jm_get k obj = Some (JStr s)"
  by (auto simp: text_of_def split: option.splits json.splits)

lemma template_text [simp]: "template (Some (JStr s)) = s"
  by (simp add: template_def)

lemmas object_simps = get_set_opt get_set_text text_of_set_text text_of_set jm_get_set

lemma spread_keeps: "k \<notin> fst ` set later \<Longrightarrow> jm_get k (spread obj later) = jm_get k obj"
  unfolding spread_def by (induction later arbitrary: obj) (auto simp: jm_get_set)

end
