(* ===== verification/Edit_Channel.thy ===== *)
theory Edit_Channel
  imports Web_Forms Web_Helpers
begin

text \<open>
  The channel editor (\<open>pages/Channel/EditChannel.jsx\<close>).  \<open>channelId\<close> is the parameter of the
  route; without one a new channel is created.
\<close>

section \<open>The inputs\<close>

definition channelInputs :: inputs where
  "channelInputs =
     (''type'', JStr ''none'') #
     map (\<lambda>k. (k, JStr [])) [''name'', ''description'', ''secret'', ''app_id'', ''account_id'', ''url'', ''other'',
       ''corp_id'', ''agent_id'', ''token'']"

definition channelForm :: "string option \<Rightarrow> form" where
  "channelForm channelId = \<lparr>f_inputs = channelInputs, f_loading = (channelId \<noteq> None)\<rparr>"

definition handleInputChange :: "string \<Rightarrow> string \<Rightarrow> form \<Rightarrow> form" where
  "handleInputChange name v f = f\<lparr>f_inputs := set_text name v (f_inputs f)\<rparr>"

definition handleSelectChange :: "string \<Rightarrow> string \<Rightarrow> form \<Rightarrow> form" where
  "handleSelectChange name v f = f\<lparr>f_inputs := set_text name v (f_inputs f)\<rparr>"

text \<open>The button beside the token; \<open>random n\<close> are the \<open>n\<close> bytes the host gives.\<close>

definition randomToken :: "(nat \<Rightarrow> 8 word list) \<Rightarrow> form \<Rightarrow> form" where
  "randomToken random f = f\<lparr>f_inputs := set_text ''token'' (generateToken (random 16)) (f_inputs f)\<rparr>"

section \<open>Loading a channel\<close>

definition loadChannel_request :: "string \<Rightarrow> request" where
  "loadChannel_request channelId = Get (''/api/channel/'' @ channelId)"

text \<open>The two parts of a corp application's id; a second part that is missing is undefined.\<close>

definition splitCorp :: "inputs \<Rightarrow> inputs option" where
  "splitCorp data =
     (if jm_get ''type'' data = Some (JStr ''corp_app'') then
        map_option (\<lambda>app_id. let parts = split_on CHR ''|'' app_id in
            set_opt ''agent_id'' (map_option JStr (nth_opt parts 1))
              (set_opt ''corp_id'' (map_option JStr (nth_opt parts 0)) data))
          (text_of ''app_id'' data)
      else Some data)"

definition loadChannel :: "inputs reply \<Rightarrow> form \<Rightarrow> form \<times> effect list" where
  "loadChannel reply f =
     (case reply of
        Success data \<Rightarrow>
          (case splitCorp data of None \<Rightarrow> (f, []) | Some data \<Rightarrow> (f\<lparr>f_inputs := data, f_loading := False\<rparr>, []))
      | Failure m \<Rightarrow> (f\<lparr>f_loading := False\<rparr>, showMessage m))"

section \<open>Submitting\<close>

text \<open>What each type still does to the inputs: the inputs to send, or what stops the submission
  (\<open>Inl []\<close>: an exception).  \<open>parse\<close> is \<open>JSON.parse\<close>.\<close>

definition groupInputs :: "inputs \<Rightarrow> effect list + inputs" where
  "groupInputs obj =
     (case (text_of ''app_id'' obj, text_of ''account_id'' obj) of
        (Some app_id, Some account_id) \<Rightarrow>
          let channels = split_on CHR ''|'' app_id; targets = split_on CHR ''|'' account_id in
          if account_id = [] then
            Inr (set_text ''account_id'' (account_id @ replicate (length channels - 1) CHR ''|'') obj)
          else if length channels \<noteq> length targets then Inl (showProse GroupMismatch)
          else Inr obj
      | _ \<Rightarrow> Inl [])"

definition prepareChannel :: "(string \<Rightarrow> string + json) \<Rightarrow> inputs \<Rightarrow> effect list + inputs" where
  "prepareChannel parse obj =
     (let kind = jm_get ''type'' obj in
      if kind = Some (JStr ''corp_app'') then
        Inr (set_text ''app_id'' (template (jm_get ''corp_id'' obj) @ ''|'' @ template (jm_get ''agent_id'' obj)) obj)
      else if kind = Some (JStr ''bark'') then
        Inr (if jm_get ''url'' obj = Some (JStr []) then set_text ''url'' ''https://api.day.app'' obj else obj)
      else if kind = Some (JStr ''one_bot'') then
        (case text_of ''url'' obj of
           None \<Rightarrow> Inl []
         | Some url \<Rightarrow> Inr (if endsWith url ''/'' then set_text ''url'' (butlast url) obj else obj))
      else if kind = Some (JStr ''group'') then groupInputs obj
      else if kind = Some (JStr ''custom'') then
        (case parse (template (jm_get ''other'' obj)) of
           Inl e \<Rightarrow> Inl (showError (TextError (Prefixed BadJson e)))
         | Inr _ \<Rightarrow> Inr obj)
      else Inr obj)"

definition channelRequest :: "string option \<Rightarrow> inputs \<Rightarrow> request" where
  "channelRequest channelId obj =
     (case channelId of
        Some i \<Rightarrow> Put ''/api/channel/'' (JObj (jm_set ''id'' (json_number (parseInt i)) obj))
      | None \<Rightarrow> Post ''/api/channel'' (JObj obj))"

definition submitChannel :: "(string \<Rightarrow> string + json) \<Rightarrow> string option \<Rightarrow> form \<Rightarrow> submission" where
  "submitChannel parse channelId f =
     (if \<not> truthy (jm_get ''name'' (f_inputs f)) then Stops []
      else case prepareChannel parse (f_inputs f) of
        Inl es \<Rightarrow> Stops es
      | Inr obj \<Rightarrow> Sends (channelRequest channelId obj))"

definition channelSaved :: "string option \<Rightarrow> 'a reply \<Rightarrow> form \<Rightarrow> form \<times> effect list" where
  "channelSaved channelId reply f =
     (case reply of
        Success _ \<Rightarrow>
          if channelId \<noteq> None then (f, [showSuccess (Fixed ChannelUpdated)])
          else (f\<lparr>f_inputs := channelInputs\<rparr>, [showSuccess (Fixed ChannelCreated)])
      | Failure m \<Rightarrow> (f, showMessage m))"

text \<open>The submit button.\<close>

definition submitDisabled :: "form \<Rightarrow> bool" where
  "submitDisabled f \<longleftrightarrow> jm_get ''type'' (f_inputs f) = Some (JStr ''email'') \<or>
     \<not> truthy (jm_get ''name'' (f_inputs f)) \<or> trim (template (jm_get ''name'' (f_inputs f))) = []"

section \<open>The chat id of a Telegram bot\<close>

text \<open>The guard reads a property the form does not have.  The answer of the service is a list of
  updates, each with a chat id or none.\<close>

datatype updates = Updates "int option list" | NotOk

definition getTelegramChatId :: "form \<Rightarrow> submission" where
  "getTelegramChatId f =
     (if jm_get ''telegram_bot_token'' (f_inputs f) = Some (JStr []) then Stops (showProse NeedBotToken)
      else Sends (Get (''https://api.telegram.org/bot'' @ template (jm_get ''secret'' (f_inputs f)) @ ''/getUpdates'')))"

definition chatIdRead :: "updates \<Rightarrow> form \<Rightarrow> form \<times> effect list" where
  "chatIdRead answer f =
     (case answer of
        NotOk \<Rightarrow> (f, showError (TextError (Prefixed BotError ''undefined'')))
      | Updates [] \<Rightarrow> (f, showProse NeedBotMessage)
      | Updates (None # _) \<Rightarrow> (f, [])
      | Updates (Some i # _) \<Rightarrow>
          (f\<lparr>f_inputs := set_text ''account_id'' (int_text i) (f_inputs f)\<rparr>, [showSuccess (Fixed ChatIdRead)]))"

section \<open>The fields of each type\<close>

definition testFields :: "field list" where
  "testFields = [Input ''app_id'', Password ''secret'', Input ''other'', Input ''account_id'']"

definition tencentAlarmFields :: "field list" where
  "tencentAlarmFields = [Input ''app_id'', Password ''secret'', Input ''account_id'', Input ''other'']"

definition corpAppFields :: "field list" where
  "corpAppFields =
     [Input ''corp_id'', Input ''agent_id'', Password ''secret'', Input ''account_id'',
      Choice ''other'' [''plugin'', ''app'']]"

definition corpFields :: "field list" where
  "corpFields = [Input ''url'']"

definition larkFields :: "field list" where
  "larkFields = [Input ''url'', Password ''secret'']"

definition dingFields :: "field list" where
  "dingFields = [Input ''url'', Password ''secret'']"

definition barkFields :: "field list" where
  "barkFields = [Input ''url'', Password ''secret'']"

definition clientFields :: "field list" where
  "clientFields = [Password ''secret'']"

definition telegramFields :: "field list" where
  "telegramFields = [Password ''secret'', Input ''account_id'']"

definition discordFields :: "field list" where
  "discordFields = [Input ''url'']"

definition oneBotFields :: "field list" where
  "oneBotFields = [Input ''url'', Password ''secret'', Input ''account_id'']"

definition groupFields :: "field list" where
  "groupFields = [Input ''app_id'', Input ''account_id'']"

definition larkAppFields :: "field list" where
  "larkAppFields = [Input ''app_id'', Input ''secret'', Input ''account_id'']"

definition customFields :: "field list" where
  "customFields = [Input ''url'', Code ''other'' ''json'']"

text \<open>What the form shows below the common fields; the Telegram form has the button that reads
  the chat id.\<close>

datatype channel_part = HintOnly | Fields "field list" | FieldsAndChatId "field list" | NoPart | UnknownType

definition renderChannelForm :: "string \<Rightarrow> channel_part" where
  "renderChannelForm kind =
     (if kind = ''email'' then HintOnly
      else if kind = ''test'' then Fields testFields
      else if kind = ''tencent_alarm'' then Fields tencentAlarmFields
      else if kind = ''corp_app'' then Fields corpAppFields
      else if kind = ''corp'' then Fields corpFields
      else if kind = ''lark'' then Fields larkFields
      else if kind = ''ding'' then Fields dingFields
      else if kind = ''bark'' then Fields barkFields
      else if kind = ''client'' then Fields clientFields
      else if kind = ''telegram'' then FieldsAndChatId telegramFields
      else if kind = ''discord'' then Fields discordFields
      else if kind = ''one_bot'' then Fields oneBotFields
      else if kind = ''group'' then Fields groupFields
      else if kind = ''lark_app'' then Fields larkAppFields
      else if kind = ''custom'' then Fields customFields
      else if kind = ''none'' then NoPart
      else UnknownType)"

definition channelFields :: "field list" where
  "channelFields = [Input ''name'', Input ''description'', Choice ''type'' (map fst CHANNEL_OPTIONS), Input ''token'']"

section \<open>Facts about the editor\<close>

interpretation chan: save_form f_inputs "channelSaved channelId"
  by unfold_locales (auto simp: channelSaved_def)

text \<open>Submitting touches at most the id, the address and the targets.\<close>

lemma prepareChannel_keeps:
  "prepareChannel parse obj = Inr sent \<Longrightarrow> k \<notin> {''app_id'', ''url'', ''account_id''} \<Longrightarrow> jm_get k sent = jm_get k obj"
  by (auto simp: prepareChannel_def groupInputs_def Let_def object_simps split: if_splits option.splits sum.splits)

lemma length_split_bars: "length (split_on c (replicate n c)) = Suc n"
  by (induction n) simp_all

lemma prepareChannel_group:
  "jm_get ''type'' obj = Some (JStr ''group'') \<Longrightarrow> prepareChannel parse obj = groupInputs obj"
  by (simp add: prepareChannel_def Let_def)

lemma groupInputs_targets:
  assumes "groupInputs obj = Inr sent"
  shows "\<exists>channels typed. text_of ''app_id'' obj = Some channels \<and> text_of ''account_id'' obj = Some typed \<and>
    text_of ''account_id'' sent =
      Some (if typed = [] then replicate (length (split_on CHR ''|'' channels) - 1) CHR ''|'' else typed) \<and>
    (typed \<noteq> [] \<longrightarrow> length (split_on CHR ''|'' typed) = length (split_on CHR ''|'' channels)) \<and>
    (\<forall>k. k \<noteq> ''account_id'' \<longrightarrow> jm_get k sent = jm_get k obj)"
proof -
  obtain channels typed where texts: "text_of ''app_id'' obj = Some channels" "text_of ''account_id'' obj = Some typed"
    using assms by (auto simp: groupInputs_def split: option.splits)
  show ?thesis
  proof (cases "typed = []")
    case True
    then have "sent = set_text ''account_id'' (replicate (length (split_on CHR ''|'' channels) - 1) CHR ''|'') obj"
      using assms texts by (simp add: groupInputs_def Let_def)
    then show ?thesis using texts True by (simp add: text_of_set_text get_set_text)
  next
    case False
    then have "sent = obj \<and> length (split_on CHR ''|'' channels) = length (split_on CHR ''|'' typed)"
      using assms texts by (simp add: groupInputs_def Let_def split: if_splits)
    then show ?thesis using texts False by simp
  qed
qed

lemma split_corp: "CHR ''|'' \<notin> set c \<Longrightarrow> CHR ''|'' \<notin> set a \<Longrightarrow> split_on CHR ''|'' (c @ CHR ''|'' # a) = [c, a]"
  by (simp add: split_on_append split_on_id)

text \<open>The fields a type shows.\<close>

fun part_fields :: "channel_part \<Rightarrow> field list" where
  "part_fields (Fields fs) = fs"
| "part_fields (FieldsAndChatId fs) = fs"
| "part_fields _ = []"

lemmas channel_field_defs = testFields_def tencentAlarmFields_def corpAppFields_def corpFields_def larkFields_def
  dingFields_def barkFields_def clientFields_def telegramFields_def discordFields_def oneBotFields_def groupFields_def
  larkAppFields_def customFields_def

end
