(* ===== verification/Edit_Message.thy ===== *)
theory Edit_Message
  imports Web_Forms Web_Helpers
begin

text \<open>
  The message editor (\<open>pages/Message/EditMessage.jsx\<close>): a new message, or an old one sent again.
  The channel that was chosen last is kept in \<open>localStorage\<close> under \<open>editor_channel\<close>.
\<close>

section \<open>State\<close>

definition JSON_MSG_TYPE_OPTIONS :: "string list" where
  "JSON_MSG_TYPE_OPTIONS = [''interactive'', ''post'', ''image'', ''share_chat'', ''share_user'', ''audio'', ''media'',
     ''file'', ''sticker'']"

text \<open>\<open>localStorage.getItem(...) || ''\<close>.\<close>

definition messageInputs :: "string option \<Rightarrow> inputs" where
  "messageInputs stored =
     [(''title'', JStr []), (''description'', JStr []), (''content'', JStr []), (''url'', JStr []),
      (''channel'', JStr (str_or_empty stored)), (''to'', JStr []), (''async'', JBool False), (''msg_type'', JStr [])]"

record message_form =
  mf_inputs :: inputs
  mf_username :: string
  mf_token :: string
  mf_channels :: "channel_option list"
  mf_loading :: bool
  mf_jsonMode :: bool
  mf_stored :: "string option" \<comment> \<open>\<open>editor_channel\<close>\<close>

definition messageForm :: "string option \<Rightarrow> string option \<Rightarrow> message_form" where
  "messageForm messageId stored =
     \<lparr>mf_inputs = messageInputs stored, mf_username = [], mf_token = [], mf_channels = [],
      mf_loading = (messageId \<noteq> None), mf_jsonMode = False, mf_stored = stored\<rparr>"

section \<open>Editing\<close>

text \<open>Texts and the switch of the asynchronous mode; only the channel is stored, it is a text.\<close>

definition setInputValue :: "string \<Rightarrow> json \<Rightarrow> message_form \<Rightarrow> message_form" where
  "setInputValue name v f =
     f\<lparr>mf_inputs := jm_set name v (mf_inputs f),
       mf_stored := (if name = ''channel'' then Some (json_text v) else mf_stored f)\<rparr>"

definition messageInputChange :: "string \<Rightarrow> string \<Rightarrow> message_form \<Rightarrow> message_form" where
  "messageInputChange name v = setInputValue name (JStr v)"

definition handleJsonModeChange :: "bool \<Rightarrow> message_form \<Rightarrow> message_form" where
  "handleJsonModeChange checked f =
     (let msg_type = jm_get ''msg_type'' (mf_inputs f) in
      setInputValue ''msg_type''
        (if checked then (if truthy msg_type then the msg_type else JStr ''interactive'') else JStr [])
        (f\<lparr>mf_jsonMode := checked\<rparr>))"

text \<open>The button that switches between asynchronous and synchronous.\<close>

definition toggleAsync :: "message_form \<Rightarrow> message_form" where
  "toggleAsync f = setInputValue ''async'' (JBool (\<not> truthy (jm_get ''async'' (mf_inputs f)))) f"

definition messageFields :: "message_form \<Rightarrow> field list" where
  "messageFields f =
     [Input ''title'', Input ''to'', Choice ''channel'' (map co_value (mf_channels f)), Input ''description'',
      Code ''content'' (if mf_jsonMode f then ''json'' else ''markdown'')] @
     (if mf_jsonMode f then [Choice ''msg_type'' JSON_MSG_TYPE_OPTIONS] else []) @
     [Input ''url'', Toggle ''async'']"

section \<open>Loading\<close>

definition loadMessage_request :: "string \<Rightarrow> request" where
  "loadMessage_request messageId = Get (''/api/message/'' @ messageId)"

definition loadMessage :: "inputs reply \<Rightarrow> message_form \<Rightarrow> message_form \<times> effect list" where
  "loadMessage reply f =
     (case reply of
        Success data \<Rightarrow>
          (f\<lparr>mf_inputs := jm_set ''id'' (JNum 0) data, mf_jsonMode := truthy (jm_get ''msg_type'' data),
             mf_loading := False\<rparr>, [])
      | Failure m \<Rightarrow> (f\<lparr>mf_loading := False\<rparr>, showMessage m))"

text \<open>The user and then the channels are asked for.\<close>

definition messageLoader ::
    "loaded_user reply \<Rightarrow> brief_channel list reply \<Rightarrow> message_form \<Rightarrow> message_form \<times> effect list" where
  "messageLoader userReply channelsReply f =
     (let (user, es1) = loadUser userReply; (channels, es2) = loadUserChannels channelsReply;
          f1 = (case user of Some u \<Rightarrow> f\<lparr>mf_username := lu_username u, mf_token := lu_token u\<rparr> | None \<Rightarrow> f);
          f2 = (case channels of Some cs \<Rightarrow> f1\<lparr>mf_channels := cs\<rparr> | None \<Rightarrow> f1)
      in (f2, es1 @ es2))"

section \<open>Sending\<close>

text \<open>In the JSON mode the content is trimmed and must be an object; a content that is no text
  throws.  \<open>Inl []\<close> stands for an exception.\<close>

definition jsonContent :: "(string \<Rightarrow> string + json) \<Rightarrow> json option \<Rightarrow> effect list + json option" where
  "jsonContent parse content =
     (let text = (if truthy content then content else Some (JStr [])) in
      case text of
        Some (JStr s) \<Rightarrow>
          (let msgContent = trim s in
           if msgContent = [] then Inl (showProse JsonEmpty)
           else case parse msgContent of
             Inl e \<Rightarrow> Inl (showError (TextError (Prefixed JsonInvalid e)))
           | Inr (JObj _) \<Rightarrow> Inr (Some (JStr msgContent))
           | Inr _ \<Rightarrow> Inl (showProse JsonNoObject))
      | _ \<Rightarrow> Inl [])"

definition sendMessage :: "(string \<Rightarrow> string + json) \<Rightarrow> message_form \<Rightarrow> submission" where
  "sendMessage parse f =
     (let obj = mf_inputs f; content = jm_get ''content'' obj in
      if \<not> truthy (jm_get ''description'' obj) \<and> \<not> truthy content then Stops []
      else case (if mf_jsonMode f then jsonContent parse content else Inr content) of
        Inl es \<Rightarrow> Stops es
      | Inr msgContent \<Rightarrow>
          Sends (Post (''/push/'' @ mf_username f @ ''/'')
            (JObj (set_text ''token'' (mf_token f) (set_opt ''content'' msgContent obj)))))"

definition messageSent :: "string option \<Rightarrow> 'a reply \<Rightarrow> message_form \<Rightarrow> message_form \<times> effect list" where
  "messageSent messageId reply f =
     (case reply of
        Success _ \<Rightarrow>
          if messageId \<noteq> None then (f, [showSuccess (Fixed Resent)])
          else (f\<lparr>mf_inputs := messageInputs (mf_stored f), mf_jsonMode := False\<rparr>, [showSuccess (Fixed MessageSent)])
      | Failure m \<Rightarrow> (f, showMessage m))"

interpretation mess: save_form mf_inputs "messageSent messageId"
  by unfold_locales (auto simp: messageSent_def)

end
