(* ===== verification/Edit_Webhook.thy ===== *)
theory Edit_Webhook
  imports Web_Forms Web_Helpers
begin

text \<open>
  The webhook editor (\<open>pages/Webhook/EditWebhook.jsx\<close>).  The default texts of the construct rule
  and of the script are prose of the interface: they are a parameter (\<open>webhook_defaults\<close>).
\<close>

section \<open>The inputs\<close>

record webhook_defaults =
  wd_construct_rule :: string
  wd_pre_script :: string
  wd_option :: channel_option \<comment> \<open>the entry that stands for the default channel\<close>

definition EXTRACT_RULE :: string where
  "EXTRACT_RULE = join [CHR 0x0A]
     [''{'', ''  \"title\": \"attr1\",'', ''  \"description\": \"attr2.sub_attr\",'', ''  \"content\": \"attr3\",'',
      ''  \"url\": \"attr4\"'', ''}'']"

definition webhookInputs :: "webhook_defaults \<Rightarrow> inputs" where
  "webhookInputs d =
     [(''name'', JStr []), (''extract_rule'', JStr EXTRACT_RULE), (''construct_rule'', JStr (wd_construct_rule d)),
      (''channel'', JStr ''default''), (''pre_script_enabled'', JBool False), (''pre_script'', JStr (wd_pre_script d))]"

record webhook_form = form +
  wf_channels :: "channel_option list"

definition webhookForm :: "webhook_defaults \<Rightarrow> string option \<Rightarrow> webhook_form" where
  "webhookForm d webhookId = \<lparr>f_inputs = webhookInputs d, f_loading = (webhookId \<noteq> None), wf_channels = []\<rparr>"

definition webhookInputChange :: "string \<Rightarrow> string \<Rightarrow> webhook_form \<Rightarrow> webhook_form" where
  "webhookInputChange name v f = f\<lparr>f_inputs := set_text name v (f_inputs f)\<rparr>"

definition webhookInputValue :: "string \<Rightarrow> json \<Rightarrow> webhook_form \<Rightarrow> webhook_form" where
  "webhookInputValue name v f = f\<lparr>f_inputs := jm_set name v (f_inputs f)\<rparr>"

definition webhookFields :: "webhook_form \<Rightarrow> field list" where
  "webhookFields f =
     [Input ''name'', Choice ''channel'' (map co_value (wf_channels f)), Toggle ''pre_script_enabled''] @
     (if truthy (jm_get ''pre_script_enabled'' (f_inputs f)) then [Code ''pre_script'' ''javascript''] else []) @
     [Code ''extract_rule'' ''json'', Code ''construct_rule'' ''json'']"

section \<open>Loading\<close>

definition loadWebhook_request :: "string \<Rightarrow> request" where
  "loadWebhook_request webhookId = Get (''/api/webhook/'' @ webhookId)"

text \<open>An empty channel is shown as the default one; old webhooks have no script.\<close>

definition shownWebhook :: "webhook_defaults \<Rightarrow> inputs \<Rightarrow> inputs" where
  "shownWebhook d data =
     (let data = (if jm_get ''channel'' data = Some (JStr []) then set_text ''channel'' ''default'' data else data)
      in if \<not> truthy (jm_get ''pre_script'' data) then set_text ''pre_script'' (wd_pre_script d) data else data)"

definition loadWebhook :: "webhook_defaults \<Rightarrow> inputs reply \<Rightarrow> webhook_form \<Rightarrow> webhook_form \<times> effect list" where
  "loadWebhook d reply f =
     (case reply of
        Success data \<Rightarrow> (f\<lparr>f_inputs := shownWebhook d data, f_loading := False\<rparr>, [])
      | Failure m \<Rightarrow> (f\<lparr>f_loading := False\<rparr>, showMessage m))"

definition webhookChannels ::
    "webhook_defaults \<Rightarrow> brief_channel list reply \<Rightarrow> webhook_form \<Rightarrow> webhook_form \<times> effect list" where
  "webhookChannels d reply f =
     (case loadUserChannels reply of
        (Some channels, es) \<Rightarrow> (f\<lparr>wf_channels := wd_option d # channels\<rparr>, es)
      | (None, es) \<Rightarrow> (f, es))"

section \<open>Submitting\<close>

text \<open>\<open>(pre_script || '').trim()\<close> is empty; a script that is no text throws.\<close>

definition blank_script :: "json option \<Rightarrow> bool option" where
  "blank_script v =
     (if \<not> truthy v then Some True
      else case v of Some (JStr s) \<Rightarrow> Some (trim s = []) | _ \<Rightarrow> None)"

definition submitWebhook :: "(string \<Rightarrow> string + json) \<Rightarrow> string option \<Rightarrow> webhook_form \<Rightarrow> submission" where
  "submitWebhook parse webhookId f =
     (let obj = f_inputs f in
      if \<not> truthy (jm_get ''name'' obj) then Stops []
      else if \<not> verifyJSON parse (template (jm_get ''extract_rule'' obj)) then Stops (showProse BadExtractRule)
      else if \<not> verifyJSON parse (template (jm_get ''construct_rule'' obj)) then Stops (showProse BadConstructRule)
      else if truthy (jm_get ''pre_script_enabled'' obj) \<and> blank_script (jm_get ''pre_script'' obj) = None
      then Stops []
      else if truthy (jm_get ''pre_script_enabled'' obj) \<and> blank_script (jm_get ''pre_script'' obj) = Some True
      then Stops (showProse EmptyScript)
      else
        let sent = (if jm_get ''channel'' obj = Some (JStr ''default'') then set_text ''channel'' [] obj else obj) in
        Sends (case webhookId of
            Some i \<Rightarrow> Put ''/api/webhook/'' (JObj (jm_set ''id'' (json_number (parseInt i)) sent))
          | None \<Rightarrow> Post ''/api/webhook'' (JObj sent)))"

definition webhookSaved :: "webhook_defaults \<Rightarrow> string option \<Rightarrow> 'a reply \<Rightarrow> webhook_form \<Rightarrow> webhook_form \<times> effect list" where
  "webhookSaved d webhookId reply f =
     (case reply of
        Success _ \<Rightarrow>
          if webhookId \<noteq> None then (f, [showSuccess (Fixed Updated)])
          else (f\<lparr>f_inputs := webhookInputs d\<rparr>, [showSuccess (Fixed Created)])
      | Failure m \<Rightarrow> (f, showMessage m))"

interpretation hook: save_form f_inputs "webhookSaved d webhookId"
  by unfold_locales (auto simp: webhookSaved_def)

end
