(* ===== verification/Settings.thy ===== *)
theory Settings
  imports Web_Forms Web_Helpers
begin

text \<open>
  The settings pages: \<open>SystemSetting.jsx\<close>, \<open>OtherSetting.jsx\<close>, \<open>PushSetting.jsx\<close>,
  \<open>PersonalSetting.jsx\<close>, and the tabs of \<open>pages/Setting\<close>.
\<close>

section \<open>System settings\<close>

text \<open>\<open>inputs\<close> is what is shown, \<open>originInputs\<close> what the server sent; secrets are never sent.\<close>

record options_page =
  op_inputs :: inputs
  op_origin :: inputs
  op_loading :: bool

definition systemInputs :: inputs where
  "systemInputs = map (\<lambda>k. (k, JStr []))
     [''PasswordLoginEnabled'', ''PasswordRegisterEnabled'', ''EmailVerificationEnabled'', ''GitHubOAuthEnabled'',
      ''GitHubClientId'', ''GitHubClientSecret'', ''Notice'', ''SMTPServer'', ''SMTPPort'', ''SMTPAccount'', ''SMTPToken'',
      ''ServerAddress'', ''Footer'', ''WeChatAuthEnabled'', ''WeChatServerAddress'', ''WeChatServerToken'',
      ''WeChatAccountQRCodeImageURL'', ''TurnstileCheckEnabled'', ''TurnstileSiteKey'', ''TurnstileSecretKey'',
      ''RegisterEnabled'', ''MessagePersistenceEnabled'', ''MessageRenderEnabled'']"

definition systemPage :: options_page where
  "systemPage = \<lparr>op_inputs = systemInputs, op_origin = [], op_loading = False\<rparr>"

definition getOptions_request :: request where
  "getOptions_request = Get ''/api/option/''"

definition getOptions :: "(string \<times> string) list reply \<Rightarrow> options_page \<Rightarrow> options_page \<times> effect list" where
  "getOptions reply f =
     (case reply of
        Success data \<Rightarrow>
          (let newInputs = fold (\<lambda>(k, v). jm_set k (JStr v)) data []
           in (f\<lparr>op_inputs := newInputs, op_origin := newInputs\<rparr>, []))
      | Failure m \<Rightarrow> (f, showMessage m))"

text \<open>One update: the key and the value to send (possibly undefined).  For a switch the value is
  the opposite of the one that is shown.\<close>

type_synonym option_update = "string \<times> json option"

definition SWITCHES :: "string list" where
  "SWITCHES = [''PasswordLoginEnabled'', ''PasswordRegisterEnabled'', ''EmailVerificationEnabled'', ''GitHubOAuthEnabled'',
     ''WeChatAuthEnabled'', ''TurnstileCheckEnabled'', ''RegisterEnabled'', ''MessagePersistenceEnabled'',
     ''MessageRenderEnabled'']"

definition updateOption_value :: "string \<Rightarrow> json option \<Rightarrow> inputs \<Rightarrow> json option" where
  "updateOption_value key v obj =
     (if key \<in> set SWITCHES
      then Some (JStr (if jm_get key obj = Some (JStr ''true'') then ''false'' else ''true''))
      else v)"

definition updateOption_request :: "option_update \<Rightarrow> request" where
  "updateOption_request u = Put ''/api/option/'' (JObj (set_opt ''value'' (snd u) [(''key'', JStr (fst u))]))"

definition updateOption_done :: "option_update \<Rightarrow> 'a reply \<Rightarrow> options_page \<Rightarrow> options_page \<times> effect list" where
  "updateOption_done u reply f =
     (case reply of
        Success _ \<Rightarrow> (f\<lparr>op_inputs := set_opt (fst u) (snd u) (op_inputs f), op_loading := False\<rparr>, [])
      | Failure m \<Rightarrow> (f\<lparr>op_loading := False\<rparr>, showMessage m))"

text \<open>Several updates one after the other; a failed one does not stop the rest.\<close>

fun updateOptions :: "(option_update \<times> 'a reply) list \<Rightarrow> options_page \<Rightarrow> options_page \<times> effect list" where
  "updateOptions [] f = (f, [])"
| "updateOptions ((u, reply) # rest) f =
     (let (f1, es1) = updateOption_done u reply (f\<lparr>op_loading := True\<rparr>); (f2, es2) = updateOptions rest f1
      in (f2, es1 @ es2))"

text \<open>Typing into a text field, and clicking anything else (which saves at once).\<close>

definition typed_option :: "string \<Rightarrow> bool" where
  "typed_option name \<longleftrightarrow> name = ''Notice'' \<or> startsWith name ''SMTP'' \<or>
     name \<in> {''ServerAddress'', ''GitHubClientId'', ''GitHubClientSecret'', ''WeChatServerAddress'', ''WeChatServerToken'',
       ''WeChatAccountQRCodeImageURL'', ''TurnstileSiteKey'', ''TurnstileSecretKey''}"

definition systemInputChange :: "string \<Rightarrow> json option \<Rightarrow> options_page \<Rightarrow> options_page \<times> option_update list" where
  "systemInputChange name v f =
     (if typed_option name then (f\<lparr>op_inputs := set_opt name v (op_inputs f)\<rparr>, [])
      else (f, [(name, updateOption_value name v (op_inputs f))]))"

text \<open>What each save button sends, decided when it is clicked.\<close>

definition changed :: "string \<Rightarrow> options_page \<Rightarrow> bool" where
  "changed key f \<longleftrightarrow> jm_get key (op_origin f) \<noteq> jm_get key (op_inputs f)"

definition if_changed :: "string \<Rightarrow> options_page \<Rightarrow> option_update list" where
  "if_changed key f = (if changed key f then [(key, jm_get key (op_inputs f))] else [])"

definition if_entered :: "string \<Rightarrow> options_page \<Rightarrow> option_update list" where
  "if_entered key f =
     (if changed key f \<and> jm_get key (op_inputs f) \<noteq> Some (JStr []) then [(key, jm_get key (op_inputs f))] else [])"

text \<open>\<^const>\<open>None\<close>: an exception.\<close>

definition submitServerAddress :: "options_page \<Rightarrow> option_update list option" where
  "submitServerAddress f =
     map_option (\<lambda>url. [(''ServerAddress'', Some (JStr (removeTrailingSlash url)))]) (text_of ''ServerAddress'' (op_inputs f))"

definition submitSMTP :: "options_page \<Rightarrow> option_update list" where
  "submitSMTP f =
     if_changed ''SMTPServer'' f @ if_changed ''SMTPAccount'' f @ if_entered ''SMTPPort'' f @ if_entered ''SMTPToken'' f"

definition submitWeChat :: "options_page \<Rightarrow> option_update list option" where
  "submitWeChat f =
     (let rest = if_changed ''WeChatAccountQRCodeImageURL'' f @ if_entered ''WeChatServerToken'' f in
      if changed ''WeChatServerAddress'' f then
        map_option (\<lambda>url. (''WeChatServerAddress'', Some (JStr (removeTrailingSlash url))) # rest)
          (text_of ''WeChatServerAddress'' (op_inputs f))
      else Some rest)"

definition submitGitHubOAuth :: "options_page \<Rightarrow> option_update list" where
  "submitGitHubOAuth f = if_changed ''GitHubClientId'' f @ if_entered ''GitHubClientSecret'' f"

definition submitTurnstile :: "options_page \<Rightarrow> option_update list" where
  "submitTurnstile f = if_changed ''TurnstileSiteKey'' f @ if_entered ''TurnstileSecretKey'' f"

text \<open>The fields of the page.\<close>

definition switchChecked :: "string \<Rightarrow> options_page \<Rightarrow> bool" where
  "switchChecked key f \<longleftrightarrow> jm_get key (op_inputs f) = Some (JStr ''true'')"

definition generalFields :: "field list" where
  "generalFields = [Input ''ServerAddress'', Toggle ''MessagePersistenceEnabled'', Toggle ''MessageRenderEnabled'']"

definition loginFields :: "field list" where
  "loginFields = [Toggle ''PasswordLoginEnabled'', Toggle ''PasswordRegisterEnabled'', Toggle ''EmailVerificationEnabled'',
     Toggle ''GitHubOAuthEnabled'', Toggle ''WeChatAuthEnabled'', Toggle ''RegisterEnabled'', Toggle ''TurnstileCheckEnabled'']"

definition smtpFields :: "field list" where
  "smtpFields = [Input ''SMTPServer'', Input ''SMTPPort'', Input ''SMTPAccount'', Password ''SMTPToken'']"

definition gitHubFields :: "field list" where
  "gitHubFields = [Input ''GitHubClientId'', Password ''GitHubClientSecret'']"

definition weChatFields :: "field list" where
  "weChatFields = [Input ''WeChatServerAddress'', Password ''WeChatServerToken'', Input ''WeChatAccountQRCodeImageURL'']"

definition turnstileFields :: "field list" where
  "turnstileFields = [Input ''TurnstileSiteKey'', Password ''TurnstileSecretKey'']"

section \<open>Other settings\<close>

text \<open>Only the options of the page are taken; the \<open>in\<close> operator also finds what every object
  inherits.\<close>

definition OBJECT_MEMBERS :: "string list" where
  "OBJECT_MEMBERS = [''constructor'', ''hasOwnProperty'', ''isPrototypeOf'', ''propertyIsEnumerable'', ''toLocaleString'',
     ''toString'', ''valueOf'', ''__defineGetter__'', ''__defineSetter__'', ''__lookupGetter__'', ''__lookupSetter__'',
     ''__proto__'']"

definition otherInputs :: inputs where
  "otherInputs = map (\<lambda>k. (k, JStr [])) [''Footer'', ''Notice'', ''About'', ''HomePageLink'']"

record other_page =
  ot_inputs :: inputs
  ot_loading :: bool
  ot_update :: "(string \<times> string) option" \<comment> \<open>the dialog with the tag and the text of a newer release\<close>

definition otherPage :: other_page where
  "otherPage = \<lparr>ot_inputs = otherInputs, ot_loading = False, ot_update = None\<rparr>"

definition in_object :: "string \<Rightarrow> inputs \<Rightarrow> bool" where
  "in_object k obj \<longleftrightarrow> jm_get k obj \<noteq> None \<or> k \<in> set OBJECT_MEMBERS"

definition getOtherOptions :: "(string \<times> string) list reply \<Rightarrow> other_page \<Rightarrow> other_page \<times> effect list" where
  "getOtherOptions reply f =
     (case reply of
        Success data \<Rightarrow>
          (f\<lparr>ot_inputs := fold (\<lambda>(k, v). jm_set k (JStr v)) (filter (\<lambda>(k, _). in_object k (ot_inputs f)) data) []\<rparr>, [])
      | Failure m \<Rightarrow> (f, showMessage m))"

definition otherUpdateOption :: "option_update \<Rightarrow> 'a reply \<Rightarrow> other_page \<Rightarrow> other_page \<times> effect list" where
  "otherUpdateOption u reply f =
     (case reply of
        Success _ \<Rightarrow> (f\<lparr>ot_inputs := set_opt (fst u) (snd u) (ot_inputs f), ot_loading := False\<rparr>, [])
      | Failure m \<Rightarrow> (f\<lparr>ot_loading := False\<rparr>, showMessage m))"

definition otherInputChange :: "string \<Rightarrow> string \<Rightarrow> other_page \<Rightarrow> other_page" where
  "otherInputChange name v f = f\<lparr>ot_inputs := set_text name v (ot_inputs f)\<rparr>"

text \<open>The four save buttons: the option they save is the value that is shown.\<close>

definition submitOther :: "string \<Rightarrow> other_page \<Rightarrow> option_update" where
  "submitOther key f = (key, jm_get key (ot_inputs f))"

definition otherFields :: "field list" where
  "otherFields = [Input ''Notice'', Input ''HomePageLink'', Code ''About'' ''markdown'', Input ''Footer'']"

text \<open>The check for a newer release: its tag and its text, rendered by \<open>marked\<close>.
  When the request failed there is neither, and rendering the missing text throws.\<close>

definition checkUpdate_request :: request where
  "checkUpdate_request = Get ''https://api.github.com/repos/BeyondandSharp/message-pusher/releases/latest''"

definition checkUpdate :: "(string \<Rightarrow> string) \<Rightarrow> string \<Rightarrow> (string \<times> string) option \<Rightarrow> other_page \<Rightarrow>
     other_page \<times> effect list" where
  "checkUpdate marked appVersion release f =
     (case release of
        None \<Rightarrow> (f, [])
      | Some (tag_name, body) \<Rightarrow> if tag_name = appVersion then (f, [showSuccess (Prefixed UpToDate tag_name)])
        else (f\<lparr>ot_update := Some (tag_name, marked body)\<rparr>, []))"

definition closeUpdate :: "bool \<Rightarrow> other_page \<Rightarrow> other_page \<times> effect list" where
  "closeUpdate details f =
     (f\<lparr>ot_update := None\<rparr>,
      if details then [Redirect ''https://github.com/BeyondandSharp/message-pusher/releases/latest''] else [])"

section \<open>Push settings\<close>

record push_page =
  pp_user :: loaded_user
  pp_channels :: "channel_option list"
  pp_loading :: bool

definition pushPage :: push_page where
  "pushPage = \<lparr>pp_user = \<lparr>lu_username = [], lu_channel = [], lu_token = []\<rparr>, pp_channels = [], pp_loading = True\<rparr>"

definition pushLoader :: "loaded_user reply \<Rightarrow> brief_channel list reply \<Rightarrow> push_page \<Rightarrow> push_page \<times> effect list" where
  "pushLoader userReply channelsReply f =
     (let (user, es1) = loadUser userReply; (channels, es2) = loadUserChannels channelsReply
      in (f\<lparr>pp_user := (case user of Some u \<Rightarrow> u | None \<Rightarrow> pp_user f),
            pp_channels := (case channels of Some cs \<Rightarrow> cs | None \<Rightarrow> pp_channels f), pp_loading := False\<rparr>, es1 @ es2))"

definition pushChannelChange :: "string \<Rightarrow> push_page \<Rightarrow> push_page" where
  "pushChannelChange v f = f\<lparr>pp_user := (pp_user f)\<lparr>lu_channel := v\<rparr>\<rparr>"

definition pushTokenChange :: "string \<Rightarrow> push_page \<Rightarrow> push_page" where
  "pushTokenChange v f = f\<lparr>pp_user := (pp_user f)\<lparr>lu_token := v\<rparr>\<rparr>"

definition pushRandomToken :: "(nat \<Rightarrow> 8 word list) \<Rightarrow> push_page \<Rightarrow> push_page" where
  "pushRandomToken random f = f\<lparr>pp_user := (pp_user f)\<lparr>lu_token := generateToken (random 16)\<rparr>\<rparr>"

text \<open>An empty token is sent as a space, which \<open>loadUser\<close> reads as empty again.\<close>

definition submitPush :: "string \<Rightarrow> push_page \<Rightarrow> submission" where
  "submitPush which f =
     (if which = ''general'' then
        Sends (Put ''/api/user/self''
          (JObj [(''channel'', JStr (lu_channel (pp_user f))),
                 (''token'', JStr (if lu_token (pp_user f) = [] then '' '' else lu_token (pp_user f)))]))
      else Stops (showError (TextError (Prefixed BadParameter which))))"

definition pushSaved :: "'a reply \<Rightarrow> push_page \<Rightarrow> push_page \<times> effect list" where
  "pushSaved reply f =
     (case reply of Success _ \<Rightarrow> (f, [showSuccess (Fixed SettingsSaved)]) | Failure m \<Rightarrow> (f, showMessage m))"

definition pushTest :: "push_page \<Rightarrow> test_push" where
  "pushTest f = testChannel_request (lu_username (pp_user f)) (lu_token (pp_user f)) []"

section \<open>Personal settings\<close>

record personal_page =
  pe_inputs :: inputs
  pe_turnstile :: turnstile
  pe_weChatModal :: bool
  pe_emailModal :: bool
  pe_loading :: bool

definition personalPage :: "site_status option \<Rightarrow> personal_page" where
  "personalPage status =
     \<lparr>pe_inputs = map (\<lambda>k. (k, JStr [])) [''wechat_verification_code'', ''email_verification_code'', ''email''],
      pe_turnstile = loadTurnstile status no_turnstile, pe_weChatModal = False, pe_emailModal = False, pe_loading = False\<rparr>"

definition personalInputChange :: "string \<Rightarrow> string \<Rightarrow> personal_page \<Rightarrow> personal_page" where
  "personalInputChange name v f = f\<lparr>pe_inputs := set_text name v (pe_inputs f)\<rparr>"

text \<open>The visitor check reports its token; the two dialogs open and close.\<close>

definition personalVerify :: "string \<Rightarrow> personal_page \<Rightarrow> personal_page" where
  "personalVerify token f = f\<lparr>pe_turnstile := verifyTurnstile token (pe_turnstile f)\<rparr>"

definition showWeChatBind :: "bool \<Rightarrow> personal_page \<Rightarrow> personal_page" where
  "showWeChatBind shown f = f\<lparr>pe_weChatModal := shown\<rparr>"

definition showEmailBind :: "bool \<Rightarrow> personal_page \<Rightarrow> personal_page" where
  "showEmailBind shown f = f\<lparr>pe_emailModal := shown\<rparr>"

text \<open>The fields inside the dialogs.\<close>

definition weChatBindFields :: "field list" where
  "weChatBindFields = [Input ''wechat_verification_code'']"

definition emailBindFields :: "field list" where
  "emailBindFields = [Input ''email'', Input ''email_verification_code'']"

definition resetToken_done :: "string reply \<Rightarrow> effect list" where
  "resetToken_done reply =
     (case reply of
        Success data \<Rightarrow> [CopyText data, showSuccess (Prefixed TokenReset data)]
      | Failure m \<Rightarrow> showMessage m)"

definition bindWeChat :: "personal_page \<Rightarrow> submission" where
  "bindWeChat f =
     (let code = jm_get ''wechat_verification_code'' (pe_inputs f) in
      if code = Some (JStr []) then Stops [] else Sends (Get (''/api/oauth/wechat/bind?code='' @ template code)))"

definition weChatBound :: "'a reply \<Rightarrow> personal_page \<Rightarrow> personal_page \<times> effect list" where
  "weChatBound reply f =
     (case reply of
        Success _ \<Rightarrow> (f\<lparr>pe_weChatModal := False\<rparr>, [showSuccess (Fixed WeChatBound)])
      | Failure m \<Rightarrow> (f, showMessage m))"

text \<open>Asking for a code by mail; the address goes into the URL as it is.\<close>

definition verificationUrl :: "json option \<Rightarrow> turnstile \<Rightarrow> string" where
  "verificationUrl email ts = ''/api/verification?email='' @ template email @ ''&turnstile='' @ ts_token ts"

definition verificationSubmission :: "json option \<Rightarrow> turnstile \<Rightarrow> submission" where
  "verificationSubmission email ts =
     (if email = Some (JStr []) then Stops []
      else if turnstileMissing ts then Stops [showInfo (Fixed NeedTurnstile)]
      else Sends (Get (verificationUrl email ts)))"

text \<open>The page is loading from the request to its answer.\<close>

definition personalLoading :: "submission \<Rightarrow> personal_page \<Rightarrow> personal_page" where
  "personalLoading r f = (if is_sent r then f\<lparr>pe_loading := True\<rparr> else f)"

definition sendVerificationCode :: "personal_page \<Rightarrow> personal_page \<times> submission" where
  "sendVerificationCode f =
     (let r = verificationSubmission (jm_get ''email'' (pe_inputs f)) (pe_turnstile f) in (personalLoading r f, r))"

definition codeSent :: "'a reply \<Rightarrow> personal_page \<Rightarrow> personal_page \<times> effect list" where
  "codeSent reply f =
     (f\<lparr>pe_loading := False\<rparr>,
      case reply of Success _ \<Rightarrow> [showSuccess (Fixed CodeSent)] | Failure m \<Rightarrow> showMessage m)"

definition bindEmail :: "personal_page \<Rightarrow> personal_page \<times> submission" where
  "bindEmail f =
     (let code = jm_get ''email_verification_code'' (pe_inputs f);
          r = (if code = Some (JStr []) then Stops []
               else Sends (Get (''/api/oauth/email/bind?email='' @ template (jm_get ''email'' (pe_inputs f)) @
                 ''&code='' @ template code)))
      in (personalLoading r f, r))"

definition emailBound :: "'a reply \<Rightarrow> personal_page \<Rightarrow> personal_page \<times> effect list" where
  "emailBound reply f =
     (case reply of
        Success _ \<Rightarrow> (f\<lparr>pe_emailModal := False, pe_loading := False\<rparr>, [showSuccess (Fixed EmailBound)])
      | Failure m \<Rightarrow> (f\<lparr>pe_loading := False\<rparr>, showMessage m))"

definition gitHubAuthorizeUrl :: "string \<Rightarrow> string" where
  "gitHubAuthorizeUrl clientId =
     ''https://github.com/login/oauth/authorize?client_id='' @ clientId @ ''&scope=user:email''"

definition personalGitHub :: "site_status \<Rightarrow> effect list" where
  "personalGitHub status = [OpenPage (gitHubAuthorizeUrl (si_github_client_id status))]"

section \<open>The tabs\<close>

definition settingTabs :: "stored_user option \<Rightarrow> string list" where
  "settingTabs user = [''personal'', ''push''] @ (if isRoot user then [''system'', ''other''] else [])"

end
