(* ===== verification/Auth_Forms.thy ===== *)
theory Auth_Forms
  imports Settings
begin

text \<open>
  Logging in, registering, resetting a password, the GitHub callback, and the forms that edit or
  add a user (\<open>LoginForm.jsx\<close>, \<open>RegisterForm.jsx\<close>, \<open>PasswordResetForm.jsx\<close>,
  \<open>PasswordResetConfirm.jsx\<close>, \<open>GitHubOAuth.jsx\<close>, \<open>pages/User\<close>).  \<open>stringify\<close> is
  \<open>JSON.stringify\<close>.
\<close>

section \<open>Logging in\<close>

record login_page =
  lp_inputs :: inputs
  lp_submitted :: bool
  lp_weChatModal :: bool

text \<open>An expired session is announced when the page opens.\<close>

definition loginPage :: "string option \<Rightarrow> login_page \<times> effect list" where
  "loginPage expired =
     (\<lparr>lp_inputs = map (\<lambda>k. (k, JStr [])) [''username'', ''password'', ''wechat_verification_code''],
       lp_submitted = False, lp_weChatModal = False\<rparr>,
      if str_or_empty expired \<noteq> [] then showProse SessionExpired else [])"

definition loginChange :: "string \<Rightarrow> string \<Rightarrow> login_page \<Rightarrow> login_page" where
  "loginChange name v f = f\<lparr>lp_inputs := set_text name v (lp_inputs f)\<rparr>"

definition loginSubmit :: "login_page \<Rightarrow> login_page \<times> submission" where
  "loginSubmit f =
     (let username = jm_get ''username'' (lp_inputs f); password = jm_get ''password'' (lp_inputs f) in
      (f\<lparr>lp_submitted := True\<rparr>,
       if truthy username \<and> truthy password
       then Sends (Post ''/api/user/login'' (JObj (set_opt ''password'' password (set_opt ''username'' username []))))
       else Stops []))"

definition loggedIn :: "('u \<Rightarrow> string) \<Rightarrow> 'u reply \<Rightarrow> 'u user_action option \<times> effect list" where
  "loggedIn stringify reply =
     (case reply of
        Success data \<Rightarrow>
          (Some (Login data), [StoreItem ''user'' (stringify data), Navigate ''/'', showSuccess (Fixed LoggedIn)])
      | Failure m \<Rightarrow> (None, showMessage m))"

definition showWeChatLogin :: "bool \<Rightarrow> login_page \<Rightarrow> login_page" where
  "showWeChatLogin shown f = f\<lparr>lp_weChatModal := shown\<rparr>"

definition signInFields :: "field list" where
  "signInFields = [Input ''username'', Password ''password'']"

definition weChatCodeFields :: "field list" where
  "weChatCodeFields = [Input ''wechat_verification_code'']"

definition weChatLogin_request :: "login_page \<Rightarrow> request" where
  "weChatLogin_request f =
     Get (''/api/oauth/wechat?code='' @ template (jm_get ''wechat_verification_code'' (lp_inputs f)))"

definition weChatLoggedIn ::
    "('u \<Rightarrow> string) \<Rightarrow> 'u reply \<Rightarrow> login_page \<Rightarrow> login_page \<times> 'u user_action option \<times> effect list" where
  "weChatLoggedIn stringify reply f =
     (case reply of
        Success data \<Rightarrow> (f\<lparr>lp_weChatModal := False\<rparr>, Some (Login data),
          [StoreItem ''user'' (stringify data), Navigate ''/'', showSuccess (Fixed LoggedIn)])
      | Failure m \<Rightarrow> (f, None, showMessage m))"

definition loginGitHub :: "site_status \<Rightarrow> effect list" where
  "loginGitHub status = [OpenPage (gitHubAuthorizeUrl (si_github_client_id status))]"

datatype login_way = GitHubButton | WeChatButton

definition loginWays :: "site_status \<Rightarrow> login_way list" where
  "loginWays status =
     (if si_github_oauth status then [GitHubButton] else []) @ (if si_wechat_login status then [WeChatButton] else [])"

section \<open>Registering\<close>

record register_page =
  rp_inputs :: inputs
  rp_emailVerification :: bool
  rp_turnstile :: turnstile
  rp_loading :: bool

definition registerPage :: "site_status option \<Rightarrow> register_page" where
  "registerPage status =
     \<lparr>rp_inputs = map (\<lambda>k. (k, JStr [])) [''username'', ''password'', ''password2'', ''email'', ''verification_code''],
      rp_emailVerification = (case status of Some s \<Rightarrow> si_email_verification s | None \<Rightarrow> False),
      rp_turnstile = loadTurnstile status no_turnstile, rp_loading = False\<rparr>"

definition registerChange :: "string \<Rightarrow> string \<Rightarrow> register_page \<Rightarrow> register_page" where
  "registerChange name v f = f\<lparr>rp_inputs := set_text name v (rp_inputs f)\<rparr>"

text \<open>The passwords are texts: they are initially, and only typing changes them.\<close>

definition registerSubmission :: "register_page \<Rightarrow> submission" where
  "registerSubmission f =
     (case (text_of ''password'' (rp_inputs f), text_of ''password2'' (rp_inputs f)) of
        (Some password, Some password2) \<Rightarrow>
          if length password < 8 then Stops [showInfo (Fixed PasswordShort)]
          else if password \<noteq> password2 then Stops [showInfo (Fixed PasswordMismatch)]
          else if truthy (jm_get ''username'' (rp_inputs f)) \<and> password \<noteq> [] then
            (if turnstileMissing (rp_turnstile f) then Stops [showInfo (Fixed NeedTurnstile)]
             else Sends (Post (''/api/user/register?turnstile='' @ ts_token (rp_turnstile f)) (JObj (rp_inputs f))))
          else Stops []
      | _ \<Rightarrow> Stops [])"

text \<open>The page is loading from a request to its answer.\<close>

definition registerLoading :: "submission \<Rightarrow> register_page \<Rightarrow> register_page" where
  "registerLoading r f = (if is_sent r then f\<lparr>rp_loading := True\<rparr> else f)"

definition registerSubmit :: "register_page \<Rightarrow> register_page \<times> submission" where
  "registerSubmit f = (registerLoading (registerSubmission f) f, registerSubmission f)"

definition registerVerify :: "string \<Rightarrow> register_page \<Rightarrow> register_page" where
  "registerVerify token f = f\<lparr>rp_turnstile := verifyTurnstile token (rp_turnstile f)\<rparr>"

definition registered :: "'a reply \<Rightarrow> register_page \<Rightarrow> register_page \<times> effect list" where
  "registered reply f =
     (f\<lparr>rp_loading := False\<rparr>,
      case reply of
        Success _ \<Rightarrow> [Navigate ''/login'', showSuccess (Fixed Registered)]
      | Failure m \<Rightarrow> showMessage m)"

definition registerSendCode :: "register_page \<Rightarrow> register_page \<times> submission" where
  "registerSendCode f =
     (let r = verificationSubmission (jm_get ''email'' (rp_inputs f)) (rp_turnstile f) in (registerLoading r f, r))"

definition registerCodeSent :: "'a reply \<Rightarrow> register_page \<Rightarrow> register_page \<times> effect list" where
  "registerCodeSent reply f =
     (f\<lparr>rp_loading := False\<rparr>,
      case reply of Success _ \<Rightarrow> [showSuccess (Fixed CodeSent)] | Failure m \<Rightarrow> showMessage m)"

definition registerFields :: "register_page \<Rightarrow> field list" where
  "registerFields f =
     [Input ''username'', Password ''password'', Password ''password2''] @
     (if rp_emailVerification f then [Input ''email'', Input ''verification_code''] else [])"

section \<open>Resetting a password\<close>

record reset_page =
  re_email :: string
  re_turnstile :: turnstile
  re_loading :: bool

definition resetPage :: "site_status option \<Rightarrow> reset_page" where
  "resetPage status = \<lparr>re_email = [], re_turnstile = loadTurnstile status no_turnstile, re_loading = False\<rparr>"

definition resetChange :: "string \<Rightarrow> reset_page \<Rightarrow> reset_page" where
  "resetChange v f = f\<lparr>re_email := v\<rparr>"

definition resetVerify :: "string \<Rightarrow> reset_page \<Rightarrow> reset_page" where
  "resetVerify token f = f\<lparr>re_turnstile := verifyTurnstile token (re_turnstile f)\<rparr>"

definition resetSubmit :: "reset_page \<Rightarrow> reset_page \<times> submission" where
  "resetSubmit f =
     (if re_email f = [] then (f, Stops [])
      else if turnstileMissing (re_turnstile f) then (f, Stops [showInfo (Fixed NeedTurnstile)])
      else (f\<lparr>re_loading := True\<rparr>,
            Sends (Get (''/api/reset_password?email='' @ re_email f @ ''&turnstile='' @ ts_token (re_turnstile f)))))"

definition resetSent :: "'a reply \<Rightarrow> reset_page \<Rightarrow> reset_page \<times> effect list" where
  "resetSent reply f =
     (case reply of
        Success _ \<Rightarrow> (f\<lparr>re_email := [], re_loading := False\<rparr>, [showSuccess (Fixed ResetMailSent)])
      | Failure m \<Rightarrow> (f\<lparr>re_loading := False\<rparr>, showMessage m))"

text \<open>The page behind the link in the mail; a parameter the link lacks is \<open>null\<close>.\<close>

record confirm_page =
  cp_email :: "string option"
  cp_token :: "string option"
  cp_loading :: bool

definition confirmPage :: "string option \<Rightarrow> string option \<Rightarrow> confirm_page" where
  "confirmPage email token = \<lparr>cp_email = email, cp_token = token, cp_loading = False\<rparr>"

definition json_or_null :: "string option \<Rightarrow> json" where
  "json_or_null v = (case v of Some s \<Rightarrow> JStr s | None \<Rightarrow> JNull)"

definition confirmSubmit :: "confirm_page \<Rightarrow> confirm_page \<times> submission" where
  "confirmSubmit f =
     (if str_or_empty (cp_email f) = [] then (f, Stops [])
      else (f\<lparr>cp_loading := True\<rparr>,
            Sends (Post ''/api/user/reset''
              (JObj [(''email'', json_or_null (cp_email f)), (''token'', json_or_null (cp_token f))]))))"

definition confirmed :: "string reply \<Rightarrow> confirm_page \<Rightarrow> confirm_page \<times> effect list" where
  "confirmed reply f =
     (f\<lparr>cp_loading := False\<rparr>,
      case reply of
        Success password \<Rightarrow> [CopyText password, showSuccess (Prefixed DefaultPassword password)]
      | Failure m \<Rightarrow> showMessage m)"

section \<open>The GitHub callback\<close>

text \<open>What the server answers to the code: the user, and a message that tells a binding from a
  login.\<close>

datatype 'u oauth_reply = OAuthOk string 'u | OAuthFailed "string option"

definition sendCode_request :: "string option \<Rightarrow> request" where
  "sendCode_request param = Get (''/api/oauth/github?code='' @ (case param of Some x \<Rightarrow> x | None \<Rightarrow> ''null''))"

text \<open>What the page says while it waits, and one answer: what is dispatched, the effects, what the
  page says next, and the pause in milliseconds before the code is sent once more.\<close>

datatype prompt = Processing | GivingUp | RetryNumber nat

record 'u code_answer =
  ca_action :: "'u user_action option"
  ca_effects :: "effect list"
  ca_prompt :: prompt
  ca_pause :: "nat option"

definition codeAnswered :: "('u \<Rightarrow> string) \<Rightarrow> nat \<Rightarrow> prompt \<Rightarrow> 'u oauth_reply \<Rightarrow> 'u code_answer" where
  "codeAnswered stringify count now reply =
     (case reply of
        OAuthOk message data \<Rightarrow>
          if message = ''bind''
          then \<lparr>ca_action = None, ca_effects = [showSuccess (Fixed GitHubBound), Navigate ''/setting''],
                ca_prompt = now, ca_pause = None\<rparr>
          else \<lparr>ca_action = Some (Login data),
                ca_effects = [StoreItem ''user'' (stringify data), showSuccess (Fixed LoggedIn), Navigate ''/''],
                ca_prompt = now, ca_pause = None\<rparr>
      | OAuthFailed m \<Rightarrow>
          if count = 0
          then \<lparr>ca_action = None, ca_effects = showMessage m @ [Navigate ''/setting''], ca_prompt = GivingUp, ca_pause = None\<rparr>
          else \<lparr>ca_action = None, ca_effects = showMessage m, ca_prompt = RetryNumber (Suc count),
                ca_pause = Some (Suc count * 2000)\<rparr>)"

text \<open>The whole exchange, over the answers to come: the answers that were used, in order.\<close>

fun sendCode :: "('u \<Rightarrow> string) \<Rightarrow> nat \<Rightarrow> prompt \<Rightarrow> 'u oauth_reply list \<Rightarrow> 'u code_answer list" where
  "sendCode stringify count now [] = []"
| "sendCode stringify count now (reply # replies) =
     (let a = codeAnswered stringify count now reply
      in a # (if ca_pause a = None then [] else sendCode stringify (Suc count) (ca_prompt a) replies))"

text \<open>The page starts with the code of the URL and no failure so far.\<close>

definition gitHubPage :: "('u \<Rightarrow> string) \<Rightarrow> 'u oauth_reply list \<Rightarrow> 'u code_answer list" where
  "gitHubPage stringify replies = sendCode stringify 0 Processing replies"

section \<open>Editing and adding a user\<close>

definition userInputs :: inputs where
  "userInputs = map (\<lambda>k. (k, JStr [])) [''username'', ''display_name'', ''password'', ''github_id'', ''wechat_id'', ''email'']"

definition userForm :: form where
  "userForm = \<lparr>f_inputs = userInputs, f_loading = True\<rparr>"

definition userInputChange :: "string \<Rightarrow> string \<Rightarrow> form \<Rightarrow> form" where
  "userInputChange name v f = f\<lparr>f_inputs := set_text name v (f_inputs f)\<rparr>"

definition loadEditUser_request :: "string option \<Rightarrow> request" where
  "loadEditUser_request userId =
     Get (if str_or_empty userId \<noteq> [] then ''/api/user/'' @ str_or_empty userId else ''/api/user/self'')"

definition loadEditUser :: "inputs reply \<Rightarrow> form \<Rightarrow> form \<times> effect list" where
  "loadEditUser reply f =
     (case reply of
        Success data \<Rightarrow> (f\<lparr>f_inputs := set_text ''password'' [] data, f_loading := False\<rparr>, [])
      | Failure m \<Rightarrow> (f\<lparr>f_loading := False\<rparr>, showMessage m))"

definition submitEditUser :: "string option \<Rightarrow> form \<Rightarrow> request" where
  "submitEditUser userId f =
     (if str_or_empty userId \<noteq> []
      then Put ''/api/user/'' (JObj (jm_set ''id'' (json_number (parseInt (str_or_empty userId))) (f_inputs f)))
      else Put ''/api/user/self'' (JObj (f_inputs f)))"

definition userSaved :: "'a reply \<Rightarrow> form \<Rightarrow> form \<times> effect list" where
  "userSaved reply f =
     (case reply of Success _ \<Rightarrow> (f, [showSuccess (Fixed UserUpdated)]) | Failure m \<Rightarrow> (f, showMessage m))"

text \<open>The fields that can be changed; the bound accounts are read only.\<close>

definition editUserFields :: "field list" where
  "editUserFields = [Input ''username'', Password ''password'', Input ''display_name'']"

definition newUserInputs :: inputs where
  "newUserInputs = map (\<lambda>k. (k, JStr [])) [''username'', ''display_name'', ''password'']"

definition newUserInputChange :: "string \<Rightarrow> string \<Rightarrow> inputs \<Rightarrow> inputs" where
  "newUserInputChange name v obj = set_text name v obj"

definition submitAddUser :: "inputs \<Rightarrow> submission" where
  "submitAddUser obj =
     (if jm_get ''username'' obj = Some (JStr []) \<or> jm_get ''password'' obj = Some (JStr []) then Stops []
      else Sends (Post ''/api/user/'' (JObj obj)))"

definition userAdded :: "'a reply \<Rightarrow> inputs \<Rightarrow> inputs \<times> effect list" where
  "userAdded reply obj =
     (case reply of Success _ \<Rightarrow> (newUserInputs, [showSuccess (Fixed UserCreated)]) | Failure m \<Rightarrow> (obj, showMessage m))"

definition newUserFields :: "field list" where
  "newUserFields = [Input ''username'', Input ''display_name'', Password ''password'']"

interpretation user: save_form f_inputs userSaved
  by unfold_locales (auto simp: userSaved_def)

interpretation new_user: save_form id userAdded
  by unfold_locales (auto simp: userAdded_def)

end
