(* ===== verification/Web_Pages.thy ===== *)
theory Web_Pages
  imports Web_Navigation
begin

text \<open>
  Links in rendered messages (\<open>helpers/markdown.js\<close>), the code editor's buttons
  (\<open>components/CodeEditor.jsx\<close>), the theme menu, the notice of the home page and the about page.
\<close>

section \<open>Links in messages\<close>

text \<open>The default tokenizer of \<open>marked\<close> is a parameter: for a source it gives no token, or a
  token, of which only the text is read.\<close>

record 't url_token =
  ut_text :: string
  ut_rest :: 't

datatype 't link = DefaultToken "'t url_token" | PlainLink string string \<comment> \<open>its text (and raw), its target\<close>

definition url_char :: "char \<Rightarrow> bool" where
  "url_char c \<longleftrightarrow> \<not> js_ws c \<and> c \<notin> set ''<>\"'`''"

definition url_prefixes :: "string list" where
  "url_prefixes = [''https://'', ''http://'', ''ftp://'', ''www.'']"

fun first_prefix :: "string list \<Rightarrow> string \<Rightarrow> string option" where
  "first_prefix [] s = None"
| "first_prefix (p # ps) s = (if startsWith s p then Some p else first_prefix ps s)"

text \<open>\<open>STRICT_URL.exec(src)\<close>: a prefix and at least one more character.\<close>

definition STRICT_URL :: "string \<Rightarrow> string option" where
  "STRICT_URL src =
     (case first_prefix url_prefixes src of
        None \<Rightarrow> None
      | Some p \<Rightarrow>
          let rest = takeWhile url_char (drop (length p) src)
          in if rest = [] then None else Some (p @ rest))"

definition trim_end :: "string \<Rightarrow> string \<Rightarrow> string" where
  "trim_end cs s = rev (dropWhile (\<lambda>c. c \<in> set cs) (rev s))"

definition TRAILING_PUNCTUATION :: string where
  "TRAILING_PUNCTUATION = ''?!.,:;*_'\"~)]}''"

definition TRAILING_JSON_CLOSERS :: string where
  "TRAILING_JSON_CLOSERS = ''}]''"

definition url_target :: "string \<Rightarrow> string" where
  "url_target text = (if startsWith text ''www.'' then ''http://'' @ text else text)"

definition url :: "(string \<Rightarrow> 't url_token option) \<Rightarrow> string \<Rightarrow> 't link option" where
  "url defaultUrl src =
     (case defaultUrl src of
        None \<Rightarrow> None
      | Some token \<Rightarrow>
          let defaultText = ut_text token;
              text = (if CHR ''\"'' \<in> set defaultText
                      then map_option (trim_end TRAILING_PUNCTUATION) (STRICT_URL src)
                      else Some (trim_end TRAILING_JSON_CLOSERS defaultText))
          in (case text of
                None \<Rightarrow> Some (DefaultToken token)
              | Some t \<Rightarrow> if t = [] \<or> t = defaultText then Some (DefaultToken token) else Some (PlainLink t (url_target t))))"

section \<open>The code editor\<close>

text \<open>The buttons, and what they do; the formatter's and the clipboard's results are given.\<close>

type_synonym json_parser = "string \<Rightarrow> string + json"

definition editorFormatter :: "json_parser \<Rightarrow> string \<Rightarrow> string \<Rightarrow> formatter option" where
  "editorFormatter parse content language = formatterOf (detectLanguage parse content language)"

text \<open>The new content, if there is one; an empty content has a fixed text as its error.\<close>

definition handleFormat ::
    "json_parser \<Rightarrow> (formatter \<Rightarrow> string \<Rightarrow> format_result) \<Rightarrow> string \<Rightarrow> string \<Rightarrow> string option \<times> effect list" where
  "handleFormat parse run content language =
     (case editorFormatter parse content language of
        None \<Rightarrow> (None, [])
      | Some formatter \<Rightarrow>
          (case run formatter content of
             FormatOk v \<Rightarrow> (Some v, [])
           | FormatEmpty \<Rightarrow> (None, showProse FormatFailed)
           | FormatError e \<Rightarrow> (None, showError (TextError (Prefixed FormatFailed e)))))"

definition handleCopy :: "bool \<Rightarrow> effect list" where
  "handleCopy okay = (if okay then [showSuccess (Fixed Copied)] else [showWarning (Fixed CopyFailed)])"

section \<open>The other pages\<close>

text \<open>The notice is shown once: the last one is stored.  The home page shows the configured link
  in a frame, if there is one.\<close>

definition displayNotice :: "string option \<Rightarrow> string reply \<Rightarrow> effect list" where
  "displayNotice oldNotice reply =
     (case reply of
        Success data \<Rightarrow>
          if Some data \<noteq> oldNotice \<and> data \<noteq> [] then [showNotice (Plain data), StoreItem ''notice'' data] else []
      | Failure m \<Rightarrow> showMessage m)"

datatype home_view = HomeFrame string | HomeCards

definition homeView :: "string option \<Rightarrow> home_view" where
  "homeView homePageLink = (let link = str_or_empty homePageLink in if link \<noteq> [] then HomeFrame link else HomeCards)"

text \<open>The second card of the home page: which switches are on.\<close>

definition homeSwitches :: "(string \<times> json) list \<Rightarrow> (string \<times> bool) list" where
  "homeSwitches status =
     map (\<lambda>k. (k, map_of status k = Some (JBool True)))
       [''email_verification'', ''github_oauth'', ''wechat_login'', ''turnstile_check'', ''message_persistence'',
        ''message_render'']"

definition renderSwitchState :: "bool \<Rightarrow> string" where
  "renderSwitchState enabled = (if enabled then ''success'' else ''danger'')"

text \<open>The footer: the stored one, or the default.\<close>

datatype footer = DefaultFooter string | StoredFooter string

definition footerView :: "string \<Rightarrow> string option \<Rightarrow> footer" where
  "footerView appVersion stored =
     (if str_or_empty stored = [] then DefaultFooter appVersion else StoredFooter (str_or_empty stored))"

text \<open>The header: the menu on a wide screen, and the account corner.\<close>

definition headerMenu :: "bool \<Rightarrow> stored_user option \<Rightarrow> string list" where
  "headerMenu isMobile user = (if isMobile then [] else map n_to (visibleItems user))"

datatype account = LoginLink | AccountMenu "string list"

definition mobileAccount :: "'u option \<Rightarrow> account" where
  "mobileAccount user = (if user = None then LoginLink else AccountMenu [''setting'', ''logout''])"

definition desktopAccount :: "'u option \<Rightarrow> account" where
  "desktopAccount user = (if user = None then LoginLink else AccountMenu [''logout''])"

datatype account_click = GoTo string | LogOut | NoClick

definition mobileAccountClick :: "string \<Rightarrow> account_click" where
  "mobileAccountClick key = (if key = ''setting'' then GoTo ''/setting'' else if key = ''logout'' then LogOut else NoClick)"

definition desktopAccountClick :: "string \<Rightarrow> account_click" where
  "desktopAccountClick key = (if key = ''logout'' then LogOut else NoClick)"

text \<open>The bottom navigation of a narrow screen: its items, and whether each is active.\<close>

definition bottomItems :: "bool \<Rightarrow> stored_user option \<Rightarrow> string \<Rightarrow> (string \<times> bool) list" where
  "bottomItems isMobile user path =
     (if isMobile then map (\<lambda>item. (n_to item, isNavItemActive (n_to item) path)) (visibleItems user) else [])"

text \<open>The about page shows the stored text until the answer is there.\<close>

datatype about_text = AboutHtml string | AboutLoadFailed

definition displayAbout :: "(string \<Rightarrow> string) \<Rightarrow> string reply \<Rightarrow> about_text \<times> effect list" where
  "displayAbout marked reply =
     (case reply of
        Success data \<Rightarrow> (AboutHtml (marked data), [StoreItem ''about'' (marked data)])
      | Failure m \<Rightarrow> (AboutLoadFailed, showMessage m))"

text \<open>The theme menu: its entries, the selected one, and what a click dispatches.\<close>

definition themeMenu :: "(string \<times> theme_action option) list" where
  "themeMenu = map (\<lambda>key. (key, map_option SetTheme (mode_of key))) [''light'', ''dark'', ''system'']"

end
