(* ===== verification/Form_Properties.thy ===== *)
theory Form_Properties
  imports Edit_Channel Edit_Message Edit_Webhook Auth_Forms Web_Pages
begin

text \<open>
  What the forms of the web client guarantee about what they send, keep and show.
\<close>

section \<open>The channel editor\<close>

definition no_parser :: "string \<Rightarrow> string + json" where
  "no_parser s = Inl ''unexpected token''"

definition group_form :: form where
  "group_form = channelForm None \<lparr>f_inputs :=
     set_text ''app_id'' ''bark|telegram|lark'' (set_text ''name'' ''all'' (set_text ''type'' ''group'' channelInputs))\<rparr>"

text \<open>C14: A group channel that is submitted has one target for each of its channels.  The targets that
  were typed in are sent as they are, and there are as many as channels; when none was typed in, as
  many empty targets are sent.  Every other input is sent as it is.\<close>
theorem group_targets_match:
  assumes "jm_get ''type'' (f_inputs f) = Some (JStr ''group'')" "submitChannel parse channelId f = Sends req"
  shows "\<exists>sent channels typed targets. req = channelRequest channelId sent \<and>
    text_of ''app_id'' (f_inputs f) = Some channels \<and> text_of ''account_id'' (f_inputs f) = Some typed \<and>
    text_of ''account_id'' sent = Some targets \<and>
    targets = (if typed = [] then replicate (length (split_on CHR ''|'' channels) - 1) CHR ''|'' else typed) \<and>
    length (split_on CHR ''|'' targets) = length (split_on CHR ''|'' channels) \<and>
    (\<forall>k. k \<noteq> ''account_id'' \<longrightarrow> jm_get k sent = jm_get k (f_inputs f))"
proof -
  obtain sent where sent: "req = channelRequest channelId sent" "groupInputs (f_inputs f) = Inr sent"
    using assms prepareChannel_group [OF assms(1), of parse] by (auto simp: submitChannel_def split: if_splits sum.splits)
  obtain channels typed where t: "text_of ''app_id'' (f_inputs f) = Some channels" "text_of ''account_id'' (f_inputs f) = Some typed"
      "text_of ''account_id'' sent =
        Some (if typed = [] then replicate (length (split_on CHR ''|'' channels) - 1) CHR ''|'' else typed)"
      "typed \<noteq> [] \<longrightarrow> length (split_on CHR ''|'' typed) = length (split_on CHR ''|'' channels)"
      "\<forall>k. k \<noteq> ''account_id'' \<longrightarrow> jm_get k sent = jm_get k (f_inputs f)"
    using groupInputs_targets [OF sent(2)] by blast
  have "0 < length (split_on CHR ''|'' channels)" using split_on_nonempty by simp
  then have "length (split_on CHR ''|'' (if typed = [] then replicate (length (split_on CHR ''|'' channels) - 1) CHR ''|'' else typed))
      = length (split_on CHR ''|'' channels)"
    using t(4) by (simp add: length_split_bars)
  then show ?thesis using sent(1) t(1-3,5) by blast
qed

theorem group_targets_match_witness:
  "\<exists>sent targets. submitChannel no_parser None group_form = Sends (channelRequest None sent) \<and>
    text_of ''account_id'' sent = Some targets \<and> length (split_on CHR ''|'' targets) = 3"
proof -
  have kind: "jm_get ''type'' (f_inputs group_form) = Some (JStr ''group'')"
    by (simp add: group_form_def set_text_def channelInputs_def)
  have channels: "text_of ''app_id'' (f_inputs group_form) = Some ''bark|telegram|lark''"
    by (simp add: group_form_def text_of_set_text)
  have targets: "text_of ''account_id'' (f_inputs group_form) = Some []" and name: "truthy (jm_get ''name'' (f_inputs group_form))"
    by (simp_all add: group_form_def set_text_def channelInputs_def text_of_def truthy_def)
  have three: "length (split_on CHR ''|'' ''bark|telegram|lark'') - 1 = 2" by code_simp
  have "submitChannel no_parser None group_form =
      Sends (channelRequest None (set_text ''account_id'' ''||'' (f_inputs group_form)))"
    using channels targets name three
    by (simp add: submitChannel_def prepareChannel_group [OF kind] groupInputs_def Let_def numeral_eq_Suc)
  moreover have "text_of ''account_id'' (set_text ''account_id'' ''||'' (f_inputs group_form)) = Some ''||''"
    by (simp add: text_of_set_text)
  moreover have "length (split_on CHR ''|'' ''bark|telegram|lark'') = 3" by code_simp
  ultimately show ?thesis using group_targets_match [OF kind, of no_parser None] channels by fastforce
qed

definition corp_form :: form where
  "corp_form = channelForm None \<lparr>f_inputs :=
     set_text ''agent_id'' ''1000002'' (set_text ''corp_id'' ''ww12'' (set_text ''type'' ''corp_app'' channelInputs))\<rparr>"

text \<open>A corp application keeps its two ids: what the editor sends as one id, and the server
  gives back, is shown again as the same company id and agent id (neither holds a bar).\<close>
theorem corp_ids_roundtrip:
  assumes "jm_get ''type'' obj = Some (JStr ''corp_app'')" "text_of ''corp_id'' obj = Some c" "text_of ''agent_id'' obj = Some a"
    and "CHR ''|'' \<notin> set c" "CHR ''|'' \<notin> set a" "prepareChannel parse obj = Inr sent"
    and "jm_get ''type'' data = jm_get ''type'' sent" "jm_get ''app_id'' data = jm_get ''app_id'' sent"
  shows "\<exists>shown. loadChannel (Success data) f = (f\<lparr>f_inputs := shown, f_loading := False\<rparr>, []) \<and>
    text_of ''corp_id'' shown = Some c \<and> text_of ''agent_id'' shown = Some a"
proof -
  have sent: "sent = set_text ''app_id'' (c @ ''|'' @ a) obj"
    using assms(1-3,6) by (simp add: prepareChannel_def Let_def text_of_Some)
  then have "jm_get ''type'' data = Some (JStr ''corp_app'')" "text_of ''app_id'' data = Some (c @ ''|'' @ a)"
    using assms(1,7,8) by (simp_all add: get_set_text text_of_Some)
  then have "loadChannel (Success data) f = (f\<lparr>f_inputs := set_opt ''agent_id'' (Some (JStr a))
      (set_opt ''corp_id'' (Some (JStr c)) data), f_loading := False\<rparr>, [])"
    by (simp add: loadChannel_def splitCorp_def split_corp [OF assms(4,5)] nth_opt_def Let_def)
  moreover have "text_of ''corp_id'' (set_opt ''agent_id'' (Some (JStr a)) (set_opt ''corp_id'' (Some (JStr c)) data)) = Some c"
    "text_of ''agent_id'' (set_opt ''agent_id'' (Some (JStr a)) (set_opt ''corp_id'' (Some (JStr c)) data)) = Some a"
    by (simp_all add: text_of_def get_set_opt)
  ultimately show ?thesis by blast
qed

theorem corp_ids_roundtrip_witness:
  "\<exists>shown. loadChannel (Success (set_text ''app_id'' ''ww12|1000002'' (f_inputs corp_form))) corp_form =
      (corp_form\<lparr>f_inputs := shown, f_loading := False\<rparr>, []) \<and>
    text_of ''corp_id'' shown = Some ''ww12'' \<and> text_of ''agent_id'' shown = Some ''1000002''"
proof -
  have corp: "jm_get ''type'' (f_inputs corp_form) = Some (JStr ''corp_app'')"
    "text_of ''corp_id'' (f_inputs corp_form) = Some ''ww12''" "text_of ''agent_id'' (f_inputs corp_form) = Some ''1000002''"
    by (simp_all add: corp_form_def text_of_set_text get_set_text)
  then have "prepareChannel no_parser (f_inputs corp_form) = Inr (set_text ''app_id'' ''ww12|1000002'' (f_inputs corp_form))"
    by (simp add: prepareChannel_def Let_def text_of_Some)
  from corp_ids_roundtrip [OF corp _ _ this refl refl] show ?thesis by simp
qed

text \<open>C40: Every channel type that is offered has a form, and every field of that form edits an input
  that exists; a type that is not offered has none.\<close>
theorem channel_forms_complete:
  "(renderChannelForm kind \<noteq> UnknownType) = (kind \<in> fst ` set CHANNEL_OPTIONS) \<and>
   field_name ` set (channelFields @ part_fields (renderChannelForm kind)) \<subseteq> set (jm_keys channelInputs)"
proof
  show "(renderChannelForm kind \<noteq> UnknownType) = (kind \<in> fst ` set CHANNEL_OPTIONS)"
    unfolding renderChannelForm_def CHANNEL_OPTIONS_def by simp
  have keys: "set (jm_keys channelInputs) = {''type'', ''name'', ''description'', ''secret'', ''app_id'', ''account_id'',
      ''url'', ''other'', ''corp_id'', ''agent_id'', ''token''}"
    by (simp add: jm_keys_def channelInputs_def)
  show "field_name ` set (channelFields @ part_fields (renderChannelForm kind)) \<subseteq> set (jm_keys channelInputs)"
    unfolding keys renderChannelForm_def channelFields_def channel_field_defs by simp
qed

section \<open>Tokens\<close>

text \<open>The random token of a channel is the hexadecimal text of the random bytes, in upper case:
  two digits a byte, and the bytes can be read back, so different bytes give different tokens.\<close>
theorem random_token_roundtrip:
  "\<exists>t. text_of ''token'' (f_inputs (randomToken random f)) = Some t \<and> token_bytes t = random 16 \<and>
     length t = 2 * length (random 16) \<and> list_all hex_upper t"
  by (simp add: randomToken_def text_of_set_text generateToken_read generateToken_shape)

text \<open>The push settings that are saved come back: an empty token travels as a space and is
  read as empty again (so is a single space), every other token comes back as it is.\<close>
theorem push_settings_roundtrip:
  "\<exists>c t. submitPush ''general'' f = Sends (Put ''/api/user/self'' (JObj [(''channel'', JStr c), (''token'', JStr t)])) \<and>
     t \<noteq> [] \<and>
     loadUser (Success \<lparr>lu_username = u, lu_channel = c, lu_token = t\<rparr>) =
       (Some \<lparr>lu_username = u, lu_channel = (if lu_channel (pp_user f) = [] then ''email'' else lu_channel (pp_user f)),
          lu_token = (if lu_token (pp_user f) = '' '' then [] else lu_token (pp_user f))\<rparr>, [])"
  by (simp add: submitPush_def loadUser_def Let_def)

section \<open>Messages and webhooks\<close>

definition one_object :: "string \<Rightarrow> string + json" where
  "one_object s = (if s = ''{}'' then Inr (JObj []) else Inl ''unexpected token'')"

definition json_form :: message_form where
  "json_form = (messageForm None None)\<lparr>mf_inputs := set_text ''content'' '' {} '' (messageInputs None), mf_jsonMode := True\<rparr>"

text \<open>C29: A message that is sent in the JSON mode carries the trimmed text of a JSON object, and the
  token of the user; nothing else of what was typed is changed.\<close>
theorem json_message_is_object:
  assumes "sendMessage parse f = Sends r" "mf_jsonMode f"
  shows "\<exists>obj content fields. r = Post (''/push/'' @ mf_username f @ ''/'') (JObj obj) \<and>
    text_of ''content'' obj = Some content \<and> trim content = content \<and> parse content = Inr (JObj fields) \<and>
    text_of ''token'' obj = Some (mf_token f) \<and>
    (\<forall>k. k = ''content'' \<or> k = ''token'' \<or> jm_get k obj = jm_get k (mf_inputs f))"
proof -
  let ?content = "jm_get ''content'' (mf_inputs f)"
  obtain v where "jsonContent parse ?content = Inr v"
    and r: "r = Post (''/push/'' @ mf_username f @ ''/'') (JObj (set_text ''token'' (mf_token f) (set_opt ''content'' v (mf_inputs f))))"
    using assms by (auto simp: sendMessage_def Let_def split: if_splits sum.splits)
  then obtain s fields where "v = Some (JStr (trim s))" "parse (trim s) = Inr (JObj fields)"
    by (auto simp: jsonContent_def Let_def split: if_splits option.splits json.splits sum.splits)
  then show ?thesis unfolding r by (simp add: text_of_def object_simps trim_idem)
qed

theorem json_message_is_object_witness:
  "\<exists>obj. sendMessage one_object json_form = Sends (Post ''/push//'' (JObj obj)) \<and> text_of ''content'' obj = Some ''{}''"
proof -
  have "truthy (jm_get ''content'' (mf_inputs json_form))" "jm_get ''content'' (mf_inputs json_form) = Some (JStr '' {} '')"
    by (simp_all add: json_form_def get_set_text truthy_def)
  moreover have "trim '' {} '' = ''{}''" by (simp add: trim_def js_ws_def)
  ultimately obtain r where sent: "sendMessage one_object json_form = Sends r"
    by (simp add: sendMessage_def Let_def json_form_def jsonContent_def one_object_def)
  have "mf_jsonMode json_form" "mf_username json_form = []" by (simp_all add: json_form_def messageForm_def)
  from json_message_is_object [OF sent this(1)] this(2) sent show ?thesis
    by (fastforce simp: one_object_def split: if_splits)
qed

definition sample_defaults :: webhook_defaults where
  "sample_defaults = \<lparr>wd_construct_rule = ''{}'', wd_pre_script = ''main'',
     wd_option = \<lparr>co_key = ''default'', co_text = ''default'', co_value = ''default'', co_description = None\<rparr>\<rparr>"

definition hook_form :: webhook_form where
  "hook_form = (webhookForm sample_defaults None)\<lparr>f_inputs :=
     set_text ''extract_rule'' ''{}'' (set_text ''name'' ''ci'' (webhookInputs sample_defaults))\<rparr>"

text \<open>C28: A webhook that is submitted, new or edited, has valid rules and, when its script is enabled, a
  script; the default channel is sent as an empty one, everything else as it was typed.  Loading what
  was sent shows the same inputs again, with two exceptions: an empty channel is shown as the default one,
  and an empty script (which a webhook whose script is disabled may have) as the default script.\<close>
theorem webhook_submission:
  assumes "submitWebhook parse webhookId f = Sends r"
  shows "\<exists>sent. r = (case webhookId of
        Some i \<Rightarrow> Put ''/api/webhook/'' (JObj (jm_set ''id'' (json_number (parseInt i)) sent))
      | None \<Rightarrow> Post ''/api/webhook'' (JObj sent)) \<and>
    verifyJSON parse (template (jm_get ''extract_rule'' sent)) \<and> verifyJSON parse (template (jm_get ''construct_rule'' sent)) \<and>
    (truthy (jm_get ''pre_script_enabled'' sent) \<longrightarrow> blank_script (jm_get ''pre_script'' sent) = Some False) \<and>
    (\<forall>k. jm_get k sent = (if k = ''channel'' \<and> jm_get k (f_inputs f) = Some (JStr ''default'') then Some (JStr [])
      else jm_get k (f_inputs f))) \<and>
    (\<forall>k. jm_get k (shownWebhook d sent) =
      (if k = ''channel'' \<and> jm_get k (f_inputs f) = Some (JStr []) then Some (JStr ''default'')
       else if k = ''pre_script'' \<and> \<not> truthy (jm_get k (f_inputs f)) then Some (JStr (wd_pre_script d))
       else jm_get k (f_inputs f)))"
proof -
  let ?obj = "f_inputs f"
  let ?sent = "if jm_get ''channel'' ?obj = Some (JStr ''default'') then set_text ''channel'' [] ?obj else ?obj"
  have r: "r = (case webhookId of
        Some i \<Rightarrow> Put ''/api/webhook/'' (JObj (jm_set ''id'' (json_number (parseInt i)) ?sent))
      | None \<Rightarrow> Post ''/api/webhook'' (JObj ?sent))"
    and rules: "verifyJSON parse (template (jm_get ''extract_rule'' ?obj))" "verifyJSON parse (template (jm_get ''construct_rule'' ?obj))"
    and script: "truthy (jm_get ''pre_script_enabled'' ?obj) \<Longrightarrow> blank_script (jm_get ''pre_script'' ?obj) = Some False"
    using assms by (auto simp: submitWebhook_def Let_def split: if_splits)
  have sent: "jm_get k ?sent = (if k = ''channel'' \<and> jm_get k ?obj = Some (JStr ''default'') then Some (JStr [])
      else jm_get k ?obj)" for k
    by (auto simp: get_set_text)
  have "jm_get k (shownWebhook d ?sent) =
      (if k = ''channel'' \<and> jm_get k ?obj = Some (JStr []) then Some (JStr ''default'')
       else if k = ''pre_script'' \<and> \<not> truthy (jm_get k ?obj) then Some (JStr (wd_pre_script d)) else jm_get k ?obj)" for k
    by (auto simp: shownWebhook_def Let_def get_set_text)
  then show ?thesis using r rules script sent by (intro exI [of _ ?sent] conjI allI impI) (simp_all add: get_set_text)
qed

theorem webhook_submission_witness:
  "\<exists>sent. submitWebhook one_object None hook_form = Sends (Post ''/api/webhook'' (JObj sent)) \<and>
    jm_get ''channel'' (shownWebhook sample_defaults sent) = Some (JStr ''default'')"
proof -
  have obj: "jm_get ''name'' (f_inputs hook_form) = Some (JStr ''ci'')" "jm_get ''extract_rule'' (f_inputs hook_form) = Some (JStr ''{}'')"
    "jm_get ''construct_rule'' (f_inputs hook_form) = Some (JStr ''{}'')" "jm_get ''channel'' (f_inputs hook_form) = Some (JStr ''default'')"
    "jm_get ''pre_script_enabled'' (f_inputs hook_form) = Some (JBool False)"
    "jm_get ''pre_script'' (f_inputs hook_form) = Some (JStr ''main'')"
    by (simp_all add: hook_form_def get_set_text webhookInputs_def sample_defaults_def)
  obtain r where sent: "submitWebhook one_object None hook_form = Sends r"
    using obj by (simp add: submitWebhook_def Let_def truthy_def verifyJSON_def one_object_def)
  from webhook_submission [OF sent, of sample_defaults] obj sent show ?thesis by (auto simp: truthy_def)
qed

text \<open>A form loses nothing when saving fails: after any number of refused saves of a channel, a
  message, a webhook or a user, the inputs are those that were typed, and every refusal was shown.\<close>
theorem refused_saves_keep_inputs:
  "f_inputs (fst (run_saves (channelSaved cid) (map Failure ms) f)) = f_inputs f \<and>
   mf_inputs (fst (run_saves (messageSent mid) (map Failure ms) m)) = mf_inputs m \<and>
   f_inputs (fst (run_saves (webhookSaved d wid) (map Failure ms) w)) = f_inputs w \<and>
   f_inputs (fst (run_saves userSaved (map Failure ms) f)) = f_inputs f \<and>
   fst (run_saves userAdded (map Failure ms) obj) = obj \<and>
   snd (run_saves (channelSaved cid) (map Failure ms) f) = concat (map showMessage ms)"
  by (intro conjI chan.refused_saves [THEN conjunct1] mess.refused_saves [THEN conjunct1] hook.refused_saves [THEN conjunct1]
      user.refused_saves [THEN conjunct1] new_user.refused_saves [THEN conjunct1, unfolded id_apply] chan.refused_saves [THEN conjunct2])

end
