(* ===== verification/Tables.thy ===== *)
theory Tables
  imports Paged_Table
begin

text \<open>
  The tables of users, channels and webhooks (\<open>UsersTable.jsx\<close>, \<open>ChannelsTable.jsx\<close>,
  \<open>WebhooksTable.jsx\<close>).  The interface \<open>row_table\<close> says what they rely on of a row: an id
  that survives every change, and a mark for deleted rows.
\<close>

section \<open>The interface of a row\<close>

locale row_table =
  fixes rid :: "'r \<Rightarrow> int" and deleted :: "'r \<Rightarrow> bool"
    and mark :: "'r \<Rightarrow> 'r" and set_status :: "int \<Rightarrow> 'r \<Rightarrow> 'r"
  assumes mark_deleted: "deleted (mark r)"
    and mark_id: "rid (mark r) = rid r"
    and status_id: "rid (set_status n r) = rid r"
    and status_deleted: "deleted (set_status n r) = deleted r"
begin

lemma marked_gone:
  assumes "changeRow rid i mark xs = Some ys" "distinct (map rid xs)"
  shows "filter (\<lambda>r. \<not> deleted r) ys = filter (\<lambda>r. \<not> deleted r \<and> rid r \<noteq> i) xs"
    and "map rid ys = map rid xs"
  unfolding changeRow_map [OF assms] by (induction xs) (auto simp: mark_deleted mark_id)

lemma status_keeps:
  assumes "changeRow rid i (set_status n) xs = Some ys" "distinct (map rid xs)"
  shows "map rid (filter (\<lambda>r. \<not> deleted r) ys) = map rid (filter (\<lambda>r. \<not> deleted r) xs)"
    and "map rid ys = map rid xs"
  unfolding changeRow_map [OF assms] by (induction xs) (auto simp: status_deleted status_id)

lemma marked_elsewhere:
  assumes "changeRow rid i mark xs = Some ys" "distinct (map rid xs)" "r \<in> set ys" "rid r \<noteq> i"
  shows "r \<in> set xs"
  using assms(3,4) unfolding changeRow_map [OF assms(1,2)] by (auto simp: mark_id split: if_splits)

end

section \<open>Enabling, disabling and deleting\<close>

datatype manage = DeleteIt | Enable | Disable

text \<open>\<open>manageChannel\<close> and \<open>manageWebhook\<close>: the request, and what the answer changes.  The
  answer carries the new status; a row that is not there makes the handler throw.\<close>

definition manageRequest :: "string \<Rightarrow> int \<Rightarrow> manage \<Rightarrow> request" where
  "manageRequest path i action =
     (case action of
        DeleteIt \<Rightarrow> Delete (path @ int_text i @ ''/'')
      | Enable \<Rightarrow> Put (path @ ''?status_only=true'') (JObj [(''id'', JNum i), (''status'', JNum 1)])
      | Disable \<Rightarrow> Put (path @ ''?status_only=true'') (JObj [(''id'', JNum i), (''status'', JNum 2)]))"

definition manageRow ::
    "('r \<Rightarrow> int) \<Rightarrow> ('r \<Rightarrow> 'r) \<Rightarrow> (int \<Rightarrow> 'r \<Rightarrow> 'r) \<Rightarrow> int \<Rightarrow> manage \<Rightarrow> int reply \<Rightarrow> 'r table \<Rightarrow>
     'r table \<times> effect list" where
  "manageRow rid mark set_status i action reply t =
     (case reply of
        Failure m \<Rightarrow> (t, showMessage m)
      | Success newStatus \<Rightarrow>
          (case changeRow rid i (if action = DeleteIt then mark else set_status newStatus) (rows t) of
             None \<Rightarrow> (t, [showSuccess (Fixed Done)])
           | Some rs \<Rightarrow> (t\<lparr>rows := rs\<rparr>, [showSuccess (Fixed Done)])))"

section \<open>Users\<close>

record user_row =
  ur_id :: int
  ur_username :: string
  ur_display_name :: string
  ur_email :: string
  ur_role :: int
  ur_status :: int
  ur_send_email :: int
  ur_save_message :: int
  ur_deleted :: bool

datatype role_tag = CommonUser | Admin | SuperAdmin | UnknownRole

definition renderRole :: "int \<Rightarrow> role_tag" where
  "renderRole role = (if role = 1 then CommonUser else if role = 10 then Admin
     else if role = 100 then SuperAdmin else UnknownRole)"

definition loadUsers_request :: "nat \<Rightarrow> request" where
  "loadUsers_request startIdx = listRequest ''/api/user/'' startIdx"

definition loadUsers :: "nat \<Rightarrow> user_row list reply \<Rightarrow> user_row table \<Rightarrow> user_row table \<times> effect list" where
  "loadUsers = loadRows"

definition searchUsers_request :: "user_row table \<Rightarrow> request" where
  "searchUsers_request t = searchRequest ''/api/user/'' ''/api/user/search'' t"

definition searchUsers :: "user_row list reply \<Rightarrow> user_row table \<Rightarrow> user_row table \<times> effect list" where
  "searchUsers = searchRows"

datatype user_action_name =
    UPromote | UDemote | UEnable | UDisable | UDelete
  | UAllowSend | UDisallowSend | UAllowSave | UDisallowSave

fun user_action_text :: "user_action_name \<Rightarrow> string" where
  "user_action_text UPromote = ''promote''"
| "user_action_text UDemote = ''demote''"
| "user_action_text UEnable = ''enable''"
| "user_action_text UDisable = ''disable''"
| "user_action_text UDelete = ''delete''"
| "user_action_text UAllowSend = ''allow_send_email_to_others''"
| "user_action_text UDisallowSend = ''disallow_send_email_to_others''"
| "user_action_text UAllowSave = ''allow_save_message_to_database''"
| "user_action_text UDisallowSave = ''disallow_save_message_to_database''"

definition manageUser_request :: "string \<Rightarrow> user_action_name \<Rightarrow> request" where
  "manageUser_request username action =
     Post ''/api/user/manage'' (JObj [(''username'', JStr username), (''action'', JStr (user_action_text action))])"

text \<open>The row is the object the button belongs to, given by its place; the answer is the
  changed user.\<close>

definition updateUser :: "user_action_name \<Rightarrow> user_row \<Rightarrow> user_row \<Rightarrow> user_row" where
  "updateUser action new u =
     (if action = UDelete then u\<lparr>ur_deleted := True\<rparr>
      else u\<lparr>ur_status := ur_status new, ur_role := ur_role new, ur_send_email := ur_send_email new,
             ur_save_message := ur_save_message new\<rparr>)"

definition manageUser :: "nat \<Rightarrow> user_action_name \<Rightarrow> user_row reply \<Rightarrow> user_row table \<Rightarrow> user_row table \<times> effect list" where
  "manageUser k action reply t =
     (case reply of
        Success new \<Rightarrow> (t\<lparr>rows := (rows t)[k := updateUser action new (rows t ! k)]\<rparr>, [showSuccess (Fixed Done)])
      | Failure m \<Rightarrow> (t, showMessage m))"

text \<open>The switch of the status column and the menu of further rights.\<close>

definition userSwitch :: "bool \<Rightarrow> user_action_name" where
  "userSwitch checked = (if checked then UEnable else UDisable)"

definition userMenu :: "string \<Rightarrow> user_row \<Rightarrow> user_action_name option" where
  "userMenu key u =
     (if key = ''send_email_to_others'' then Some (if ur_send_email u = 1 then UDisallowSend else UAllowSend)
      else if key = ''save_message_to_database'' then Some (if ur_save_message u = 1 then UDisallowSave else UAllowSave)
      else None)"

definition userColumns :: "column list" where
  "userColumns = columns_of [''username'', ''display_name'', ''email'', ''role'', ''status'']"

definition userField :: "string \<Rightarrow> user_row \<Rightarrow> string" where
  "userField key u =
     (if key = ''username'' then ur_username u else if key = ''display_name'' then ur_display_name u
      else if key = ''email'' then ur_email u else if key = ''role'' then int_text (ur_role u)
      else if key = ''status'' then int_text (ur_status u) else ''undefined'')"

datatype user_cell = UText string | UNoEmail | URole role_tag | USwitch bool | UActions string \<comment> \<open>the edit link\<close>

definition userCell :: "string \<Rightarrow> user_row \<Rightarrow> user_cell option" where
  "userCell key u =
     (if key = ''username'' then Some (UText (ur_username u))
      else if key = ''display_name'' then Some (UText (ur_display_name u))
      else if key = ''email'' then Some (if ur_email u \<noteq> [] then UText (ur_email u) else UNoEmail)
      else if key = ''role'' then Some (URole (renderRole (ur_role u)))
      else if key = ''status'' then Some (USwitch (ur_status u = 1))
      else if key = ''action'' then Some (UActions (''/user/edit/'' @ int_text (ur_id u))) else None)"

definition sortUser :: "(string \<Rightarrow> string \<Rightarrow> int) \<Rightarrow> string \<Rightarrow> user_row table \<Rightarrow> user_row table" where
  "sortUser lc key = sortRows lc ur_id (userField key)"

definition pagedUsers :: "user_row table \<Rightarrow> user_row list" where
  "pagedUsers = pagedRows ur_deleted"

definition userCard :: mobile_card where
  "userCard = mobileCard userColumns ''username'' ''role'' ''action''"

text \<open>The buttons of a row: promote, demote, delete.\<close>

definition userButtons :: "user_row \<Rightarrow> request list" where
  "userButtons u = map (manageUser_request (ur_username u)) [UPromote, UDemote, UDelete]"

section \<open>Channels\<close>

record channel_row =
  cr_id :: int
  cr_name :: string
  cr_description :: string
  cr_type :: string
  cr_status :: int
  cr_created :: int
  cr_deleted :: bool

definition loadChannels_request :: "nat \<Rightarrow> request" where
  "loadChannels_request startIdx = listRequest ''/api/channel/'' startIdx"

definition loadChannels :: "nat \<Rightarrow> channel_row list reply \<Rightarrow> channel_row table \<Rightarrow> channel_row table \<times> effect list" where
  "loadChannels = loadRows"

definition searchChannels_request :: "channel_row table \<Rightarrow> request" where
  "searchChannels_request t = searchRequest ''/api/channel/'' ''/api/channel/search'' t"

definition searchChannels :: "channel_row list reply \<Rightarrow> channel_row table \<Rightarrow> channel_row table \<times> effect list" where
  "searchChannels = searchRows"

definition manageChannel_request :: "int \<Rightarrow> manage \<Rightarrow> request" where
  "manageChannel_request = manageRequest ''/api/channel/''"

definition mark_channel :: "channel_row \<Rightarrow> channel_row" where
  "mark_channel c = c\<lparr>cr_deleted := True\<rparr>"

definition set_channel_status :: "int \<Rightarrow> channel_row \<Rightarrow> channel_row" where
  "set_channel_status n c = c\<lparr>cr_status := n\<rparr>"

definition manageChannel :: "int \<Rightarrow> manage \<Rightarrow> int reply \<Rightarrow> channel_row table \<Rightarrow> channel_row table \<times> effect list" where
  "manageChannel = manageRow cr_id mark_channel set_channel_status"

definition channelColumns :: "column list" where
  "channelColumns = columns_of [''id'', ''name'', ''description'', ''type'', ''status'', ''created_time'']"

definition channelField :: "string \<Rightarrow> channel_row \<Rightarrow> string" where
  "channelField key c =
     (if key = ''id'' then int_text (cr_id c) else if key = ''name'' then cr_name c
      else if key = ''description'' then cr_description c else if key = ''type'' then cr_type c
      else if key = ''status'' then int_text (cr_status c)
      else if key = ''created_time'' then int_text (cr_created c) else ''undefined'')"

datatype channel_cell =
    CText string | CNoDescription | CType "string option" \<comment> \<open>the colour of a known type\<close> | CSwitch bool
  | CTime int | CActions string

text \<open>\<open>renderChannel\<close>: the colour of the type, if it is one of the options.\<close>

definition renderChannel :: "string \<Rightarrow> string option" where
  "renderChannel key = map_of CHANNEL_OPTIONS key"

definition channelCell :: "string \<Rightarrow> channel_row \<Rightarrow> channel_cell option" where
  "channelCell key c =
     (if key = ''id'' then Some (CText (int_text (cr_id c)))
      else if key = ''name'' then Some (CText (cr_name c))
      else if key = ''description''
      then Some (if cr_description c \<noteq> [] then CText (cr_description c) else CNoDescription)
      else if key = ''type'' then Some (CType (renderChannel (cr_type c)))
      else if key = ''status'' then Some (CSwitch (cr_status c = 1))
      else if key = ''created_time'' then Some (CTime (cr_created c))
      else if key = ''action'' then Some (CActions (''/channel/edit/'' @ int_text (cr_id c))) else None)"

definition rowSwitch :: "bool \<Rightarrow> manage" where
  "rowSwitch checked = (if checked then Enable else Disable)"

definition sortChannel :: "(string \<Rightarrow> string \<Rightarrow> int) \<Rightarrow> string \<Rightarrow> channel_row table \<Rightarrow> channel_row table" where
  "sortChannel lc key = sortRows lc cr_id (channelField key)"

definition pagedChannels :: "channel_row table \<Rightarrow> channel_row list" where
  "pagedChannels = pagedRows cr_deleted"

definition channelCard :: mobile_card where
  "channelCard = mobileCard channelColumns ''name'' ''status'' ''action''"

text \<open>The buttons of a row: test, edit, delete.\<close>

definition channelButtons :: "string \<Rightarrow> string \<Rightarrow> channel_row \<Rightarrow> test_push \<times> string \<times> request" where
  "channelButtons username token c =
     (testChannel_request username token (cr_name c), ''/channel/edit/'' @ int_text (cr_id c),
      manageChannel_request (cr_id c) DeleteIt)"

text \<open>\<open>loadUser\<close> of the table, which keeps the user for the test button.\<close>

definition loadTableUser :: "'u reply \<Rightarrow> 'u \<Rightarrow> 'r table \<Rightarrow> 'u \<times> 'r table \<times> effect list" where
  "loadTableUser reply user t =
     (case reply of
        Success data \<Rightarrow> (data, t\<lparr>loading := False\<rparr>, [])
      | Failure m \<Rightarrow> (user, t\<lparr>loading := False\<rparr>, showMessage m))"

section \<open>Webhooks\<close>

record webhook_row =
  wr_id :: int
  wr_name :: string
  wr_status :: int
  wr_channel :: string
  wr_link :: string
  wr_created :: int
  wr_deleted :: bool

definition loadWebhooks_request :: "nat \<Rightarrow> request" where
  "loadWebhooks_request startIdx = listRequest ''/api/webhook/'' startIdx"

definition loadWebhooks :: "nat \<Rightarrow> webhook_row list reply \<Rightarrow> webhook_row table \<Rightarrow> webhook_row table \<times> effect list" where
  "loadWebhooks = loadRows"

definition searchWebhooks_request :: "webhook_row table \<Rightarrow> request" where
  "searchWebhooks_request t = searchRequest ''/api/webhook/'' ''/api/webhook/search'' t"

definition searchWebhooks :: "webhook_row list reply \<Rightarrow> webhook_row table \<Rightarrow> webhook_row table \<times> effect list" where
  "searchWebhooks = searchRows"

definition manageWebhook_request :: "int \<Rightarrow> manage \<Rightarrow> request" where
  "manageWebhook_request = manageRequest ''/api/webhook/''"

definition mark_webhook :: "webhook_row \<Rightarrow> webhook_row" where
  "mark_webhook w = w\<lparr>wr_deleted := True\<rparr>"

definition set_webhook_status :: "int \<Rightarrow> webhook_row \<Rightarrow> webhook_row" where
  "set_webhook_status n w = w\<lparr>wr_status := n\<rparr>"

definition manageWebhook :: "int \<Rightarrow> manage \<Rightarrow> int reply \<Rightarrow> webhook_row table \<Rightarrow> webhook_row table \<times> effect list" where
  "manageWebhook = manageRow wr_id mark_webhook set_webhook_status"

definition webhookColumns :: "column list" where
  "webhookColumns = columns_of [''id'', ''name'', ''status'', ''channel'', ''created_time'']"

definition webhookField :: "string \<Rightarrow> webhook_row \<Rightarrow> string" where
  "webhookField key w =
     (if key = ''id'' then int_text (wr_id w) else if key = ''name'' then wr_name w
      else if key = ''status'' then int_text (wr_status w) else if key = ''channel'' then wr_channel w
      else if key = ''created_time'' then int_text (wr_created w) else ''undefined'')"

datatype webhook_cell =
    WText string | WDefaultChannel | WSwitch bool | WTime int
  | WActions string string \<comment> \<open>the link to copy, the edit link\<close>

definition webhookUrl :: "string \<Rightarrow> webhook_row \<Rightarrow> string" where
  "webhookUrl origin w = origin @ ''/webhook/'' @ wr_link w"

definition webhookCell :: "string \<Rightarrow> string \<Rightarrow> webhook_row \<Rightarrow> webhook_cell option" where
  "webhookCell origin key w =
     (if key = ''id'' then Some (WText (int_text (wr_id w)))
      else if key = ''name'' then Some (WText (wr_name w))
      else if key = ''status'' then Some (WSwitch (wr_status w = 1))
      else if key = ''channel'' then Some (if wr_channel w \<noteq> [] then WText (wr_channel w) else WDefaultChannel)
      else if key = ''created_time'' then Some (WTime (wr_created w))
      else if key = ''action'' then Some (WActions (webhookUrl origin w) (''/webhook/edit/'' @ int_text (wr_id w)))
      else None)"

definition copyWebhook :: "bool \<Rightarrow> effect" where
  "copyWebhook okay = (if okay then showSuccess (Fixed Copied) else showWarning (Fixed CopyFailed))"

definition webhookButtons :: "string \<Rightarrow> webhook_row \<Rightarrow> string \<times> string \<times> request" where
  "webhookButtons origin w =
     (webhookUrl origin w, ''/webhook/edit/'' @ int_text (wr_id w), manageWebhook_request (wr_id w) DeleteIt)"

definition sortWebhook :: "(string \<Rightarrow> string \<Rightarrow> int) \<Rightarrow> string \<Rightarrow> webhook_row table \<Rightarrow> webhook_row table" where
  "sortWebhook lc key = sortRows lc wr_id (webhookField key)"

definition pagedWebhooks :: "webhook_row table \<Rightarrow> webhook_row list" where
  "pagedWebhooks = pagedRows wr_deleted"

definition webhookCard :: mobile_card where
  "webhookCard = mobileCard webhookColumns ''name'' ''status'' ''action''"

section \<open>The rows provide the interface\<close>

interpretation users: row_table ur_id ur_deleted "updateUser UDelete new" "\<lambda>n u. u\<lparr>ur_status := n\<rparr>" for new
  by unfold_locales (simp_all add: updateUser_def)

interpretation channels: row_table cr_id cr_deleted mark_channel set_channel_status
  by unfold_locales (simp_all add: mark_channel_def set_channel_status_def)

interpretation webhooks: row_table wr_id wr_deleted mark_webhook set_webhook_status
  by unfold_locales (simp_all add: mark_webhook_def set_webhook_status_def)

lemma every_column_rendered:
  "list_all (\<lambda>c. \<exists>x. userCell (c_key c) u = Some x) userColumns"
  "list_all (\<lambda>c. \<exists>x. channelCell (c_key c) ch = Some x) channelColumns"
  "list_all (\<lambda>c. \<exists>x. webhookCell origin (c_key c) w = Some x) webhookColumns"
  by (simp_all add: userColumns_def channelColumns_def webhookColumns_def columns_of_def userCell_def
      channelCell_def webhookCell_def)

text \<open>Deleting a channel hides it and nothing else, and keeps the ids in place.\<close>

lemma manageChannel_delete:
  assumes "distinct (map cr_id (rows t))" "i \<in> cr_id ` set (rows t)"
    and "manageChannel i DeleteIt (Success n) t = (t', es)"
  shows "filter (\<lambda>c. \<not> cr_deleted c) (rows t') = filter (\<lambda>c. \<not> cr_deleted c \<and> cr_id c \<noteq> i) (rows t)"
    and "map cr_id (rows t') = map cr_id (rows t)"
proof -
  obtain rs where rs: "changeRow cr_id i mark_channel (rows t) = Some rs"
    using assms(2) changeRow_None [of cr_id i mark_channel "rows t"] by auto
  then have "rows t' = rs" using assms(3) by (auto simp: manageChannel_def manageRow_def)
  then show "filter (\<lambda>c. \<not> cr_deleted c) (rows t') = filter (\<lambda>c. \<not> cr_deleted c \<and> cr_id c \<noteq> i) (rows t)"
    and "map cr_id (rows t') = map cr_id (rows t)"
    using channels.marked_gone [OF rs assms(1)] by simp_all
qed

end
