(* ===== verification/Client_Properties.thy ===== *)
theory Client_Properties
  imports Settings Auth_Forms Web_Pages Tables Messages_Properties
begin

text \<open>
  What the settings, the login pages, the links in messages, the navigation and the paged tables
  guarantee.
\<close>

section \<open>Settings\<close>

definition secrets :: "string set" where
  "secrets = {''SMTPToken'', ''GitHubClientSecret'', ''WeChatServerToken'', ''TurnstileSecretKey''}"

definition updates_ok :: "options_page \<Rightarrow> option_update list \<Rightarrow> bool" where
  "updates_ok f us \<longleftrightarrow> list_all (\<lambda>(k, v). changed k f \<and> \<not> (k \<in> secrets \<and> v = Some (JStr []))) us"

lemma updates_ok_append [simp]: "updates_ok f (us @ vs) = (updates_ok f us \<and> updates_ok f vs)"
  by (simp add: updates_ok_def)

lemma if_changed_ok: "k \<notin> secrets \<Longrightarrow> updates_ok f (if_changed k f)"
  by (simp add: if_changed_def updates_ok_def)

lemma if_entered_ok: "updates_ok f (if_entered k f)"
  by (simp add: if_entered_def updates_ok_def)

text \<open>C30: Saving the mail, GitHub, WeChat or Turnstile settings only sends options that were changed,
  and never overwrites a secret with an empty text (the server does not show the stored one).\<close>
theorem secrets_are_not_blanked:
  "updates_ok f (submitSMTP f) \<and> updates_ok f (submitGitHubOAuth f) \<and> updates_ok f (submitTurnstile f) \<and>
   (case submitWeChat f of Some us \<Rightarrow> updates_ok f us | None \<Rightarrow> text_of ''WeChatServerAddress'' (op_inputs f) = None)"
proof (intro conjI)
  show "updates_ok f (submitSMTP f)" "updates_ok f (submitGitHubOAuth f)" "updates_ok f (submitTurnstile f)"
    by (simp_all add: submitSMTP_def submitGitHubOAuth_def submitTurnstile_def if_entered_ok if_changed_ok secrets_def)
  have "updates_ok f (if_changed ''WeChatAccountQRCodeImageURL'' f @ if_entered ''WeChatServerToken'' f)"
    by (simp add: if_entered_ok if_changed_ok secrets_def)
  moreover have "updates_ok f ((''WeChatServerAddress'', v) # us)"
    if "changed ''WeChatServerAddress'' f" "updates_ok f us" for v us
    using that by (simp add: updates_ok_def secrets_def)
  ultimately show "case submitWeChat f of Some us \<Rightarrow> updates_ok f us | None \<Rightarrow> text_of ''WeChatServerAddress'' (op_inputs f) = None"
    by (simp add: submitWeChat_def Let_def split: option.split)
qed

lemma updateOptions_origin: "op_origin (fst (updateOptions us f)) = op_origin f"
  by (induction us f rule: updateOptions.induct)
    (auto simp: updateOption_done_def split_beta Let_def split: reply.splits)

lemma update_keys: "set (map fst (if_changed k f)) \<subseteq> {k}" "set (map fst (if_entered k f)) \<subseteq> {k}"
  by (auto simp: if_changed_def if_entered_def)

lemma rest_keys:
  "''SMTPServer'' \<notin> set (map fst (if_changed ''SMTPAccount'' f @ if_entered ''SMTPPort'' f @ if_entered ''SMTPToken'' f))"
  using update_keys(1) [of "''SMTPAccount''" f] update_keys(2) [of "''SMTPPort''" f] update_keys(2) [of "''SMTPToken''" f]
  unfolding map_append set_append by blast

lemma submitSMTP_head:
  assumes "changed ''SMTPServer'' f"
  shows "\<exists>rest. submitSMTP f = (''SMTPServer'', jm_get ''SMTPServer'' (op_inputs f)) # rest \<and>
    ''SMTPServer'' \<notin> set (map fst rest)"
  using rest_keys [of f] assms unfolding submitSMTP_def if_changed_def [of "''SMTPServer''"] by (simp add: image_Un)

lemma unchanged_not_sent: "\<not> changed ''SMTPServer'' f \<Longrightarrow> ''SMTPServer'' \<notin> set (map fst (submitSMTP f))"
  using rest_keys [of f] unfolding submitSMTP_def if_changed_def [of "''SMTPServer''"] by simp

definition saveSMTP :: "options_page \<Rightarrow> options_page" where
  "saveSMTP f = fst (updateOptions (map (\<lambda>u. (u, Success ())) (submitSMTP f)) f)"

lemma saved_inputs:
  "jm_get k (op_inputs (fst (updateOptions (map (\<lambda>u. (u, Success ())) us) f))) =
   (case map_of (rev us) k of Some v \<Rightarrow> v | None \<Rightarrow> jm_get k (op_inputs f))"
proof (induction us arbitrary: f)
  case (Cons u us)
  obtain k' v' where u: "u = (k', v')" by (cases u)
  show ?case using Cons [of "f\<lparr>op_inputs := set_opt k' v' (op_inputs f), op_loading := False\<rparr>"]
    by (simp add: u split_beta updateOption_done_def get_set_opt map_add_def split: option.splits)
qed simp

definition mail_page :: options_page where
  "mail_page = \<lparr>op_inputs = [(''SMTPServer'', JStr ''smtp.a'')], op_origin = [(''SMTPServer'', JStr ''smtp.a'')],
     op_loading = False\<rparr>"

text \<open>C15: A setting that is changed back is not saved: after the mail server \<open>a\<close> was changed to \<open>b\<close>
  and saved, typing \<open>a\<close> again and saving sends nothing for it, so the server keeps \<open>b\<close> while the page
  shows \<open>a\<close> (the page still compares with what it loaded first).\<close>
theorem reverted_setting_is_not_saved:
  assumes "jm_get ''SMTPServer'' (op_origin f) = Some (JStr a)" "a \<noteq> b"
    and "f1 = fst (systemInputChange ''SMTPServer'' (Some (JStr b)) f)"
    and "f2 = fst (systemInputChange ''SMTPServer'' (Some (JStr a)) (saveSMTP f1))"
  shows "(''SMTPServer'', Some (JStr b)) \<in> set (submitSMTP f1) \<and>
    jm_get ''SMTPServer'' (op_inputs (saveSMTP f1)) = Some (JStr b) \<and>
    jm_get ''SMTPServer'' (op_inputs f2) = Some (JStr a) \<and> ''SMTPServer'' \<notin> set (map fst (submitSMTP f2))"
proof -
  have typed: "typed_option ''SMTPServer''" by (simp add: typed_option_def startsWith_def)
  have f1: "f1 = f\<lparr>op_inputs := set_opt ''SMTPServer'' (Some (JStr b)) (op_inputs f)\<rparr>"
    using assms(3) typed by (simp add: systemInputChange_def)
  have f2: "f2 = (saveSMTP f1)\<lparr>op_inputs := set_opt ''SMTPServer'' (Some (JStr a)) (op_inputs (saveSMTP f1))\<rparr>"
    using assms(4) typed by (simp add: systemInputChange_def)
  have "op_origin (saveSMTP f1) = op_origin f" by (simp add: saveSMTP_def updateOptions_origin f1)
  then have "\<not> changed ''SMTPServer'' f2" using assms(1) by (simp add: f2 changed_def get_set_opt)
  then have unsent: "''SMTPServer'' \<notin> set (map fst (submitSMTP f2))" by (rule unchanged_not_sent)
  have sent: "changed ''SMTPServer'' f1" using assms(1,2) by (simp add: f1 changed_def get_set_opt)
  obtain rest where rest: "submitSMTP f1 = (''SMTPServer'', Some (JStr b)) # rest" "''SMTPServer'' \<notin> set (map fst rest)"
    using submitSMTP_head [OF sent] by (auto simp: f1 get_set_opt)
  have "map_of (rev rest) ''SMTPServer'' = None" using rest(2) by (simp add: map_of_eq_None_iff)
  then have "map_of (rev (submitSMTP f1)) ''SMTPServer'' = Some (Some (JStr b))"
    unfolding rest(1) by (simp add: map_add_def)
  then have "jm_get ''SMTPServer'' (op_inputs (saveSMTP f1)) = Some (JStr b)"
    unfolding saveSMTP_def saved_inputs by simp
  moreover have "jm_get ''SMTPServer'' (op_inputs f2) = Some (JStr a)" unfolding f2 by (simp add: get_set_opt)
  ultimately show ?thesis using unsent rest(1) by simp
qed

theorem reverted_setting_is_not_saved_witness:
  "\<exists>f2. jm_get ''SMTPServer'' (op_inputs f2) = Some (JStr ''smtp.a'') \<and> ''SMTPServer'' \<notin> set (map fst (submitSMTP f2)) \<and>
    f2 = fst (systemInputChange ''SMTPServer'' (Some (JStr ''smtp.a''))
      (saveSMTP (fst (systemInputChange ''SMTPServer'' (Some (JStr ''smtp.b'')) mail_page))))"
proof -
  have "jm_get ''SMTPServer'' (op_origin mail_page) = Some (JStr ''smtp.a'')" "''smtp.a'' \<noteq> ''smtp.b''"
    by (simp_all add: mail_page_def)
  from reverted_setting_is_not_saved [OF this refl refl] show ?thesis by blast
qed

section \<open>Logging in and registering\<close>

text \<open>The GitHub callback tries the code once: whatever would be answered to a second try, the
  first answer decides (the announced retries never happen).\<close>
theorem github_code_is_sent_once:
  "gitHubPage stringify (reply # replies) = [codeAnswered stringify 0 Processing reply] \<and>
   ca_pause (codeAnswered stringify 0 Processing reply) = None"
  by (cases reply) (simp_all add: gitHubPage_def codeAnswered_def Let_def)

text \<open>What the effects of a handler leave in \<open>localStorage\<close>.\<close>

fun store_effect :: "effect \<Rightarrow> (string \<rightharpoonup> string) \<Rightarrow> (string \<rightharpoonup> string)" where
  "store_effect (StoreItem k v) st = st(k \<mapsto> v)"
| "store_effect (RemoveItem k) st = st(k := None)"
| "store_effect _ st = st"

definition stored :: "effect list \<Rightarrow> (string \<rightharpoonup> string) \<Rightarrow> (string \<rightharpoonup> string)" where
  "stored es st = fold store_effect es st"

text \<open>C20: A session from its start to its end: after a login every route shows its page and the user is
  in the state; after a logout, whatever the server answers, private routes lead to the login page
  and the state has no user; a rejected request with status 401 leads to the login page, which
  then says that the session has expired.  (The text of a user is not empty.)\<close>
theorem session_lifecycle:
  assumes "stringify u \<noteq> []" "x_name x = ''AxiosError''" "x_message x \<noteq> []" "x_status x = Some 401"
  shows "(\<exists>action es. loggedIn stringify (Success u) = (Some action, es) \<and> userReducer user action = Some u \<and>
      showRoute (stored es st ''user'') loc r = Shows (rt_page r)) \<and>
    (\<exists>action es. logout_done reply = (action, es) \<and> userReducer user action = None \<and>
      showRoute (stored es st ''user'') loc r = (if rt_private r then RedirectsToLogin loc else Shows (rt_page r))) \<and>
    intercept now (Rejected x) until = (Failure None, [Redirect ''/login?expired=true''], until) \<and>
    snd (loginPage (Some ''true'')) = showProse SessionExpired"
  using assms
  by (simp add: loggedIn_def logout_done_def userReducer_def stored_def showSuccess_def showRoute_def PrivateRoute_def
      str_or_empty_def intercept_def showError_def loginPage_def)

theorem session_lifecycle_witness:
  "showRoute (stored (snd (logout_done (Failure None :: unit reply) :: unit user_action \<times> effect list)) (\<lambda>_. Some ''u'') ''user'') ''/message''
     \<lparr>rt_path = ''/message'', rt_private = True, rt_page = MessagePage\<rparr> = RedirectsToLogin ''/message''"
proof -
  let ?x = "\<lparr>x_name = ''AxiosError'', x_message = ''m'', x_status = Some 401\<rparr>"
  let ?r = "\<lparr>rt_path = ''/message'', rt_private = True, rt_page = MessagePage\<rparr>"
  obtain action es where "logout_done (Failure None :: unit reply) = (action :: unit user_action, es)"
    "showRoute (stored es (\<lambda>_. Some ''u'') ''user'') ''/message'' ?r =
      (if rt_private ?r then RedirectsToLogin ''/message'' else Shows (rt_page ?r))"
    using session_lifecycle [where stringify = "\<lambda>_ :: unit. ''u''" and u = "()" and x = ?x and user = None and
        now = 0 and until = 0 and reply = "Failure None :: unit reply" and st = "\<lambda>_. Some ''u''" and loc = "''/message''" and r = ?r]
    by auto
  then show ?thesis by simp
qed

definition filled_form :: register_page where
  "filled_form = (registerPage None)\<lparr>rp_inputs := set_text ''password2'' ''longenough'' (set_text ''password'' ''longenough''
     (set_text ''username'' ''ann'' (rp_inputs (registerPage None))))\<rparr>"

text \<open>A registration is only sent with a name, with a password of at least eight characters that
  was typed twice, and, where visitors are checked, with a token of the check; it carries exactly
  what was typed.\<close>
theorem registration_is_checked:
  assumes "registerSubmit f = (f', Sends req)"
  shows "f' = f\<lparr>rp_loading := True\<rparr> \<and> (\<exists>p. text_of ''password'' (rp_inputs f) = Some p \<and> text_of ''password2'' (rp_inputs f) = Some p \<and> 8 \<le> length p \<and>
    truthy (jm_get ''username'' (rp_inputs f)) \<and> (\<not> ts_enabled (rp_turnstile f) \<or> ts_token (rp_turnstile f) \<noteq> []) \<and>
    req = Post (''/api/user/register?turnstile='' @ ts_token (rp_turnstile f)) (JObj (rp_inputs f)))"
  using assms by (auto simp: registerSubmit_def registerSubmission_def registerLoading_def turnstileMissing_def not_less split: option.splits if_splits)

theorem registration_is_checked_witness:
  "\<exists>req. snd (registerSubmit filled_form) = Sends req \<and> text_of ''password'' (rp_inputs filled_form) = Some ''longenough''"
proof -
  have inputs: "text_of ''password'' (rp_inputs filled_form) = Some ''longenough''"
    "text_of ''password2'' (rp_inputs filled_form) = Some ''longenough''"
    "jm_get ''username'' (rp_inputs filled_form) = Some (JStr ''ann'')"
    by (simp_all add: filled_form_def text_of_set_text get_set_text)
  then obtain req where "registerSubmission filled_form = Sends req"
    by (simp add: registerSubmission_def truthy_def turnstileMissing_def filled_form_def registerPage_def loadTurnstile_def
        no_turnstile_def)
  then have run: "registerSubmit filled_form = (filled_form\<lparr>rp_loading := True\<rparr>, Sends req)"
    by (simp add: registerSubmit_def registerLoading_def)
  from registration_is_checked [OF run] run inputs show ?thesis by simp
qed

section \<open>Links in messages\<close>

lemma startsWith_refl: "startsWith s s" by (simp add: startsWith_def)

lemma startsWith_trans: "startsWith s t \<Longrightarrow> startsWith t u \<Longrightarrow> startsWith s u"
  by (auto simp: startsWith_iff)

lemma trim_end_prefix: "startsWith s (trim_end cs s)"
proof -
  have "s = trim_end cs s @ rev (takeWhile (\<lambda>c. c \<in> set cs) (rev s))"
    unfolding trim_end_def rev_append [symmetric] takeWhile_dropWhile_id by simp
  then show ?thesis unfolding startsWith_iff by blast
qed

lemma trim_end_last: "trim_end cs s \<noteq> [] \<Longrightarrow> last (trim_end cs s) \<notin> set cs"
  using hd_dropWhile [of "\<lambda>c. c \<in> set cs" "rev s"] by (simp add: trim_end_def last_rev)

lemma first_prefix_Some: "first_prefix ps s = Some p \<Longrightarrow> p \<in> set ps \<and> startsWith s p"
  by (induction ps) (auto split: if_splits)

lemma STRICT_URL_Some:
  assumes "STRICT_URL src = Some t"
  shows "startsWith src t \<and> CHR ''\"'' \<notin> set t"
proof -
  obtain p where p: "first_prefix url_prefixes src = Some p" and t: "t = p @ takeWhile url_char (drop (length p) src)"
    using assms by (auto simp: STRICT_URL_def Let_def split: option.splits if_splits)
  have "src = p @ drop (length p) src" using first_prefix_Some [OF p] by (auto simp: startsWith_iff)
  then have "src = t @ dropWhile url_char (drop (length p) src)" unfolding t by (metis append_assoc takeWhile_dropWhile_id)
  then have "startsWith src t" unfolding startsWith_iff by blast
  moreover have "CHR ''\"'' \<notin> set p" using first_prefix_Some [OF p] by (auto simp: url_prefixes_def)
  moreover have "CHR ''\"'' \<notin> set (takeWhile url_char xs)" for xs by (auto simp: url_char_def dest: set_takeWhileD)
  ultimately show ?thesis by (simp add: t)
qed

lemma prefix_shorter: "startsWith src t \<Longrightarrow> startsWith src u \<Longrightarrow> c \<in> set u \<Longrightarrow> c \<notin> set t \<Longrightarrow> length t < length u"
  by (rule ccontr) (auto simp: startsWith_iff append_eq_append_conv2 not_less)

lemma prefix_of_prefix:
  assumes "startsWith src t" "startsWith src u" "length t \<le> length u"
  shows "startsWith u t"
proof -
  have "t = take (length t) src" "u = take (length u) src" using assms(1,2) by (simp_all add: startsWith_def)
  then have "take (length t) u = t" using assms(3) by (metis min_absorb1 take_take)
  then show ?thesis by (simp add: startsWith_def)
qed

definition greedy_url :: "string \<Rightarrow> unit url_token option" where
  "greedy_url src = Some \<lparr>ut_text = src, ut_rest = ()\<rparr>"

text \<open>C39: A link that is cut out of a message is a proper piece of the default one, taken from its
  start: it is not empty, holds no double quote, and does not end in a closing brace or bracket;
  its target is its text, or its text behind \<open>http://\<close>.  (The default tokenizer takes its text from
  the start of the source.)\<close>
theorem cut_links_are_clean:
  assumes "defaultUrl src = Some token" "startsWith src (ut_text token)" "url defaultUrl src = Some (PlainLink t target)"
  shows "t \<noteq> [] \<and> startsWith (ut_text token) t \<and> length t < length (ut_text token) \<and> CHR ''\"'' \<notin> set t \<and>
    last t \<notin> set ''}]'' \<and> target \<in> {t, ''http://'' @ t}"
proof -
  let ?d = "ut_text token"
  have t: "t \<noteq> []" "t \<noteq> ?d" and target: "target = url_target t"
    and cut: "(if CHR ''\"'' \<in> set ?d then map_option (trim_end TRAILING_PUNCTUATION) (STRICT_URL src)
      else Some (trim_end TRAILING_JSON_CLOSERS ?d)) = Some t"
    using assms(1,3) by (auto simp: url_def Let_def split: option.splits if_splits)
  have "startsWith ?d t \<and> length t < length ?d \<and> CHR ''\"'' \<notin> set t \<and> last t \<notin> set ''}]''"
  proof (cases "CHR ''\"'' \<in> set ?d")
    case True
    then obtain u where u: "STRICT_URL src = Some u" "t = trim_end TRAILING_PUNCTUATION u" using cut by auto
    have pre: "startsWith src t" using STRICT_URL_Some [OF u(1)] startsWith_trans trim_end_prefix unfolding u(2) by blast
    have quote: "CHR ''\"'' \<notin> set t"
      using STRICT_URL_Some [OF u(1)] trim_end_prefix [of u TRAILING_PUNCTUATION] unfolding u(2) by (metis UnCI set_append startsWith_iff)
    have len: "length t < length ?d" using prefix_shorter [OF pre assms(2) True quote] .
    then have "startsWith ?d t" using pre assms(2) prefix_of_prefix less_imp_le by blast
    moreover have "last t \<notin> set ''}]''" using trim_end_last [of TRAILING_PUNCTUATION u] t(1) unfolding u(2) TRAILING_PUNCTUATION_def by auto
    ultimately show ?thesis using len quote by blast
  next
    case False
    then have t_eq: "t = trim_end TRAILING_JSON_CLOSERS ?d" using cut by simp
    obtain r where r: "?d = t @ r" using trim_end_prefix [of ?d TRAILING_JSON_CLOSERS] unfolding t_eq startsWith_iff by blast
    have "last t \<notin> set ''}]''" using trim_end_last [of TRAILING_JSON_CLOSERS ?d] t(1) unfolding t_eq TRAILING_JSON_CLOSERS_def by simp
    moreover have "startsWith ?d t" using r unfolding startsWith_iff by blast
    moreover have "length t < length ?d" using r t(2) by (cases r) simp_all
    moreover have "CHR ''\"'' \<notin> set t" using False r by auto
    ultimately show ?thesis by blast
  qed
  then show ?thesis using t(1) by (auto simp: target url_target_def)
qed

theorem cut_links_are_clean_witness:
  "\<exists>target. url greedy_url ''https://a.b/id\",\"t'' = Some (PlainLink ''https://a.b/id'' target) \<and>
    target \<in> {''https://a.b/id'', ''http://https://a.b/id''}"
proof -
  have "url greedy_url ''https://a.b/id\",\"t'' = Some (PlainLink ''https://a.b/id'' ''https://a.b/id'')"
    by (simp add: url_def greedy_url_def STRICT_URL_def url_prefixes_def startsWith_def url_char_def js_ws_def trim_end_def
        TRAILING_PUNCTUATION_def url_target_def Let_def)
  from cut_links_are_clean [OF _ _ this] this show ?thesis by (simp add: greedy_url_def startsWith_refl)
qed


section \<open>Navigation\<close>

definition home_swipe :: touch where
  "home_swipe = \<lparr>tx = 10, ty = 0, ttime = 100\<rparr>"

text \<open>A swipe only moves to a neighbour: from the item of the current page it leads to the next
  visible item on a swipe to the left, to the previous one on a swipe to the right, never past either
  end, and never to an item the user may not see.\<close>
theorem swipe_moves_one_step:
  assumes "handleTouchEnd start n t (Some i) (visibleItems user) = (Some target, start')" "i < length (visibleItems user)"
  shows "start' = None \<and> (\<exists>s j. start = Some s \<and> j < length (visibleItems user) \<and> target = n_to (visibleItems user ! j) \<and>
    (tx t < tx s \<and> j = Suc i \<or> tx s \<le> tx t \<and> Suc j = i) \<and> SWIPE_MIN_DISTANCE \<le> \<bar>tx t - tx s\<bar>) \<and>
    (\<not> isAdmin user \<longrightarrow> (\<exists>item \<in> set NAV_ITEMS. n_to item = target \<and> \<not> n_admin item))"
proof -
  let ?items = "visibleItems user"
  obtain s where s: "start = Some s" and run: "SWIPE_MIN_DISTANCE \<le> \<bar>tx t - tx s\<bar>"
    and go: "(if tx t - tx s < 0 then (if Suc i < length ?items then (Some (n_to (?items ! Suc i)), None) else (None, None))
       else (if i = 0 \<or> length ?items \<le> i - 1 then (None, None) else (Some (n_to (?items ! (i - 1))), None))) =
      (Some target, start')"
    using assms(1) by (auto simp: handleTouchEnd_def Let_def split: option.splits if_splits)
  have "\<exists>j. start' = None \<and> j < length ?items \<and> target = n_to (?items ! j) \<and> (tx t < tx s \<and> j = Suc i \<or> tx s \<le> tx t \<and> Suc j = i)"
  proof (cases "tx t - tx s < 0")
    case True
    then show ?thesis using go by (intro exI [of _ "Suc i"]) (auto split: if_splits)
  next
    case False
    then show ?thesis using go assms(2) by (intro exI [of _ "i - 1"]) (auto split: if_splits)
  qed
  then obtain j where j: "start' = None" "j < length ?items" "target = n_to (?items ! j)"
    "tx t < tx s \<and> j = Suc i \<or> tx s \<le> tx t \<and> Suc j = i" by blast
  have "item \<in> set NAV_ITEMS \<and> \<not> (n_admin item \<and> \<not> isAdmin user)" if "item \<in> set ?items" for item
    using that by (simp add: visibleItems_def)
  then have "?items ! j \<in> set NAV_ITEMS \<and> \<not> (n_admin (?items ! j) \<and> \<not> isAdmin user)" using nth_mem [OF j(2)] by blast
  then show ?thesis using s run j by blast
qed

theorem swipe_moves_one_step_witness:
  "handleTouchEnd (Some \<lparr>tx = 200, ty = 0, ttime = 0\<rparr>) 1 home_swipe (Some 0) (visibleItems None) =
     (Some (n_to (visibleItems None ! 1)), None)"
proof -
  have two: "Suc 0 < length (visibleItems None)" by code_simp
  obtain target start' where run: "handleTouchEnd (Some \<lparr>tx = 200, ty = 0, ttime = 0\<rparr>) 1 home_swipe (Some 0) (visibleItems None) =
      (Some target, start')"
    using two by (simp add: handleTouchEnd_def home_swipe_def SWIPE_MIN_DISTANCE_def SWIPE_MAX_DURATION_def
        SWIPE_DIRECTION_RATIO_def Let_def)
  have "0 < length (visibleItems None)" using two by linarith
  from swipe_moves_one_step [OF run this] show ?thesis unfolding run by (auto simp: home_swipe_def)
qed

section \<open>The rate limit\<close>

text \<open>C24: After a 429 the client holds back for 210 seconds: as long as no other 429 arrives, it counts
  as limited exactly until then, and the remaining seconds it shows are the remaining time, rounded
  up, so zero is shown exactly when it is over.\<close>
theorem rate_limit_window:
  assumes "x_status x = Some 429" "\<forall>(t, o1) \<in> set rest. \<forall>y. o1 = Rejected y \<longrightarrow> x_status y \<noteq> Some 429"
  shows "isRateLimited now (interceptAll ((t, Rejected x) # rest) u) = (now < t + 210000) \<and>
    (getRateLimitRemainSeconds now (interceptAll ((t, Rejected x) # rest) u) = 0) = (t + 210000 \<le> now) \<and>
    (now < t + 210000 \<longrightarrow>
      t + 210000 - now \<le> getRateLimitRemainSeconds now (interceptAll ((t, Rejected x) # rest) u) * 1000 \<and>
      (getRateLimitRemainSeconds now (interceptAll ((t, Rejected x) # rest) u) - 1) * 1000 < t + 210000 - now)"
proof -
  have until: "interceptAll ((t, Rejected x) # rest) u = t + 210000"
    using assms(1) by (simp add: intercept_def interceptAll_keeps [OF assms(2)] RATE_LIMIT_COOLDOWN_MS_def)
  show ?thesis unfolding until using remain_bounds [of now "t + 210000"] remain_zero_iff [of now "t + 210000"]
    by (auto simp: isRateLimited_def not_less)
qed

theorem rate_limit_window_witness:
  "getRateLimitRemainSeconds 1000 (interceptAll
     [(0, Rejected \<lparr>x_name = ''AxiosError'', x_message = ''m'', x_status = Some 429\<rparr>), (500, Responded (Success ()))] 0) \<noteq> 0"
  using rate_limit_window [of "\<lparr>x_name = ''AxiosError'', x_message = ''m'', x_status = Some 429\<rparr>"
      "[(500, Responded (Success ()))]" 1000 0 0]
  by simp

section \<open>Paged tables\<close>

text \<open>What the server answers to a list request, when its list is \<open>xs\<close>.\<close>

definition server_page :: "'r list \<Rightarrow> nat \<Rightarrow> 'r list" where
  "server_page xs p = take ITEMS_PER_PAGE (drop (p * ITEMS_PER_PAGE) xs)"

text \<open>The table holds a first part of the server's list.\<close>

definition follows :: "'r list \<Rightarrow> 'r table \<Rightarrow> bool" where
  "follows xs t \<longleftrightarrow> rows t = take (length (rows t)) xs"

text \<open>How a request for a page ends: with the page of the server's list, or with a failure.\<close>

datatype outcome = Arrives | Fails "string option"

definition page_answer :: "'r list \<Rightarrow> 'r table \<Rightarrow> nat \<times> outcome \<Rightarrow> 'r list reply" where
  "page_answer xs t click =
     (case snd click of
        Arrives \<Rightarrow> Success (server_page xs (case pageRequest (fst click) t of Some p \<Rightarrow> p | None \<Rightarrow> 0))
      | Fails m \<Rightarrow> Failure m)"

text \<open>Turning pages, each click answered before the next one.\<close>

definition turn :: "'r list \<Rightarrow> nat \<times> outcome \<Rightarrow> 'r table \<Rightarrow> 'r table" where
  "turn xs click t = fst (onPaginationChange (fst click) (page_answer xs t click) t)"

fun browse :: "'r list \<Rightarrow> (nat \<times> outcome) list \<Rightarrow> 'r table \<Rightarrow> 'r table" where
  "browse xs [] t = t"
| "browse xs (click # clicks) t = browse xs clicks (turn xs click t)"

fun offered :: "'r list \<Rightarrow> (nat \<times> outcome) list \<Rightarrow> 'r table \<Rightarrow> bool" where
  "offered xs [] t = True"
| "offered xs (click # clicks) t =
     (1 \<le> fst click \<and> fst click \<le> totalPages (length (rows t)) \<and> offered xs clicks (turn xs click t))"

text \<open>A turn leaves the rows alone, or appends the page that follows them.\<close>

lemma turn_rows:
  assumes "fst click \<le> totalPages (length (rows t))" "rows t \<noteq> []"
  shows "rows (turn xs click t) = rows t \<or>
    (\<exists>p. length (rows t) = p * ITEMS_PER_PAGE \<and> rows (turn xs click t) = rows t @ server_page xs p)"
proof (cases "pageRequest (fst click) t")
  case None
  then show ?thesis by (simp add: turn_def onPaginationChange_def)
next
  case (Some p)
  have p: "p * ITEMS_PER_PAGE = length (rows t)" by (rule pageRequest_offset [OF Some assms(1)])
  then have "p \<noteq> 0" using assms(2) by (cases p) auto
  then have "snd click = Arrives \<Longrightarrow> rows (turn xs click t) = rows t @ server_page xs p"
    "snd click \<noteq> Arrives \<Longrightarrow> rows (turn xs click t) = rows t"
    using Some by (auto simp: turn_def page_answer_def onPaginationChange_def loadRows_def split: outcome.split)
  then show ?thesis using p by metis
qed

text \<open>What every turn keeps, every sequence of turns keeps.\<close>

lemma browse_invariant:
  assumes step: "\<And>rs p. P rs \<Longrightarrow> length rs = p * ITEMS_PER_PAGE \<Longrightarrow> P (rs @ server_page xs p)"
  shows "P (rows t) \<Longrightarrow> rows t \<noteq> [] \<Longrightarrow> offered xs clicks t \<Longrightarrow>
    P (rows (browse xs clicks t)) \<and> length (rows t) \<le> length (rows (browse xs clicks t))"
proof (induction clicks arbitrary: t)
  case (Cons click clicks)
  have click: "fst click \<le> totalPages (length (rows t))" "offered xs clicks (turn xs click t)" using Cons.prems(3) by simp_all
  have *: "P (rows (turn xs click t))" "rows (turn xs click t) \<noteq> []" "length (rows t) \<le> length (rows (turn xs click t))"
    using turn_rows [OF click(1) Cons.prems(2), of xs] step [OF Cons.prems(1)] Cons.prems(1,2) by auto
  from Cons.IH [OF *(1,2) click(2)] *(3) show ?case by simp
qed simp

lemma beginning: "ys = take k xs \<Longrightarrow> ys = take (length ys) xs"
  by (simp add: min_def)

definition follows_rows :: "'r list \<Rightarrow> 'r list \<Rightarrow> bool" where
  "follows_rows xs rs \<longleftrightarrow> rs = take (length rs) xs"

text \<open>C7: Turning pages follows the list of the server.  When the server's list does not change and every
  page is answered, with its rows or with a failure, before the next click, then whatever offered pages
  are clicked, in any order, the rows are the beginning of the server's list (no row is missing,
  doubled or out of place), and no row that was there is lost.  (Clicks that do not wait for the answer
  are the subject of \<open>Store_Properties\<close>.)\<close>
theorem browsing_follows_server:
  assumes "follows xs t" "rows t \<noteq> []" "offered xs clicks t"
  shows "follows xs (browse xs clicks t) \<and> length (rows t) \<le> length (rows (browse xs clicks t))"
proof -
  have "follows_rows xs (rs @ server_page xs p)" if "follows_rows xs rs" "length rs = p * ITEMS_PER_PAGE" for rs p
  proof -
    have "rs @ server_page xs p = take (length rs + ITEMS_PER_PAGE) xs"
      using that unfolding server_page_def take_add follows_rows_def by metis
    then show ?thesis unfolding follows_rows_def by (rule beginning)
  qed
  from browse_invariant [of "follows_rows xs", OF this _ assms(2,3)] assms(1) show ?thesis
    unfolding follows_def follows_rows_def by blast
qed

definition ten_rows :: "nat table" where
  "ten_rows = initialTable\<lparr>rows := [0..<10]\<rparr>"

theorem browsing_follows_server_witness:
  "follows [0..<25] (browse [0..<25] [(2, Fails None), (2, Arrives), (1, Arrives)] ten_rows) \<and>
   length (rows (browse [0..<25] [(2, Fails None), (2, Arrives), (1, Arrives)] ten_rows)) = 20"
proof -
  have "follows [0..<25] ten_rows" "rows ten_rows \<noteq> []" by (simp_all add: follows_def ten_rows_def)
  moreover have "offered [0..<25] [(2, Fails None), (2, Arrives), (1, Arrives)] ten_rows"
    "length (rows (browse [0..<25] [(2, Fails None), (2, Arrives), (1, Arrives)] ten_rows)) = 20"
    by (simp_all add: ten_rows_def turn_def page_answer_def onPaginationChange_def pageRequest_def filledPages_def
        totalPages_def ITEMS_PER_PAGE_def loadRows_def initialTable_def server_page_def)
  ultimately show ?thesis using browsing_follows_server by blast
qed

lemma length_filter_one:
  "distinct (map f ys) \<Longrightarrow> i \<in> f ` set ys \<Longrightarrow> Suc (length (filter (\<lambda>r. f r \<noteq> i) ys)) = length ys"
proof (induction ys)
  case (Cons y ys)
  show ?case
  proof (cases "f y = i")
    case True
    then have "\<forall>r \<in> set ys. f r \<noteq> i" using Cons.prems(1) by (metis distinct.simps(2) image_eqI list.map(2) set_map)
    then have "filter (\<lambda>r. f r \<noteq> i) ys = ys" by (simp add: filter_id_conv)
    then show ?thesis using True by simp
  next
    case False
    then show ?thesis using Cons by auto
  qed
qed simp

definition sample_channel :: "int \<Rightarrow> channel_row" where
  "sample_channel i = \<lparr>cr_id = i, cr_name = [], cr_description = [], cr_type = [], cr_status = 1, cr_created = 0,
     cr_deleted = False\<rparr>"

text \<open>C21: Deleting a channel hides that channel and nothing else, but turning pages then leaves one out.
  The table still counts the deleted row when it asks for the next page, while the server's list has
  become shorter: the first channel that was not yet loaded is in the server's list, yet it is in no
  page, whatever offered pages are turned and however often (each answered before the next click, the
  list otherwise unchanged).  A new search or a reload would show it.\<close>
theorem deletion_skips_a_row:
  assumes "follows xs t" "distinct (map cr_id xs)" "length (rows t) = p * ITEMS_PER_PAGE" "0 < p" "length (rows t) < length xs"
    and "i \<in> cr_id ` set (rows t)" "manageChannel i DeleteIt (Success status) t = (t1, es)"
    and "live = filter (\<lambda>c. cr_id c \<noteq> i) xs" "offered live clicks t1"
  shows "filter (\<lambda>c. \<not> cr_deleted c) (rows t1) = filter (\<lambda>c. \<not> cr_deleted c \<and> cr_id c \<noteq> i) (rows t) \<and>
    xs ! length (rows t) \<in> set live \<and>
    cr_id (xs ! length (rows t)) \<notin> cr_id ` set (rows (browse live clicks t1))"
proof -
  let ?n = "length (rows t)" and ?live = "\<lambda>c. cr_id c \<noteq> i"
  have rows_t: "rows t = take ?n xs" using assms(1) by (simp add: follows_def)
  obtain b bs where rest: "drop ?n xs = b # bs" using assms(5) by (cases "drop ?n xs") auto
  have b: "xs ! ?n = b" using rest assms(5) by (metis Cons_nth_drop_Suc list.inject)
  have xs: "xs = rows t @ b # bs" using rows_t rest by (metis append_take_drop_id)
  have "distinct (map cr_id (rows t) @ map cr_id (b # bs))" using assms(2) xs by (metis map_append)
  then have ids: "distinct (map cr_id (rows t))" "cr_id b \<notin> cr_id ` set (rows t)" "cr_id b \<notin> cr_id ` set bs"
    and apart: "set (map cr_id (rows t)) \<inter> set (map cr_id (b # bs)) = {}"
    by auto
  have "i \<in> set (map cr_id (rows t))" using assms(6) by simp
  then have gone: "i \<notin> set (map cr_id (b # bs))" using apart by blast
  have "\<forall>c \<in> set (b # bs). cr_id c \<noteq> i" using gone by (metis image_eqI set_map)
  then have "filter ?live (b # bs) = b # bs" unfolding filter_id_conv .
  then have live: "live = filter ?live (rows t) @ b # bs" unfolding assms(8) by (subst xs) (simp only: filter_append)
  have n: "?n = Suc (length (filter ?live (rows t)))" using length_filter_one [OF ids(1) assms(6)] by simp
  note del = manageChannel_delete [OF ids(1) assms(6,7)]
  have t1: "length (rows t1) = ?n" "cr_id ` set (rows t1) = cr_id ` set (rows t)"
    using del(2) by (metis length_map, metis set_map)
  let ?P = "\<lambda>rs. ?n \<le> length rs \<and> cr_id b \<notin> cr_id ` set rs"
  have step: "?P (rs @ server_page live q)" if P: "?P rs" and q: "length rs = q * ITEMS_PER_PAGE" for rs :: "channel_row list" and q
  proof -
    let ?R = "filter ?live (rows t)"
    have "length rs - length ?R = Suc (length rs - ?n)" using P n by linarith
    moreover have "drop (length rs) ?R = []" using P n by simp
    ultimately have "drop (length rs) live = drop (length rs - ?n) bs" unfolding live drop_append by simp
    then have "set (server_page live q) \<subseteq> set bs"
      unfolding server_page_def q by (metis in_set_dropD in_set_takeD subsetI)
    then show ?thesis using P ids(3) by auto
  qed
  have "?P (rows t1)" "rows t1 \<noteq> []" using t1 ids(2) assms(3,4) by (auto simp: ITEMS_PER_PAGE_def)
  from browse_invariant [of ?P, OF step this assms(9)] have "cr_id b \<notin> cr_id ` set (rows (browse live clicks t1))" by blast
  moreover have "b \<in> set live" unfolding live by simp
  ultimately show ?thesis using del(1) unfolding b by blast
qed

theorem deletion_skips_a_row_witness:
  "10 \<notin> cr_id ` set (rows (browse (filter (\<lambda>c. cr_id c \<noteq> 3) (map sample_channel [0..11])) [(2, Arrives), (1, Arrives)]
      (fst (manageChannel 3 DeleteIt (Success 0) (initialTable\<lparr>rows := map sample_channel [0..9]\<rparr>)))))"
proof -
  let ?t = "initialTable\<lparr>rows := map sample_channel [0..9]\<rparr>"
  let ?live = "filter (\<lambda>c. cr_id c \<noteq> 3) (map sample_channel [0..11])"
  have ids: "map cr_id (map sample_channel is) = is" for "is" by (simp add: sample_channel_def comp_def)
  have split: "[0..11] = [0..9] @ [10, 11 :: int]" by (simp add: upto.simps)
  have len: "length [0 .. 9 :: int] = 10" by simp
  have f: "follows (map sample_channel [0..11]) ?t" by (simp add: follows_def split)
  obtain t1 es where run: "manageChannel 3 DeleteIt (Success 0) ?t = (t1, es)" by (metis prod.exhaust)
  have ten: "cr_id (map sample_channel [0..11] ! length (rows ?t)) = 10" by (simp add: split nth_append sample_channel_def)
  have d: "distinct (map cr_id (map sample_channel [0..11]))" unfolding ids by simp
  moreover have there: "3 \<in> cr_id ` set (rows ?t)" by (simp add: image_image sample_channel_def)
  have "length (rows t1) = 10"
    using arg_cong [OF manageChannel_delete(2) [OF _ there run], of length] by (simp add: sample_channel_def comp_def)
  then have "offered ?live [(2, Arrives), (1, Arrives)] t1"
    by (simp add: turn_def page_answer_def onPaginationChange_def pageRequest_def loadRows_def totalPages_def filledPages_def
        ITEMS_PER_PAGE_def Let_def split: prod.split)
  then show ?thesis using deletion_skips_a_row [OF f d _ _ _ there run refl, of 1] len ten by (simp add: run ITEMS_PER_PAGE_def del: browse.simps offered.simps)
qed

section \<open>The live stream\<close>

lemma stream_alive:
  assumes "reachable_messages lc s"
  shows "ms_closed s \<or> ms_stream s \<or> ms_timer s \<noteq> None"
  using assms
proof induction
  case mounted
  then show ?case by (simp add: mountedState_def startLoad_def)
next
  case (step s e s' es)
  show ?case
  proof (cases e)
    case (Answer k reply)
    then show ?thesis using step answered_rest(3-5) by (auto simp: mstep_def split: if_splits)
  next
    case StreamError
    then show ?thesis using step by (auto simp: mstep_def streamBroken_def Let_def split: if_splits)
  next
    case (Tick now until)
    then show ?thesis using step by (auto simp: mstep_def tick_def Let_def startLoad_def split: if_splits)
  qed (use step in \<open>auto simp: handler_defs startLoad_def sortMessage_def insertNewMessage_def Let_def split: if_splits\<close>)
qed

text \<open>C6: As long as the page is open the live stream comes back: it is open, or a reconnect is due
  within a minute, and once that reconnect succeeds the stream is open again, the next delay is one
  second and the warning may be shown again.\<close>
theorem stream_comes_back:
  assumes "reachable_messages lc s" "\<not> ms_closed s"
  shows "ms_stream s \<or> (\<exists>d. ms_timer s = Some d \<and> d \<le> 60000 \<and>
    ms_stream (mrun lc [TimerFires, StreamOpen] s) \<and> ms_retryDelay (mrun lc [TimerFires, StreamOpen] s) = 1000 \<and>
    \<not> ms_retryNotified (mrun lc [TimerFires, StreamOpen] s))"
proof (cases "ms_stream s")
  case False
  then obtain d where d: "ms_timer s = Some d" using stream_alive [OF assms(1)] assms(2) by auto
  then have "d \<le> 60000" using reachable_messages_ok [OF assms(1)] by (simp add: messages_ok_def stream_ok_def retry_ok_def)
  then show ?thesis using d assms(2) by (simp add: mstep_def connectEventSource_def streamOpened_def Let_def)
qed simp

theorem stream_comes_back_witness:
  "ms_stream (mrun no_order [StreamError, TimerFires, StreamOpen] mountedState)"
proof -
  let ?s = "mrun no_order [StreamError] mountedState"
  have "reachable_messages no_order ?s"
    by (rule mrun_reachable [OF _ reachable_messages.mounted]) (simp add: event_ok_def)
  moreover have "\<not> ms_closed ?s" "\<not> ms_stream ?s"
    by (simp_all add: mstep_def mountedState_def startLoad_def streamBroken_def Let_def)
  ultimately have "ms_stream (mrun no_order [TimerFires, StreamOpen] ?s)" using stream_comes_back by blast
  then show ?thesis by simp
qed

end
