(* ===== verification/Table_Store.thy ===== *)
theory Table_Store
  imports Tables
begin

text \<open>
  The paged tables once more, with the store the code works on.  The rows are objects and the
  lists of rows are arrays, both at addresses: the variable \<open>channels\<close> (\<open>webhooks\<close>, \<open>users\<close>) of a
  component refers to one array, a handler that waits for an answer keeps the array it saw when it
  was started, \<open>push\<close> changes that array in place, \<open>[...channels]\<close> makes a new array of the same
  row objects, and \<open>deleted = true\<close> changes an object that several arrays share.  Answers arrive in
  any order.
\<close>

section \<open>The store\<close>

text \<open>The row an answer changes: looked up by its id in the copied array (channels, webhooks), or the
  object the button was made for (users).\<close>

datatype target = ById int | ByObject nat

text \<open>An open request and what its handler has captured: the start index, the array and the page that
  is shown afterwards; nothing; the array, the row and the action.\<close>

datatype 'a waiting =
    WaitRows nat nat "nat option"
  | WaitSearch
  | WaitChange nat target 'a

record ('r, 'a) shared_table =
  sh_objects :: "'r list" \<comment> \<open>by address\<close>
  sh_arrays :: "nat list list" \<comment> \<open>by address: the addresses of their rows\<close>
  sh_rows :: nat \<comment> \<open>the array in the state variable\<close>
  sh_loading :: bool
  sh_page :: nat
  sh_keyword :: string
  sh_searching :: bool
  sh_waiting :: "'a waiting list"

definition cell :: "nat \<Rightarrow> ('r, 'a) shared_table \<Rightarrow> nat list" where
  "cell a s = sh_arrays s ! a"

definition contents :: "nat \<Rightarrow> ('r, 'a) shared_table \<Rightarrow> 'r list" where
  "contents a s = map (\<lambda>obj. sh_objects s ! obj) (cell a s)"

text \<open>What the component shows: the table of \<open>Paged_Table\<close>.\<close>

definition view :: "('r, 'a) shared_table \<Rightarrow> 'r table" where
  "view s = \<lparr>rows = contents (sh_rows s) s, loading = sh_loading s, activePage = sh_page s,
     searchKeyword = sh_keyword s, searching = sh_searching s\<rparr>"

text \<open>The rows that are visible: those of the page that are not deleted, by address.\<close>

definition shown_objects :: "('r \<Rightarrow> bool) \<Rightarrow> ('r, 'a) shared_table \<Rightarrow> nat list" where
  "shown_objects deleted s =
     filter (\<lambda>obj. \<not> deleted (sh_objects s ! obj)) (pageSlice (sh_page s) (cell (sh_rows s) s))"

text \<open>\<open>useState\<close> and the first request of the mount effect.\<close>

definition mounted :: "('r, 'a) shared_table" where
  "mounted = \<lparr>sh_objects = [], sh_arrays = [[]], sh_rows = 0, sh_loading = True, sh_page = 1,
     sh_keyword = [], sh_searching = False, sh_waiting = [WaitRows 0 0 None]\<rparr>"

section \<open>The parts of the handlers\<close>

definition await :: "'a waiting \<Rightarrow> ('r, 'a) shared_table \<Rightarrow> ('r, 'a) shared_table" where
  "await w s = s\<lparr>sh_waiting := sh_waiting s @ [w]\<rparr>"

text \<open>A new array in the state variable.\<close>

definition set_rows :: "nat list \<Rightarrow> ('r, 'a) shared_table \<Rightarrow> ('r, 'a) shared_table" where
  "set_rows objs s = s\<lparr>sh_arrays := sh_arrays s @ [objs], sh_rows := length (sh_arrays s)\<rparr>"

text \<open>The rows of an answer are new objects.\<close>

definition new_objects :: "'r list \<Rightarrow> ('r, 'a) shared_table \<Rightarrow> nat list" where
  "new_objects data s = [length (sh_objects s)..<length (sh_objects s) + length data]"

definition parse_rows :: "'r list \<Rightarrow> ('r, 'a) shared_table \<Rightarrow> ('r, 'a) shared_table" where
  "parse_rows data s = s\<lparr>sh_objects := sh_objects s @ data\<rparr>"

definition push_rows :: "nat \<Rightarrow> nat list \<Rightarrow> ('r, 'a) shared_table \<Rightarrow> ('r, 'a) shared_table" where
  "push_rows a objs s = s\<lparr>sh_arrays := (sh_arrays s)[a := cell a s @ objs], sh_rows := a\<rparr>"

definition change_object :: "nat \<Rightarrow> ('r \<Rightarrow> 'r) \<Rightarrow> ('r, 'a) shared_table \<Rightarrow> ('r, 'a) shared_table" where
  "change_object obj f s = s\<lparr>sh_objects := (sh_objects s)[obj := f (sh_objects s ! obj)]\<rparr>"

section \<open>The handlers\<close>

text \<open>\<open>onPaginationChange\<close> up to its request.\<close>

definition clickPage :: "nat \<Rightarrow> ('r, 'a) shared_table \<Rightarrow> ('r, 'a) shared_table" where
  "clickPage page s =
     (if page = filledPages (length (cell (sh_rows s) s)) + 1
      then await (WaitRows (page - 1) (sh_rows s) (Some page)) s
      else s\<lparr>sh_page := page\<rparr>)"

text \<open>The answer to a list request, and the page that is shown after it.\<close>

definition rowsLoaded ::
    "nat \<Rightarrow> nat \<Rightarrow> nat option \<Rightarrow> 'r list reply \<Rightarrow> ('r, 'a) shared_table \<Rightarrow> ('r, 'a) shared_table \<times> effect list" where
  "rowsLoaded startIdx a page reply s =
     (let (s1, es) =
        (case reply of
           Success data \<Rightarrow>
             ((if startIdx = 0 then set_rows (new_objects data s) (parse_rows data s)
               else push_rows a (new_objects data s) (parse_rows data s)), [])
         | Failure m \<Rightarrow> (s, showMessage m));
        s2 = s1\<lparr>sh_loading := False\<rparr> in
      (case page of Some p \<Rightarrow> s2\<lparr>sh_page := p\<rparr> | None \<Rightarrow> s2, es))"

definition typeKeyword :: "string \<Rightarrow> ('r, 'a) shared_table \<Rightarrow> ('r, 'a) shared_table" where
  "typeKeyword value s = s\<lparr>sh_keyword := trim value\<rparr>"

definition clickSearch :: "('r, 'a) shared_table \<Rightarrow> ('r, 'a) shared_table" where
  "clickSearch s =
     (if sh_keyword s = [] then await (WaitRows 0 (sh_rows s) (Some 1)) s
      else await WaitSearch (s\<lparr>sh_searching := True\<rparr>))"

definition searchAnswered ::
    "'r list reply \<Rightarrow> ('r, 'a) shared_table \<Rightarrow> ('r, 'a) shared_table \<times> effect list" where
  "searchAnswered reply s =
     (let (s1, es) =
        (case reply of
           Success data \<Rightarrow> ((set_rows (new_objects data s) (parse_rows data s))\<lparr>sh_page := 1\<rparr>, [])
         | Failure m \<Rightarrow> (s, showMessage m)) in
      (s1\<lparr>sh_searching := False\<rparr>, es))"

definition clickChange :: "target \<Rightarrow> 'a \<Rightarrow> ('r, 'a) shared_table \<Rightarrow> ('r, 'a) shared_table" where
  "clickChange tgt action s = await (WaitChange (sh_rows s) tgt action) s"

text \<open>The answer to a change: the object is changed, the state variable gets a copy of the array the
  handler has captured.  Without such a row the handler throws after its message.\<close>

definition changed_object :: "('r \<Rightarrow> int) \<Rightarrow> nat \<Rightarrow> target \<Rightarrow> ('r, 'a) shared_table \<Rightarrow> nat option" where
  "changed_object rid a tgt s =
     (case tgt of
        ById i \<Rightarrow> map_option (\<lambda>k. cell a s ! k) (find_index (\<lambda>obj. rid (sh_objects s ! obj) = i) (cell a s))
      | ByObject obj \<Rightarrow> Some obj)"

definition changeAnswered ::
    "('r \<Rightarrow> int) \<Rightarrow> ('a \<Rightarrow> 'n \<Rightarrow> 'r \<Rightarrow> 'r) \<Rightarrow> nat \<Rightarrow> target \<Rightarrow> 'a \<Rightarrow> 'n reply \<Rightarrow> ('r, 'a) shared_table \<Rightarrow>
     ('r, 'a) shared_table \<times> effect list" where
  "changeAnswered rid change a tgt action reply s =
     (case reply of
        Failure m \<Rightarrow> (s, showMessage m)
      | Success new \<Rightarrow>
          (case changed_object rid a tgt s of
             None \<Rightarrow> (s, [showSuccess (Fixed Done)])
           | Some obj \<Rightarrow> (set_rows (cell a s) (change_object obj (change action new) s), [showSuccess (Fixed Done)])))"

text \<open>\<open>sortChannel\<close>: nothing is awaited.\<close>

definition sortShared ::
    "(string \<Rightarrow> string \<Rightarrow> int) \<Rightarrow> ('r \<Rightarrow> int) \<Rightarrow> ('r \<Rightarrow> string) \<Rightarrow> ('r, 'a) shared_table \<Rightarrow> ('r, 'a) shared_table" where
  "sortShared lc rid col s =
     (let objs = cell (sh_rows s) s; obj_of = (\<lambda>obj. sh_objects s ! obj) in
      if objs = [] then s
      else let sorted = sort_by (\<lambda>a b. lc (col (obj_of a)) (col (obj_of b)) \<le> 0) objs in
        (set_rows (if rid (obj_of (hd sorted)) = rid (obj_of (hd objs)) then rev sorted else sorted) s)
          \<lparr>sh_loading := False\<rparr>)"

section \<open>Clicks and answers in any order\<close>

datatype ('r, 'a, 'n) table_event =
    TurnPage nat
  | EnterKeyword string
  | SubmitSearch
  | PressChange target 'a
  | SortColumn string
  | RowsArrive nat "'r list reply" \<comment> \<open>the answer to the open request at this place\<close>
  | ChangeArrives nat "'n reply"

definition finish :: "nat \<Rightarrow> ('r, 'a) shared_table \<Rightarrow> ('r, 'a) shared_table" where
  "finish k s = s\<lparr>sh_waiting := drop_at k (sh_waiting s)\<rparr>"

definition rowsArrive :: "nat \<Rightarrow> 'r list reply \<Rightarrow> ('r, 'a) shared_table \<Rightarrow> ('r, 'a) shared_table \<times> effect list" where
  "rowsArrive k reply s =
     (if k < length (sh_waiting s) then
        (case sh_waiting s ! k of
           WaitRows startIdx a page \<Rightarrow> rowsLoaded startIdx a page reply (finish k s)
         | WaitSearch \<Rightarrow> searchAnswered reply (finish k s)
         | WaitChange _ _ _ \<Rightarrow> (s, []))
      else (s, []))"

definition changeArrives ::
    "('r \<Rightarrow> int) \<Rightarrow> ('a \<Rightarrow> 'n \<Rightarrow> 'r \<Rightarrow> 'r) \<Rightarrow> nat \<Rightarrow> 'n reply \<Rightarrow> ('r, 'a) shared_table \<Rightarrow>
     ('r, 'a) shared_table \<times> effect list" where
  "changeArrives rid change k reply s =
     (if k < length (sh_waiting s) then
        (case sh_waiting s ! k of
           WaitChange a tgt action \<Rightarrow> changeAnswered rid change a tgt action reply (finish k s)
         | _ \<Rightarrow> (s, []))
      else (s, []))"

fun tableStep ::
    "(string \<Rightarrow> string \<Rightarrow> int) \<Rightarrow> ('r \<Rightarrow> int) \<Rightarrow> (string \<Rightarrow> 'r \<Rightarrow> string) \<Rightarrow> ('a \<Rightarrow> 'n \<Rightarrow> 'r \<Rightarrow> 'r) \<Rightarrow>
     ('r, 'a, 'n) table_event \<Rightarrow> ('r, 'a) shared_table \<Rightarrow> ('r, 'a) shared_table \<times> effect list" where
  "tableStep lc rid col change (TurnPage page) s = (clickPage page s, [])"
| "tableStep lc rid col change (EnterKeyword value) s = (typeKeyword value s, [])"
| "tableStep lc rid col change SubmitSearch s = (clickSearch s, [])"
| "tableStep lc rid col change (PressChange tgt action) s = (clickChange tgt action s, [])"
| "tableStep lc rid col change (SortColumn key) s = (sortShared lc rid (col key) s, [])"
| "tableStep lc rid col change (RowsArrive k reply) s = rowsArrive k reply s"
| "tableStep lc rid col change (ChangeArrives k reply) s = changeArrives rid change k reply s"

fun tableRun ::
    "(string \<Rightarrow> string \<Rightarrow> int) \<Rightarrow> ('r \<Rightarrow> int) \<Rightarrow> (string \<Rightarrow> 'r \<Rightarrow> string) \<Rightarrow> ('a \<Rightarrow> 'n \<Rightarrow> 'r \<Rightarrow> 'r) \<Rightarrow>
     ('r, 'a, 'n) table_event list \<Rightarrow> ('r, 'a) shared_table \<Rightarrow> ('r, 'a) shared_table \<times> effect list" where
  "tableRun lc rid col change [] s = (s, [])"
| "tableRun lc rid col change (e # events) s =
     (let (s1, es1) = tableStep lc rid col change e s;
          (s2, es2) = tableRun lc rid col change events s1 in
      (s2, es1 @ es2))"

section \<open>The three tables\<close>

text \<open>What \<open>manageChannel\<close> and \<open>manageWebhook\<close> write into the row.\<close>

definition changeChannel :: "manage \<Rightarrow> int \<Rightarrow> channel_row \<Rightarrow> channel_row" where
  "changeChannel action newStatus = (if action = DeleteIt then mark_channel else set_channel_status newStatus)"

definition changeWebhook :: "manage \<Rightarrow> int \<Rightarrow> webhook_row \<Rightarrow> webhook_row" where
  "changeWebhook action newStatus = (if action = DeleteIt then mark_webhook else set_webhook_status newStatus)"

definition channelsRun ::
    "(string \<Rightarrow> string \<Rightarrow> int) \<Rightarrow> (channel_row, manage, int) table_event list \<Rightarrow>
     (channel_row, manage) shared_table \<Rightarrow> (channel_row, manage) shared_table \<times> effect list" where
  "channelsRun lc = tableRun lc cr_id channelField changeChannel"

definition webhooksRun ::
    "(string \<Rightarrow> string \<Rightarrow> int) \<Rightarrow> (webhook_row, manage, int) table_event list \<Rightarrow>
     (webhook_row, manage) shared_table \<Rightarrow> (webhook_row, manage) shared_table \<times> effect list" where
  "webhooksRun lc = tableRun lc wr_id webhookField changeWebhook"

definition usersRun ::
    "(string \<Rightarrow> string \<Rightarrow> int) \<Rightarrow> (user_row, user_action_name, user_row) table_event list \<Rightarrow>
     (user_row, user_action_name) shared_table \<Rightarrow> (user_row, user_action_name) shared_table \<times> effect list" where
  "usersRun lc = tableRun lc ur_id userField updateUser"

section \<open>The store stays well-formed\<close>

fun waiting_ok :: "nat \<Rightarrow> 'a waiting \<Rightarrow> bool" where
  "waiting_ok n (WaitRows _ a _) = (a < n)"
| "waiting_ok n WaitSearch = True"
| "waiting_ok n (WaitChange a _ _) = (a < n)"

definition array_ok :: "nat \<Rightarrow> nat list \<Rightarrow> bool" where
  "array_ok n objs \<longleftrightarrow> distinct objs \<and> set objs \<subseteq> {..<n}"

definition shared_ok :: "('r, 'a) shared_table \<Rightarrow> bool" where
  "shared_ok s \<longleftrightarrow> sh_rows s < length (sh_arrays s) \<and>
     list_all (array_ok (length (sh_objects s))) (sh_arrays s) \<and>
     list_all (waiting_ok (length (sh_arrays s))) (sh_waiting s)"

lemma waiting_ok_mono: "waiting_ok n w \<Longrightarrow> n \<le> m \<Longrightarrow> waiting_ok m w"
  by (cases w) auto

lemma array_ok_mono: "array_ok n objs \<Longrightarrow> n \<le> m \<Longrightarrow> array_ok m objs"
  unfolding array_ok_def by fastforce

lemma shared_okD:
  assumes "shared_ok s"
  shows "sh_rows s < length (sh_arrays s)"
    and "a < length (sh_arrays s) \<Longrightarrow> distinct (cell a s)"
    and "a < length (sh_arrays s) \<Longrightarrow> obj \<in> set (cell a s) \<Longrightarrow> obj < length (sh_objects s)"
    and "k < length (sh_waiting s) \<Longrightarrow> waiting_ok (length (sh_arrays s)) (sh_waiting s ! k)"
  using assms unfolding shared_ok_def array_ok_def cell_def list_all_length by (blast | auto)+

lemma store_mounted_ok: "shared_ok mounted"
  by (simp add: mounted_def shared_ok_def array_ok_def)

text \<open>Fields the store does not depend on.\<close>

lemma ok_fields [simp]:
  "shared_ok (s\<lparr>sh_loading := b\<rparr>) = shared_ok s" "shared_ok (s\<lparr>sh_page := n\<rparr>) = shared_ok s"
  "shared_ok (s\<lparr>sh_keyword := v\<rparr>) = shared_ok s" "shared_ok (s\<lparr>sh_searching := b\<rparr>) = shared_ok s"
  by (simp_all add: shared_ok_def)

lemma ok_await: "shared_ok s \<Longrightarrow> waiting_ok (length (sh_arrays s)) w \<Longrightarrow> shared_ok (await w s)"
  by (simp add: shared_ok_def await_def)

lemma ok_finish: "shared_ok s \<Longrightarrow> shared_ok (finish k s)"
  using in_set_takeD [of _ k "sh_waiting s"] in_set_dropD [of _ "Suc k" "sh_waiting s"]
  by (auto simp: shared_ok_def finish_def drop_at_def list_all_iff)

lemma ok_set_rows:
  assumes "shared_ok s" "array_ok (length (sh_objects s)) objs"
  shows "shared_ok (set_rows objs s)"
proof -
  have "list_all (waiting_ok (Suc (length (sh_arrays s)))) (sh_waiting s)"
    using assms(1) waiting_ok_mono unfolding shared_ok_def list_all_iff by (metis le_SucI le_refl)
  then show ?thesis using assms by (simp add: shared_ok_def set_rows_def)
qed

lemma ok_parse_rows: "shared_ok s \<Longrightarrow> shared_ok (parse_rows data s)"
  using array_ok_mono [OF _ le_add1] by (auto simp: shared_ok_def parse_rows_def list_all_iff)

lemma ok_change_object [simp]: "shared_ok (change_object obj f s) = shared_ok s"
  by (simp add: shared_ok_def change_object_def)

lemma new_objects_ok: "array_ok (length (sh_objects (parse_rows data s))) (new_objects data s)"
  by (auto simp: array_ok_def new_objects_def parse_rows_def)

lemma cell_new:
  assumes "shared_ok s" "a < length (sh_arrays s)"
  shows "array_ok (length (sh_objects (parse_rows data s))) (cell a s @ new_objects data s)"
  using shared_okD(2,3) [OF assms(1), of a] assms(2) by (fastforce simp: array_ok_def new_objects_def parse_rows_def)

lemma cell_parse [simp]: "cell a (parse_rows data s) = cell a s"
  by (simp add: cell_def parse_rows_def)

lemma ok_push_new:
  assumes "shared_ok s" "a < length (sh_arrays s)"
  shows "shared_ok (push_rows a (new_objects data s) (parse_rows data s))"
proof -
  have "list_all (array_ok n) (xs[a := objs])" if "list_all (array_ok n) xs" "array_ok n objs" for n xs objs
    using that set_update_subset_insert by (fastforce simp: list_all_iff)
  then show ?thesis using ok_parse_rows [OF assms(1), of data] cell_new [OF assms, of data] assms(2)
    by (simp add: shared_ok_def push_rows_def) (simp add: parse_rows_def)
qed

lemma ok_rowsLoaded:
  assumes "shared_ok s" "a < length (sh_arrays s)"
  shows "shared_ok (fst (rowsLoaded startIdx a page reply s))"
  using assms ok_push_new [OF assms] ok_set_rows [OF ok_parse_rows [OF assms(1)] new_objects_ok]
  by (simp add: rowsLoaded_def Let_def split: reply.split option.split)

lemma ok_searchAnswered: "shared_ok s \<Longrightarrow> shared_ok (fst (searchAnswered reply s))"
  by (auto simp: searchAnswered_def split: reply.split intro!: ok_set_rows ok_parse_rows new_objects_ok)

lemma ok_cell: "shared_ok s \<Longrightarrow> a < length (sh_arrays s) \<Longrightarrow> array_ok (length (sh_objects s)) (cell a s)"
  by (simp add: shared_ok_def cell_def list_all_length)

lemma ok_changeAnswered:
  assumes "shared_ok s" "a < length (sh_arrays s)"
  shows "shared_ok (fst (changeAnswered rid change a tgt action reply s))"
proof -
  have "shared_ok (set_rows (cell a s) (change_object obj f s))" for obj f
    using ok_cell [OF assms] assms(1) by (intro ok_set_rows) (simp, simp add: change_object_def)
  then show ?thesis using assms(1) by (simp add: changeAnswered_def split: reply.split option.split)
qed

lemma ok_sortShared:
  assumes "shared_ok s"
  shows "shared_ok (sortShared lc rid col s)"
proof -
  have "array_ok (length (sh_objects s)) (cell (sh_rows s) s)" by (rule ok_cell [OF assms shared_okD(1) [OF assms]])
  then have "array_ok (length (sh_objects s)) (sort_by b (cell (sh_rows s) s))" for b
    using distinct_map_sort_by [of id b "cell (sh_rows s) s"] by (simp add: array_ok_def)
  then have "shared_ok (set_rows (sort_by b (cell (sh_rows s) s)) s)"
    "shared_ok (set_rows (rev (sort_by b (cell (sh_rows s) s))) s)" for b
    using ok_set_rows [OF assms] by (simp_all add: array_ok_def)
  then show ?thesis using assms by (simp add: sortShared_def Let_def)
qed

lemma ok_tableStep:
  assumes "shared_ok s"
  shows "shared_ok (fst (tableStep lc rid col change e s))"
proof (cases e)
  case (RowsArrive k reply)
  have "shared_ok (finish k s)" "sh_arrays (finish k s) = sh_arrays s" using ok_finish [OF assms] by (simp_all add: finish_def)
  then show ?thesis
    using shared_okD(4) [OF assms, of k] ok_rowsLoaded [of "finish k s"] ok_searchAnswered [of "finish k s"] assms
    by (auto simp: RowsArrive rowsArrive_def split: waiting.split)
next
  case (ChangeArrives k reply)
  have "shared_ok (finish k s)" "sh_arrays (finish k s) = sh_arrays s" using ok_finish [OF assms] by (simp_all add: finish_def)
  then show ?thesis
    using shared_okD(4) [OF assms, of k] ok_changeAnswered [of "finish k s"] assms
    by (auto simp: ChangeArrives changeArrives_def split: waiting.split)
qed (use assms shared_okD(1) [OF assms] in \<open>auto simp: clickPage_def typeKeyword_def clickSearch_def clickChange_def
       ok_sortShared intro!: ok_await\<close>)

lemma ok_tableRun: "shared_ok s \<Longrightarrow> shared_ok (fst (tableRun lc rid col change events s))"
proof (induction events arbitrary: s)
  case (Cons e events)
  show ?case using Cons.IH [OF ok_tableStep [OF Cons.prems]] by (simp add: split_beta Let_def)
qed simp

section \<open>Row objects keep their id and stay deleted\<close>

definition objects_kept :: "('r \<Rightarrow> int) \<Rightarrow> ('r \<Rightarrow> bool) \<Rightarrow> 'r list \<Rightarrow> 'r list \<Rightarrow> bool" where
  "objects_kept rid deleted xs ys \<longleftrightarrow>
     list_all2 (\<lambda>x y. rid y = rid x \<and> (deleted x \<longrightarrow> deleted y)) xs (take (length xs) ys)"

lemma objects_kept_iff:
  "objects_kept rid deleted xs ys \<longleftrightarrow> length xs \<le> length ys \<and>
     (\<forall>k < length xs. rid (ys ! k) = rid (xs ! k) \<and> (deleted (xs ! k) \<longrightarrow> deleted (ys ! k)))"
  by (auto simp: objects_kept_def list_all2_conv_all_nth)

lemma kept_refl [simp]: "objects_kept rid deleted xs xs"
  by (simp add: objects_kept_iff)

lemma kept_append [simp]: "objects_kept rid deleted xs (xs @ ys)"
  by (simp add: objects_kept_iff nth_append)

lemma kept_trans: "objects_kept rid deleted xs ys \<Longrightarrow> objects_kept rid deleted ys zs \<Longrightarrow> objects_kept rid deleted xs zs"
  by (auto simp: objects_kept_iff)

lemma objects_simps [simp]:
  "sh_objects (set_rows objs s) = sh_objects s" "sh_objects (parse_rows data s) = sh_objects s @ data"
  "sh_objects (push_rows a objs s) = sh_objects s" "sh_objects (await w s) = sh_objects s"
  "sh_objects (finish k s) = sh_objects s"
  "sh_objects (change_object obj f s) = (sh_objects s)[obj := f (sh_objects s ! obj)]"
  by (simp_all add: set_rows_def parse_rows_def push_rows_def await_def finish_def change_object_def)

lemma objects_rowsLoaded:
  "sh_objects (fst (rowsLoaded startIdx a page reply s)) =
     sh_objects s @ (case reply of Success data \<Rightarrow> data | Failure _ \<Rightarrow> [])"
  by (simp add: rowsLoaded_def Let_def split: reply.split option.split)

lemma objects_searchAnswered:
  "sh_objects (fst (searchAnswered reply s)) = sh_objects s @ (case reply of Success data \<Rightarrow> data | Failure _ \<Rightarrow> [])"
  by (simp add: searchAnswered_def split: reply.split)

locale row_change =
  fixes rid :: "'r \<Rightarrow> int" and deleted :: "'r \<Rightarrow> bool" and change :: "'a \<Rightarrow> 'n \<Rightarrow> 'r \<Rightarrow> 'r"
  assumes change_id: "rid (change action new r) = rid r"
    and change_deleted: "deleted r \<Longrightarrow> deleted (change action new r)"
begin

lemma kept_change: "objects_kept rid deleted xs (xs[k := change action new (xs ! k)])"
  by (cases "k < length xs") (auto simp: objects_kept_iff nth_list_update change_id change_deleted)

lemma kept_tableStep: "objects_kept rid deleted (sh_objects s) (sh_objects (fst (tableStep lc rid col change e s)))"
proof (cases e)
  case (RowsArrive k reply)
  then show ?thesis by (simp add: rowsArrive_def objects_rowsLoaded objects_searchAnswered split: waiting.split)
next
  case (ChangeArrives k reply)
  then show ?thesis
    by (simp add: changeArrives_def changeAnswered_def kept_change split: waiting.split reply.split option.split)
qed (simp_all add: clickPage_def typeKeyword_def clickSearch_def clickChange_def sortShared_def Let_def)

lemma kept_tableRun: "objects_kept rid deleted (sh_objects s) (sh_objects (fst (tableRun lc rid col change events s)))"
proof (induction events arbitrary: s)
  case (Cons e events)
  show ?case using kept_trans [OF kept_tableStep Cons.IH] by (simp add: split_beta Let_def)
qed simp

text \<open>An object that is deleted once is not among the rows of any page, however the open requests
  are answered.\<close>

lemma deleted_for_good:
  assumes "shared_ok s" "obj < length (sh_objects s)" "deleted (sh_objects s ! obj)"
    and "s' = fst (tableRun lc rid col change events s)"
  shows "shared_ok s' \<and> obj \<notin> set (shown_objects deleted s')"
  using assms ok_tableRun [OF assms(1)] kept_tableRun [of s lc col events]
  by (simp add: objects_kept_iff shown_objects_def)

end

interpretation channel_store: row_change cr_id cr_deleted changeChannel
  by unfold_locales (simp_all add: changeChannel_def mark_channel_def set_channel_status_def)

interpretation webhook_store: row_change wr_id wr_deleted changeWebhook
  by unfold_locales (simp_all add: changeWebhook_def mark_webhook_def set_webhook_status_def)

interpretation user_store: row_change ur_id ur_deleted updateUser
  by unfold_locales (simp_all add: updateUser_def)

end
