(* ===== verification/Store_Properties.thy ===== *)
theory Store_Properties
  imports Table_Store
begin

text \<open>
  What the tables over the store of \<open>Table_Store\<close> guarantee: when every request is answered before
  the next click they are the tables of \<open>Paged_Table\<close>; in any order of answers a deleted row stays
  away; and what answers that arrive late do to a list that was replaced meanwhile.
\<close>

section \<open>What the component shows\<close>

lemma pageSlice_map: "pageSlice page (map f xs) = map f (pageSlice page xs)"
  by (simp add: pageSlice_def take_map drop_map)

lemma pagedRows_view: "pagedRows deleted (view s) = map (\<lambda>obj. sh_objects s ! obj) (shown_objects deleted s)"
  by (simp add: pagedRows_def view_def contents_def shown_objects_def pageSlice_map filter_map o_def)

lemma view_fields [simp]:
  "rows (view s) = contents (sh_rows s) s" "loading (view s) = sh_loading s" "activePage (view s) = sh_page s"
  "searchKeyword (view s) = sh_keyword s" "searching (view s) = sh_searching s"
  by (simp_all add: view_def)

lemma rest_simps [simp]:
  "sh_loading (set_rows objs s) = sh_loading s" "sh_page (set_rows objs s) = sh_page s"
  "sh_keyword (set_rows objs s) = sh_keyword s" "sh_searching (set_rows objs s) = sh_searching s"
  "sh_waiting (set_rows objs s) = sh_waiting s" "sh_rows (set_rows objs s) = length (sh_arrays s)"
  "sh_loading (push_rows a objs s) = sh_loading s" "sh_page (push_rows a objs s) = sh_page s"
  "sh_keyword (push_rows a objs s) = sh_keyword s" "sh_searching (push_rows a objs s) = sh_searching s"
  "sh_waiting (push_rows a objs s) = sh_waiting s" "sh_rows (push_rows a objs s) = a"
  "sh_loading (parse_rows data s) = sh_loading s" "sh_page (parse_rows data s) = sh_page s"
  "sh_keyword (parse_rows data s) = sh_keyword s" "sh_searching (parse_rows data s) = sh_searching s"
  "sh_waiting (parse_rows data s) = sh_waiting s" "sh_arrays (parse_rows data s) = sh_arrays s"
  "sh_loading (change_object obj f s) = sh_loading s" "sh_page (change_object obj f s) = sh_page s"
  "sh_keyword (change_object obj f s) = sh_keyword s" "sh_searching (change_object obj f s) = sh_searching s"
  "sh_waiting (change_object obj f s) = sh_waiting s" "sh_arrays (change_object obj f s) = sh_arrays s"
  by (simp_all add: set_rows_def push_rows_def parse_rows_def change_object_def)

lemma contents_set_rows:
  "contents (length (sh_arrays s)) (set_rows objs s) = map (\<lambda>obj. sh_objects s ! obj) objs"
  by (simp add: contents_def cell_def set_rows_def)

lemma new_contents: "map (\<lambda>obj. (sh_objects s @ data) ! obj) (new_objects data s) = data"
  by (auto simp: new_objects_def intro!: nth_equalityI)

lemma contents_new: "contents (length (sh_arrays s)) (set_rows (new_objects data s) (parse_rows data s)) = data"
  using contents_set_rows [of "parse_rows data s" "new_objects data s"] by (simp add: new_contents)

lemma contents_push:
  assumes "shared_ok s" "a < length (sh_arrays s)"
  shows "contents a (push_rows a (new_objects data s) (parse_rows data s)) = contents a s @ data"
proof -
  have "map (\<lambda>obj. (sh_objects s @ data) ! obj) (cell a s) = map (\<lambda>obj. sh_objects s ! obj) (cell a s)"
    using shared_okD(3) [OF assms(1,2)] by (simp add: nth_append)
  then show ?thesis using assms(2) new_contents [of s data]
    by (simp add: contents_def push_rows_def) (simp add: cell_def)
qed

lemma length_contents [simp]: "length (contents a s) = length (cell a s)"
  by (simp add: contents_def)

lemma contents_fields [simp]:
  "contents a (s\<lparr>sh_loading := b\<rparr>) = contents a s" "contents a (s\<lparr>sh_page := n\<rparr>) = contents a s"
  "contents a (s\<lparr>sh_keyword := v\<rparr>) = contents a s" "contents a (s\<lparr>sh_searching := b\<rparr>) = contents a s"
  "contents a (s\<lparr>sh_waiting := ws\<rparr>) = contents a s"
  by (simp_all add: contents_def cell_def)

lemma view_updates [simp]:
  "view (s\<lparr>sh_loading := b\<rparr>) = (view s)\<lparr>loading := b\<rparr>" "view (s\<lparr>sh_page := n\<rparr>) = (view s)\<lparr>activePage := n\<rparr>"
  "view (s\<lparr>sh_keyword := v\<rparr>) = (view s)\<lparr>searchKeyword := v\<rparr>" "view (s\<lparr>sh_searching := b\<rparr>) = (view s)\<lparr>searching := b\<rparr>"
  by (simp_all add: view_def)

section \<open>Every handler is the one of the paged table\<close>

lemma view_rowsLoaded:
  assumes "shared_ok s" "rowsLoaded startIdx (sh_rows s) page reply s = (s', es)"
  shows "(view s', es) = (let (t, es) = loadRows startIdx reply (view s) in
     (case page of Some p \<Rightarrow> t\<lparr>activePage := p\<rparr> | None \<Rightarrow> t, es))"
proof -
  have "view (set_rows (new_objects data s) (parse_rows data s)) = (view s)\<lparr>rows := data\<rparr>"
    "view (push_rows (sh_rows s) (new_objects data s) (parse_rows data s)) = (view s)\<lparr>rows := rows (view s) @ data\<rparr>" for data
    using contents_new [of s data] contents_push [OF assms(1) shared_okD(1) [OF assms(1)]] by (simp_all add: view_def)
  then show ?thesis using assms(2)
    by (auto simp: rowsLoaded_def loadRows_def Let_def split: reply.splits option.splits if_splits)
qed

lemma view_searchAnswered:
  assumes "searchAnswered reply s = (s', es)" "sh_keyword s \<noteq> []"
  shows "(view s', es) = searchRows reply (view s)"
proof -
  have "view (set_rows (new_objects data s) (parse_rows data s)) = (view s)\<lparr>rows := data\<rparr>" for data
    using contents_new [of s data] by (simp add: view_def)
  then show ?thesis using assms by (auto simp: searchAnswered_def searchRows_def split: reply.splits)
qed

lemma insert_by_map: "insert_by (\<lambda>a b. bef (f a) (f b)) x xs = ys \<Longrightarrow> map f ys = insert_by bef (f x) (map f xs)"
  by (induction xs arbitrary: ys) auto

lemma sort_by_map: "map f (sort_by (\<lambda>a b. bef (f a) (f b)) xs) = sort_by bef (map f xs)"
  by (induction xs) (simp_all add: sort_by_Cons insert_by_map [OF refl])

lemma view_sortShared:
  assumes "shared_ok s"
  shows "view (sortShared lc rid col s) = sortRows lc rid col (view s)"
proof (cases "cell (sh_rows s) s = []")
  case True
  then show ?thesis by (simp add: sortShared_def sortRows_def contents_def)
next
  case False
  let ?f = "\<lambda>obj. sh_objects s ! obj"
  let ?b = "\<lambda>a b. lc (col a) (col b) \<le> 0"
  let ?sorted = "sort_by (\<lambda>a b. ?b (?f a) (?f b)) (cell (sh_rows s) s)"
  have sorted: "map ?f ?sorted = sort_by ?b (contents (sh_rows s) s)"
    using sort_by_map [of ?f ?b] by (simp add: contents_def)
  have "?sorted \<noteq> []" using False length_sort_by by (metis length_0_conv)
  then have heads: "hd (sort_by ?b (contents (sh_rows s) s)) = ?f (hd ?sorted)"
    "hd (contents (sh_rows s) s) = ?f (hd (cell (sh_rows s) s))"
    using False hd_map [of _ ?f] unfolding sorted [symmetric] by (simp_all add: contents_def)
  have "contents (sh_rows s) s \<noteq> []" using False by (simp add: contents_def)
  then show ?thesis using False
    by (simp add: sortShared_def sortRows_def Let_def heads view_def contents_set_rows sorted rev_map [symmetric])
qed

text \<open>A change of the row at place \<open>k\<close> of the array in the state variable.\<close>

lemma view_changed:
  assumes "shared_ok s" "k < length (cell (sh_rows s) s)" "obj = cell (sh_rows s) s ! k"
  shows "view (set_rows (cell (sh_rows s) s) (change_object obj f s)) =
    (view s)\<lparr>rows := (contents (sh_rows s) s)[k := f (contents (sh_rows s) s ! k)]\<rparr>"
proof -
  let ?objs = "cell (sh_rows s) s"
  note r = shared_okD(1) [OF assms(1)]
  have "map (\<lambda>x. (sh_objects s)[obj := f (sh_objects s ! obj)] ! x) ?objs = (contents (sh_rows s) s)[k := f (contents (sh_rows s) s ! k)]"
    using assms(2,3) shared_okD(3) [OF assms(1) r] shared_okD(2) [OF assms(1) r]
    by (intro nth_equalityI) (auto simp: contents_def nth_list_update nth_eq_iff_index_eq)
  then show ?thesis using contents_set_rows [of "change_object obj f s" ?objs] by (simp add: view_def)
qed

lemma find_index_map: "find_index P (map f xs) = find_index (\<lambda>x. P (f x)) xs"
  by (induction xs) auto

lemma find_contents: "find_index P (contents a s) = find_index (\<lambda>obj. P (sh_objects s ! obj)) (cell a s)"
  by (simp add: contents_def find_index_map)

section \<open>Rounds: a click and, if it asks the server, the answer\<close>

datatype ('r, 'g, 'a, 'n) round =
    Page nat "'r list reply"
  | Keyword string
  | SearchFor "'r list reply"
  | Manage 'g 'a "'n reply"
  | SortBy string

text \<open>\<open>aim\<close>: what the button of a row captures; \<^const>\<open>None\<close> when there is no such button.\<close>

fun round_events ::
    "('g \<Rightarrow> ('r, 'a) shared_table \<Rightarrow> target option) \<Rightarrow> ('r, 'g, 'a, 'n) round \<Rightarrow> ('r, 'a) shared_table \<Rightarrow>
     ('r, 'a, 'n) table_event list" where
  "round_events aim (Page page reply) s = [TurnPage page, RowsArrive 0 reply]"
| "round_events aim (Keyword value) s = [EnterKeyword value]"
| "round_events aim (SearchFor reply) s = [SubmitSearch, RowsArrive 0 reply]"
| "round_events aim (Manage g action reply) s =
     (case aim g s of None \<Rightarrow> [] | Some tgt \<Rightarrow> [PressChange tgt action, ChangeArrives 0 reply])"
| "round_events aim (SortBy key) s = [SortColumn key]"

text \<open>Rounds on the store, for the step function of a table.\<close>

fun rounds ::
    "(('r, 'a, 'n) table_event list \<Rightarrow> ('r, 'a) shared_table \<Rightarrow> ('r, 'a) shared_table \<times> effect list) \<Rightarrow>
     ('g \<Rightarrow> ('r, 'a) shared_table \<Rightarrow> target option) \<Rightarrow> ('r, 'g, 'a, 'n) round list \<Rightarrow> ('r, 'a) shared_table \<Rightarrow>
     ('r, 'a) shared_table \<times> effect list" where
  "rounds run aim [] s = (s, [])"
| "rounds run aim (r # rs) s =
     (let (s1, es1) = run (round_events aim r s) s; (s2, es2) = rounds run aim rs s1 in (s2, es1 @ es2))"

text \<open>The same rounds with the handlers of \<open>Paged_Table\<close>.\<close>

fun table_round ::
    "('g \<Rightarrow> 'a \<Rightarrow> 'n reply \<Rightarrow> 'r table \<Rightarrow> 'r table \<times> effect list) \<Rightarrow> (string \<Rightarrow> 'r table \<Rightarrow> 'r table) \<Rightarrow>
     ('r, 'g, 'a, 'n) round \<Rightarrow> 'r table \<Rightarrow> 'r table \<times> effect list" where
  "table_round manage sorter (Page page reply) t = onPaginationChange page reply t"
| "table_round manage sorter (Keyword value) t = (handleKeywordChange value t, [])"
| "table_round manage sorter (SearchFor reply) t = searchRows reply t"
| "table_round manage sorter (Manage g action reply) t = manage g action reply t"
| "table_round manage sorter (SortBy key) t = (sorter key t, [])"

fun table_rounds ::
    "('g \<Rightarrow> 'a \<Rightarrow> 'n reply \<Rightarrow> 'r table \<Rightarrow> 'r table \<times> effect list) \<Rightarrow> (string \<Rightarrow> 'r table \<Rightarrow> 'r table) \<Rightarrow>
     ('r, 'g, 'a, 'n) round list \<Rightarrow> 'r table \<Rightarrow> 'r table \<times> effect list" where
  "table_rounds manage sorter [] t = (t, [])"
| "table_rounds manage sorter (r # rs) t =
     (let (t1, es1) = table_round manage sorter r t; (t2, es2) = table_rounds manage sorter rs t1 in (t2, es1 @ es2))"

lemma finish_await: "sh_waiting s = [] \<Longrightarrow> finish 0 (await w s) = s"
  by (simp add: finish_def await_def drop_at_def)

lemma waiting_await [simp]: "sh_waiting (await w s) = sh_waiting s @ [w]" "sh_rows (await w s) = sh_rows s"
  by (simp_all add: await_def)

lemma waiting_answered:
  "sh_waiting (fst (rowsLoaded startIdx a page reply s)) = sh_waiting s"
  "sh_waiting (fst (searchAnswered reply s)) = sh_waiting s"
  "sh_waiting (fst (changeAnswered rid change a tgt action new s)) = sh_waiting s"
  by (simp_all add: rowsLoaded_def searchAnswered_def changeAnswered_def Let_def split: reply.split option.split)

lemma tableRun_pair:
  "tableRun lc rid col change [e1, e2] s =
    (let (s1, es1) = tableStep lc rid col change e1 s; (s2, es2) = tableStep lc rid col change e2 s1 in (s2, es1 @ es2))"
  by (simp add: split_beta Let_def)

lemma round_Page:
  assumes "shared_ok s" "sh_waiting s = []" "tableRun lc rid col change [TurnPage page, RowsArrive 0 reply] s = (s', es)"
  shows "(view s', es) = onPaginationChange page reply (view s) \<and> sh_waiting s' = []"
proof (cases "page = filledPages (length (cell (sh_rows s) s)) + 1")
  case False
  then show ?thesis using assms(2,3)
    by (auto simp: clickPage_def rowsArrive_def onPaginationChange_def pageRequest_def)
next
  case True
  then have "rowsLoaded (page - 1) (sh_rows s) (Some page) reply s = (s', es)"
    using assms(2,3) by (simp add: clickPage_def rowsArrive_def finish_await split_beta prod_eq_iff)
  then show ?thesis using view_rowsLoaded [OF assms(1)] waiting_answered(1) [of "page - 1" "sh_rows s" "Some page" reply s] assms(2) True
    by (fastforce simp: onPaginationChange_def pageRequest_def split_beta Let_def)
qed

lemma round_Search:
  assumes "shared_ok s" "sh_waiting s = []" "tableRun lc rid col change [SubmitSearch, RowsArrive 0 reply] s = (s', es)"
  shows "(view s', es) = searchRows reply (view s) \<and> sh_waiting s' = []"
proof (cases "sh_keyword s = []")
  case True
  then have "rowsLoaded 0 (sh_rows s) (Some 1) reply s = (s', es)"
    using assms(2,3) by (simp add: clickSearch_def rowsArrive_def finish_await split_beta prod_eq_iff)
  then show ?thesis using view_rowsLoaded [OF assms(1)] waiting_answered(1) [of 0 "sh_rows s" "Some 1" reply s] assms(2) True
    by (fastforce simp: searchRows_def split_beta Let_def)
next
  case False
  let ?s = "s\<lparr>sh_searching := True\<rparr>"
  have "searchAnswered reply ?s = (s', es)"
    using False assms(2,3) by (simp add: clickSearch_def rowsArrive_def finish_await split_beta prod_eq_iff)
  moreover have "searchRows reply (view ?s) = searchRows reply (view s)"
    using False by (simp add: searchRows_def split: reply.split)
  ultimately show ?thesis using view_searchAnswered [of reply ?s s' es] waiting_answered(2) [of reply ?s] False assms(2) by fastforce
qed

text \<open>What a table provides for its rounds: its sorting, and the change of a row seen through \<open>view\<close>.\<close>

locale quiet_table =
  fixes lc :: "string \<Rightarrow> string \<Rightarrow> int" and rid :: "'r \<Rightarrow> int" and col :: "string \<Rightarrow> 'r \<Rightarrow> string"
    and change :: "'a \<Rightarrow> 'n \<Rightarrow> 'r \<Rightarrow> 'r"
    and aim :: "'g \<Rightarrow> ('r, 'a) shared_table \<Rightarrow> target option"
    and manage :: "'g \<Rightarrow> 'a \<Rightarrow> 'n reply \<Rightarrow> 'r table \<Rightarrow> 'r table \<times> effect list"
    and sorter :: "string \<Rightarrow> 'r table \<Rightarrow> 'r table"
  assumes sorts: "sorter key t = sortRows lc rid (col key) t"
    and manages: "shared_ok s \<Longrightarrow> aim g s = Some tgt \<Longrightarrow>
      changeAnswered rid change (sh_rows s) tgt action reply s = (s', es) \<Longrightarrow>
      manage g action reply (view s) = (view s', es)"
    and no_button: "shared_ok s \<Longrightarrow> aim g s = None \<Longrightarrow> manage g action reply (view s) = (view s, [])"
begin

lemma round_Manage:
  assumes "shared_ok s" "sh_waiting s = []" "aim g s = Some tgt"
    and "tableRun lc rid col change [PressChange tgt action, ChangeArrives 0 reply] s = (s', es)"
  shows "manage g action reply (view s) = (view s', es) \<and> sh_waiting s' = []"
proof -
  have "changeAnswered rid change (sh_rows s) tgt action reply s = (s', es)"
    using assms(2,4) by (simp add: clickChange_def changeArrives_def finish_await split_beta prod_eq_iff)
  then show ?thesis
    using manages [OF assms(1,3)] waiting_answered(3) [of rid change "sh_rows s" tgt action reply s] assms(2) by fastforce
qed

lemma round_refines:
  assumes "shared_ok s" "sh_waiting s = []" "tableRun lc rid col change (round_events aim r s) s = (s', es)"
  shows "table_round manage sorter r (view s) = (view s', es) \<and> sh_waiting s' = [] \<and> shared_ok s'"
proof -
  have "shared_ok s'" using ok_tableRun [OF assms(1), of lc rid col change "round_events aim r s"] assms(3) by simp
  moreover have "table_round manage sorter r (view s) = (view s', es) \<and> sh_waiting s' = []"
  proof (cases r)
    case (Page page reply)
    then show ?thesis using round_Page [OF assms(1,2)] assms(3) by simp
  next
    case (SearchFor reply)
    then show ?thesis using round_Search [OF assms(1,2)] assms(3) by simp
  next
    case (Manage g action reply)
    show ?thesis
    proof (cases "aim g s")
      case None
      then show ?thesis using no_button [OF assms(1) None] assms(2,3) Manage by simp
    next
      case (Some tgt)
      have "tableRun lc rid col change [PressChange tgt action, ChangeArrives 0 reply] s = (s', es)"
        using assms(3) unfolding Manage round_events.simps Some option.case .
      then show ?thesis using round_Manage [OF assms(1,2) Some] Manage by simp
    qed
  next
    case (SortBy key)
    then have "s' = sortShared lc rid (col key) s" "es = []" using assms(3) by simp_all
    then show ?thesis using view_sortShared [OF assms(1)] assms(2) SortBy
      by (simp add: sorts) (simp add: sortShared_def Let_def)
  qed (use assms(2,3) in \<open>auto simp: typeKeyword_def handleKeywordChange_def\<close>)
  ultimately show ?thesis by simp
qed

lemma rounds_refine:
  assumes "shared_ok s" "sh_waiting s = []"
  shows "table_rounds manage sorter rs (view s) =
    (let (s', es) = rounds (tableRun lc rid col change) aim rs s in (view s', es))"
  using assms
proof (induction rs arbitrary: s)
  case (Cons r rs)
  obtain s1 es1 where run: "tableRun lc rid col change (round_events aim r s) s = (s1, es1)" by force
  from round_refines [OF Cons.prems run] Cons.IH [of s1] show ?case
    by (simp add: run Let_def split: prod.splits)
qed simp

end

section \<open>The three tables\<close>

lemma manageRow_view:
  assumes "shared_ok s"
    and "\<And>action n. change action n = (if action = DeleteIt then mark else set_status n)"
    and "changeAnswered rid change (sh_rows s) (ById i) action reply s = (s', es)"
  shows "manageRow rid mark set_status i action reply (view s) = (view s', es)"
proof (cases reply)
  case (Failure m)
  then show ?thesis using assms(3) by (simp add: changeAnswered_def manageRow_def)
next
  case (Success n)
  let ?find = "find_index (\<lambda>obj. rid (sh_objects s ! obj) = i) (cell (sh_rows s) s)"
  show ?thesis
  proof (cases ?find)
    case None
    then show ?thesis using assms(3) Success by (simp add: changeAnswered_def changed_object_def manageRow_def changeRow_def find_contents)
  next
    case (Some k)
    then have k: "k < length (cell (sh_rows s) s)" using find_index_Some by fastforce
    then show ?thesis
      using assms(3) Some view_changed [OF assms(1) k refl, of "change action n"] unfolding Success
      by (simp add: changeAnswered_def changed_object_def manageRow_def changeRow_def find_contents flip: assms(2))
  qed
qed

text \<open>A button of the table of users belongs to the row at a place.\<close>

definition aimUser :: "nat \<Rightarrow> (user_row, user_action_name) shared_table \<Rightarrow> target option" where
  "aimUser k s = (if k < length (cell (sh_rows s) s) then Some (ByObject (cell (sh_rows s) s ! k)) else None)"

definition aimRow :: "int \<Rightarrow> ('r, manage) shared_table \<Rightarrow> target option" where
  "aimRow i s = Some (ById i)"

definition pressUser :: "nat \<Rightarrow> user_action_name \<Rightarrow> user_row reply \<Rightarrow> user_row table \<Rightarrow> user_row table \<times> effect list" where
  "pressUser k action reply t = (if k < length (rows t) then manageUser k action reply t else (t, []))"

interpretation quiet_channels: quiet_table lc cr_id channelField changeChannel aimRow manageChannel "sortChannel lc" for lc
proof unfold_locales
  fix s s' :: "(channel_row, manage) shared_table" and i tgt action reply es
  assume "shared_ok s" "aimRow i s = Some tgt" "changeAnswered cr_id changeChannel (sh_rows s) tgt action reply s = (s', es)"
  then show "manageChannel i action reply (view s) = (view s', es)"
    unfolding manageChannel_def aimRow_def by (intro manageRow_view) (auto simp: changeChannel_def)
qed (simp_all add: sortChannel_def aimRow_def)

interpretation quiet_webhooks: quiet_table lc wr_id webhookField changeWebhook aimRow manageWebhook "sortWebhook lc" for lc
proof unfold_locales
  fix s s' :: "(webhook_row, manage) shared_table" and i tgt action reply es
  assume "shared_ok s" "aimRow i s = Some tgt" "changeAnswered wr_id changeWebhook (sh_rows s) tgt action reply s = (s', es)"
  then show "manageWebhook i action reply (view s) = (view s', es)"
    unfolding manageWebhook_def aimRow_def by (intro manageRow_view) (auto simp: changeWebhook_def)
qed (simp_all add: sortWebhook_def aimRow_def)

interpretation quiet_users: quiet_table lc ur_id userField updateUser aimUser pressUser "sortUser lc" for lc
proof unfold_locales
  fix s s' :: "(user_row, user_action_name) shared_table" and k tgt action reply es
  assume *: "shared_ok s" "aimUser k s = Some tgt" "changeAnswered ur_id updateUser (sh_rows s) tgt action reply s = (s', es)"
  then have k: "k < length (cell (sh_rows s) s)" "tgt = ByObject (cell (sh_rows s) s ! k)"
    by (simp_all add: aimUser_def split: if_splits)
  show "pressUser k action reply (view s) = (view s', es)"
    using *(3) k view_changed [OF *(1) k(1) refl]
    by (auto simp: pressUser_def manageUser_def changeAnswered_def changed_object_def split: reply.splits)
qed (simp_all add: sortUser_def aimUser_def pressUser_def split: if_splits)

section \<open>One request at a time\<close>

lemma first_answer:
  assumes "rowsArrive 0 reply (mounted :: ('r, 'a) shared_table) = (s, es)"
  shows "shared_ok s \<and> sh_waiting s = [] \<and> (view s, es) = loadRows 0 reply initialTable"
proof -
  define m :: "('r, 'a) shared_table" where "m = finish 0 mounted"
  have ok: "shared_ok m" unfolding m_def by (rule ok_finish [OF store_mounted_ok])
  have m: "sh_waiting m = []" "view m = initialTable"
    by (simp_all add: m_def mounted_def finish_def drop_at_def view_def initialTable_def contents_def cell_def)
  have *: "rowsLoaded 0 (sh_rows m) None reply m = (s, es)"
    using assms by (simp add: m_def rowsArrive_def) (simp add: mounted_def finish_def)
  then show ?thesis
    using ok_rowsLoaded [OF ok shared_okD(1) [OF ok], of 0 None reply] waiting_answered(1) [of 0 "sh_rows m" None reply m]
      view_rowsLoaded [OF ok *] m by simp
qed

lemma users_quiet:
  "table_rounds pressUser (sortUser lc) rs (view s) = (let (s', es) = rounds (usersRun lc) aimUser rs s in (view s', es))"
  if "shared_ok s" "sh_waiting s = []"
  unfolding usersRun_def by (rule quiet_users.rounds_refine [OF that])

text \<open>C8: As long as every request is answered before the next click, the table of channels over shared
  objects and arrays does what the handlers of the paged table say: the first list, turning pages,
  typing, searching, enabling, disabling, deleting and sorting, with every answer and every failure,
  lead to the same rows, page and messages.\<close>
theorem quiet_channels_are_the_table:
  "(let (s, es) = rowsArrive 0 reply mounted; (s', es') = rounds (channelsRun lc) aimRow rs s in (view s', es @ es')) =
   (let (t, es) = loadChannels 0 reply initialTable; (t', es') = table_rounds manageChannel (sortChannel lc) rs t in
    (t', es @ es'))"
proof -
  obtain s :: "(channel_row, manage) shared_table" and es where s: "rowsArrive 0 reply mounted = (s, es)" by force
  note first = first_answer [OF s]
  have "table_rounds manageChannel (sortChannel lc) rs (view s) =
      (let (s', es') = rounds (channelsRun lc) aimRow rs s in (view s', es'))"
    unfolding channelsRun_def by (rule quiet_channels.rounds_refine) (use first in simp_all)
  moreover have "loadChannels 0 reply initialTable = (view s, es)" using first by (simp add: loadChannels_def)
  ultimately show ?thesis by (simp add: s Let_def split_beta)
qed

section \<open>Deleting a channel\<close>

text \<open>The answers that list the row \<open>i\<close>.\<close>

definition lists_row :: "('r \<Rightarrow> int) \<Rightarrow> int \<Rightarrow> ('r, 'a, 'n) table_event \<Rightarrow> bool" where
  "lists_row rid i e = (case e of RowsArrive k (Success data) \<Rightarrow> i \<in> rid ` set data | _ \<Rightarrow> False)"

text \<open>All objects with the id \<open>i\<close> are marked.\<close>

definition all_marked :: "('r \<Rightarrow> int) \<Rightarrow> ('r \<Rightarrow> bool) \<Rightarrow> int \<Rightarrow> 'r list \<Rightarrow> bool" where
  "all_marked rid deleted i objs \<longleftrightarrow> list_all (\<lambda>r. rid r = i \<longrightarrow> deleted r) objs"

context row_change
begin

lemma marked_change:
  assumes "all_marked rid deleted i objs"
  shows "all_marked rid deleted i (objs[k := change action new (objs ! k)])"
proof (cases "k < length objs")
  case True
  then have "rid (change action new (objs ! k)) = i \<longrightarrow> deleted (change action new (objs ! k))"
    using assms change_deleted by (simp add: all_marked_def list_all_length change_id)
  then have "rid (objs[k := change action new (objs ! k)] ! n) = i \<longrightarrow> deleted (objs[k := change action new (objs ! k)] ! n)"
    if "n < length objs" for n
    using that assms by (cases "n = k") (auto simp: all_marked_def list_all_length)
  then show ?thesis by (simp add: all_marked_def list_all_length)
qed (use assms in \<open>simp add: not_less list_update_beyond\<close>)

lemma marked_tableStep:
  assumes "all_marked rid deleted i (sh_objects s)" "\<not> lists_row rid i e"
  shows "all_marked rid deleted i (sh_objects (fst (tableStep lc rid col change e s)))"
proof (cases e)
  case (RowsArrive k reply)
  have "all_marked rid deleted i (sh_objects s @ (case reply of Success data \<Rightarrow> data | Failure _ \<Rightarrow> []))"
    using assms RowsArrive by (auto simp: all_marked_def lists_row_def list_all_iff split: reply.splits)
  then show ?thesis using assms(1) RowsArrive
    by (simp add: rowsArrive_def objects_rowsLoaded objects_searchAnswered split: waiting.split)
next
  case (ChangeArrives k reply)
  then show ?thesis using assms(1) marked_change [OF assms(1)]
    by (simp add: changeArrives_def changeAnswered_def split: waiting.split reply.split option.split)
qed (use assms(1) in \<open>simp_all add: clickPage_def typeKeyword_def clickSearch_def clickChange_def sortShared_def Let_def\<close>)

lemma marked_tableRun:
  "all_marked rid deleted i (sh_objects s) \<Longrightarrow> list_all (\<lambda>e. \<not> lists_row rid i e) events \<Longrightarrow>
   all_marked rid deleted i (sh_objects (fst (tableRun lc rid col change events s)))"
proof (induction events arbitrary: s)
  case (Cons e events)
  then show ?case using Cons.IH [OF marked_tableStep [OF Cons.prems(1)]] by (simp add: split_beta Let_def)
qed simp

lemma marked_not_shown:
  assumes "shared_ok s" "all_marked rid deleted i (sh_objects s)"
  shows "i \<notin> rid ` set (pagedRows deleted (view s))"
proof -
  have "obj < length (sh_objects s)" if "obj \<in> set (shown_objects deleted s)" for obj
    using that shared_okD(3) [OF assms(1) shared_okD(1) [OF assms(1)], of obj]
    by (auto simp: shown_objects_def pageSlice_def dest: in_set_takeD in_set_dropD)
  then show ?thesis using assms(2)
    by (auto simp: pagedRows_view all_marked_def list_all_length shown_objects_def)
qed

end

text \<open>C9: When the server confirms that a channel is deleted, the object of its row is never shown again,
  whatever is clicked and in whatever order the open requests are answered afterwards (a late page, a
  search, a sort, the answer to a change that was asked for earlier): the mark is on the object every
  array shares.  If the channel had been received once, no row with its id is shown either, until an
  answer arrives that still lists it.  (A list or a search that was asked for before the deletion may be
  such an answer: it makes new objects, which are not marked.)  The store stays well-formed throughout.\<close>
theorem deleted_channel_stays_deleted:
  assumes "s = fst (channelsRun lc before mounted)"
    and "k < length (sh_waiting s)" "sh_waiting s ! k = WaitChange a (ById i) DeleteIt"
    and "changed_object cr_id a (ById i) s = Some obj"
    and "s' = fst (channelsRun lc (ChangeArrives k (Success n) # after) s)"
  shows "cr_id (sh_objects s' ! obj) = i \<and> obj \<notin> set (shown_objects cr_deleted s') \<and> shared_ok s' \<and>
    ((\<forall>obj' < length (sh_objects s). cr_id (sh_objects s ! obj') = i \<longrightarrow> obj' = obj) \<and>
      list_all (\<lambda>e. \<not> lists_row cr_id i e) after \<longrightarrow> i \<notin> cr_id ` set (pagedChannels (view s')))"
proof -
  have ok: "shared_ok s" using ok_tableRun [OF store_mounted_ok] unfolding assms(1) channelsRun_def .
  define s1 where "s1 = fst (changeArrives cr_id changeChannel k (Success n) s)"
  have s': "s' = fst (tableRun lc cr_id channelField changeChannel after s1)"
    using assms(5) by (simp add: channelsRun_def s1_def split_beta Let_def)
  have ok1: "shared_ok s1" using ok_tableStep [OF ok, of lc cr_id channelField changeChannel "ChangeArrives k (Success n)"]
    by (simp add: s1_def)
  have "changed_object cr_id a (ById i) (finish k s) = Some obj"
    using assms(4) by (simp add: changed_object_def finish_def cell_def)
  then have objs: "sh_objects s1 = (sh_objects s)[obj := mark_channel (sh_objects s ! obj)]"
    using assms(2,3) by (simp add: s1_def changeArrives_def changeAnswered_def changeChannel_def)
  obtain j where j: "find_index (\<lambda>obj. cr_id (sh_objects s ! obj) = i) (cell a s) = Some j" "obj = cell a s ! j"
    using assms(4) by (auto simp: changed_object_def)
  have "a < length (sh_arrays s)" using shared_okD(4) [OF ok assms(2)] assms(3) by simp
  then have obj: "obj < length (sh_objects s)" "cr_id (sh_objects s ! obj) = i"
    using find_index_Some [OF j(1)] shared_okD(3) [OF ok, of a obj] j(2) by auto
  then have "cr_deleted (sh_objects s1 ! obj)" "cr_id (sh_objects s1 ! obj) = i"
    by (simp_all add: objs mark_channel_def)
  moreover have "obj < length (sh_objects s1)" using obj by (simp add: objs)
  ultimately have object: "cr_id (sh_objects s' ! obj) = i" "obj \<notin> set (shown_objects cr_deleted s')" "shared_ok s'"
    using channel_store.deleted_for_good [OF ok1 _ _ s'] channel_store.kept_tableRun [of s1 lc channelField after]
    by (simp_all add: s' objects_kept_iff)
  have "i \<notin> cr_id ` set (pagedChannels (view s'))"
    if once: "\<forall>obj' < length (sh_objects s). cr_id (sh_objects s ! obj') = i \<longrightarrow> obj' = obj"
      and quiet: "list_all (\<lambda>e. \<not> lists_row cr_id i e) after"
  proof -
    have "cr_id (sh_objects s1 ! m) = i \<longrightarrow> cr_deleted (sh_objects s1 ! m)" if "m < length (sh_objects s1)" for m
    proof (cases "m = obj")
      case False
      then have "cr_id (sh_objects s ! m) \<noteq> i" using that once by (auto simp: objs)
      then show ?thesis using False by (simp add: objs)
    qed (use obj(1) in \<open>simp add: objs mark_channel_def\<close>)
    then have "all_marked cr_id cr_deleted i (sh_objects s1)" by (simp add: all_marked_def list_all_length)
    then have "all_marked cr_id cr_deleted i (sh_objects s')" unfolding s' by (rule channel_store.marked_tableRun [OF _ quiet])
    then show ?thesis unfolding pagedChannels_def by (rule channel_store.marked_not_shown [OF object(3)])
  qed
  then show ?thesis using object by blast
qed

text \<open>The other case: a search that is answered late shows the rows it lists, deleted meanwhile or not.\<close>

theorem late_list_restores_channel:
  assumes "shared_ok s" "k < length (sh_waiting s)" "sh_waiting s ! k = WaitSearch"
    and "r \<in> set (take ITEMS_PER_PAGE data)" "\<not> cr_deleted r"
  shows "r \<in> set (pagedChannels (view (fst (channelsRun lc [RowsArrive k (Success data)] s))))"
proof -
  let ?s = "finish k s"
  have "view (fst (searchAnswered (Success data) ?s)) = (view ?s)\<lparr>rows := data, activePage := 1, searching := False\<rparr>"
    using contents_new [of ?s data] by (simp add: searchAnswered_def view_def)
  then have "rows (view (fst (channelsRun lc [RowsArrive k (Success data)] s))) = data"
    "activePage (view (fst (channelsRun lc [RowsArrive k (Success data)] s))) = 1"
    using assms(2,3) by (simp_all add: channelsRun_def rowsArrive_def)
  then show ?thesis using assms(4,5) unfolding pagedChannels_def pagedRows_def pageSlice_def by simp
qed

section \<open>Answers that arrive late\<close>

text \<open>Rows for the examples.\<close>

definition example_channel :: "int \<Rightarrow> channel_row" where
  "example_channel i = \<lparr>cr_id = i, cr_name = ''c'', cr_description = [], cr_type = ''bark'', cr_status = 1,
     cr_created = 0, cr_deleted = False\<rparr>"

definition loaded :: "channel_row list \<Rightarrow> (channel_row, manage) shared_table" where
  "loaded data = fst (rowsArrive 0 (Success data) mounted)"

lemma loaded_ok: "shared_ok (loaded data)" "sh_waiting (loaded data) = []" "rows (view (loaded data)) = data"
proof -
  obtain s :: "(channel_row, manage) shared_table" and es where "rowsArrive 0 (Success data) mounted = (s, es)" by force
  from first_answer [OF this] this show "shared_ok (loaded data)" "sh_waiting (loaded data) = []" "rows (view (loaded data)) = data"
    by (auto simp: loaded_def loadRows_def simp del: view_fields)
qed

definition by_length :: "string \<Rightarrow> string \<Rightarrow> int" where
  "by_length a b = int (length a) - int (length b)"

definition two_waiting :: "(channel_row, manage) shared_table" where
  "two_waiting = fst (channelsRun by_length [RowsArrive 0 (Success [example_channel 1, example_channel 2]), SubmitSearch,
     PressChange (ById 2) DeleteIt] mounted)"

lemma two_waiting_eq:
  "two_waiting = \<lparr>sh_objects = [example_channel 1, example_channel 2], sh_arrays = [[], [0, 1]], sh_rows = 1,
     sh_loading = False, sh_page = 1, sh_keyword = [], sh_searching = False,
     sh_waiting = [WaitRows 0 1 (Some 1), WaitChange 1 (ById 2) DeleteIt]\<rparr>"
  by (simp add: two_waiting_def channelsRun_def mounted_def rowsArrive_def rowsLoaded_def new_objects_def set_rows_def parse_rows_def
      finish_def drop_at_def clickSearch_def clickChange_def await_def upt_rec)

theorem deleted_channel_stays_deleted_witness:
  "2 \<notin> cr_id ` set (pagedChannels (view (fst (channelsRun by_length
     (ChangeArrives 1 (Success 0) # [RowsArrive 0 (Success [example_channel 1])]) two_waiting))))"
proof -
  have "changed_object cr_id 1 (ById 2) two_waiting = Some 1" "1 < length (sh_waiting two_waiting)"
    "sh_waiting two_waiting ! 1 = WaitChange 1 (ById 2) DeleteIt"
    by (simp_all add: two_waiting_eq changed_object_def cell_def example_channel_def)
  moreover have "\<forall>obj' < length (sh_objects two_waiting). cr_id (sh_objects two_waiting ! obj') = 2 \<longrightarrow> obj' = 1"
    by (simp add: two_waiting_eq example_channel_def less_Suc_eq)
  moreover have "list_all (\<lambda>e. \<not> lists_row cr_id 2 e) [RowsArrive 0 (Success [example_channel 1])]"
    by (simp add: lists_row_def example_channel_def)
  ultimately show ?thesis using deleted_channel_stays_deleted [OF two_waiting_def _ _ _ refl] by blast
qed

text \<open>A page that was asked for continues the array of the click, whatever is shown now.\<close>

lemma late_page:
  assumes "shared_ok s" "sh_waiting s ! k = WaitRows p a (Some page)" "k < length (sh_waiting s)" "p \<noteq> 0"
  shows "view (fst (rowsArrive k (Success data) s)) =
    (view s)\<lparr>rows := contents a s @ data, loading := False, activePage := page\<rparr>"
proof -
  have a: "shared_ok (finish k s)" "a < length (sh_arrays (finish k s))"
    using ok_finish [OF assms(1)] shared_okD(4) [OF assms(1,3)] assms(2) by (simp_all add: finish_def)
  have "view (push_rows a (new_objects data (finish k s)) (parse_rows data (finish k s))) = (view s)\<lparr>rows := contents a s @ data\<rparr>"
    using contents_push [OF a] by (simp add: view_def) (simp add: finish_def)
  then show ?thesis using assms(2,3,4) by (simp add: rowsArrive_def rowsLoaded_def Let_def)
qed

text \<open>A new list leaves the arrays that were there as they are.\<close>

lemma contents_kept:
  assumes "shared_ok s" "a < length (sh_arrays s)"
  shows "contents a (set_rows (new_objects data s) (parse_rows data s)) = contents a s"
  using shared_okD(3) [OF assms] assms(2)
  by (simp add: contents_def set_rows_def nth_append) (simp add: cell_def parse_rows_def nth_append)

text \<open>The offered next page is asked for, and nothing else happens.\<close>

lemma clickPage_next:
  "page = filledPages (length (rows (view s))) + 1 \<Longrightarrow>
     clickPage page s = await (WaitRows (page - 1) (sh_rows s) (Some page)) s"
  by (simp add: clickPage_def)

lemma filledPages_0: "filledPages n = 0 \<longleftrightarrow> n = 0"
  unfolding filledPages_def ITEMS_PER_PAGE_def by presburger

lemma next_page_offset:
  assumes "page = filledPages (length (rows (view s))) + 1" "rows (view s) \<noteq> []"
  shows "page - 1 \<noteq> 0"
  using assms filledPages_0 [of "length (rows (view s))"] by (metis diff_add_inverse2 length_0_conv)

text \<open>C18: A search can be undone by a page that was asked for earlier.  Click the next page, search while
  its answer is on its way, and the results are shown; when the page arrives, the results are gone:
  the rows are those of before the search with the page behind them, and the keyword is still there.\<close>
theorem late_page_undoes_search:
  assumes "shared_ok s" "sh_waiting s = []" "rows (view s) \<noteq> []"
    and "page = filledPages (length (rows (view s))) + 1" "trim kw \<noteq> []"
    and "s1 = fst (channelsRun lc [TurnPage page, EnterKeyword kw, SubmitSearch, RowsArrive 1 (Success found)] s)"
    and "s2 = fst (channelsRun lc [RowsArrive 0 (Success data)] s1)"
  shows "rows (view s1) = found \<and> activePage (view s1) = 1 \<and>
    rows (view s2) = rows (view s) @ data \<and> activePage (view s2) = page \<and> searchKeyword (view s2) = trim kw"
proof -
  let ?w = "WaitRows (page - 1) (sh_rows s) (Some page)"
  define m where "m = finish 1 (clickSearch (typeKeyword kw (clickPage page s)))"
  define m1 where "m1 = set_rows (new_objects found m) (parse_rows found m)"
  note clickPage = clickPage_next [OF assms(4)] and a = shared_okD(1) [OF assms(1)]
  have m: "m = s\<lparr>sh_keyword := trim kw, sh_searching := True, sh_waiting := [?w]\<rparr>"
    using assms(2,5) by (simp add: m_def clickPage typeKeyword_def clickSearch_def await_def finish_def drop_at_def)
  have s1: "s1 = m1\<lparr>sh_page := 1, sh_searching := False\<rparr>"
    using assms(2,5,6) by (simp add: channelsRun_def split_beta Let_def rowsArrive_def searchAnswered_def m1_def m_def
        clickPage typeKeyword_def clickSearch_def await_def finish_def drop_at_def)
  have okm: "shared_ok m" "sh_rows s < length (sh_arrays m)" "contents (sh_rows s) m = contents (sh_rows s) s"
    using assms(1) a by (simp_all add: m shared_ok_def)
  have ok1: "shared_ok s1"
    using ok_set_rows [OF ok_parse_rows [OF okm(1)] new_objects_ok] by (simp add: s1 m1_def)
  have w: "sh_waiting s1 ! 0 = ?w" "0 < length (sh_waiting s1)" by (simp_all add: s1 m1_def m)
  have "contents (sh_rows s) s1 = contents (sh_rows s) s"
    using contents_kept [OF okm(1,2), of found] okm(3) by (simp add: s1 m1_def)
  moreover have "rows (view s1) = found" using contents_new [of m found] by (simp add: s1 m1_def)
  moreover have "view s2 = (view s1)\<lparr>rows := contents (sh_rows s) s1 @ data, loading := False, activePage := page\<rparr>"
    using late_page [OF ok1 w next_page_offset [OF assms(4,3)], of data] assms(7) by (simp add: channelsRun_def)
  ultimately show ?thesis by (simp add: s1 m1_def m)
qed

text \<open>C19: Two clicks on the next page before its answer arrives load it twice: both answers are pushed to
  the same array, so every row of that page stands there twice.\<close>
theorem double_click_doubles_page:
  assumes "shared_ok s" "sh_waiting s = []" "rows (view s) \<noteq> []"
    and "page = filledPages (length (rows (view s))) + 1"
    and "s' = fst (channelsRun lc [TurnPage page, TurnPage page, RowsArrive 0 (Success data), RowsArrive 0 (Success data)] s)"
  shows "rows (view s') = rows (view s) @ data @ data"
proof -
  let ?w = "WaitRows (page - 1) (sh_rows s) (Some page)"
  define m where "m = await ?w (await ?w s)"
  define m1 where "m1 = fst (rowsArrive 0 (Success data) m)"
  note clickPage = clickPage_next [OF assms(4)] and a = shared_okD(1) [OF assms(1)]
  have "view (await ?w s) = view s" by (simp add: view_def contents_def cell_def await_def)
  then have "clickPage page (await ?w s) = m"
    using clickPage_next [of page "await ?w s"] assms(4) unfolding m_def by simp
  then have "clickPage page (clickPage page s) = m" by (simp only: clickPage)
  then have s': "s' = fst (rowsArrive 0 (Success data) m1)"
    using assms(5) by (simp add: channelsRun_def split_beta Let_def m1_def)
  have okm: "shared_ok m" unfolding m_def using a by (intro ok_await assms(1)) (simp_all add: await_def)
  have w: "sh_waiting m ! 0 = ?w" "0 < length (sh_waiting m)" using assms(2) by (simp_all add: m_def)
  note p = next_page_offset [OF assms(4,3)]
  have ok1: "shared_ok m1" using ok_tableStep [OF okm, of lc cr_id channelField changeChannel "RowsArrive 0 (Success data)"]
    by (simp add: m1_def)
  have w1: "sh_waiting m1 ! 0 = ?w" "0 < length (sh_waiting m1)" "sh_rows m1 = sh_rows s"
    using p assms(2) by (simp_all add: m1_def m_def rowsArrive_def rowsLoaded_def finish_def drop_at_def)
  have "contents (sh_rows s) m = contents (sh_rows s) s" by (simp add: m_def contents_def cell_def await_def)
  then have "contents (sh_rows s) m1 = contents (sh_rows s) s @ data"
    using arg_cong [OF late_page [OF okm w p, of data], of rows] w1(3) unfolding m1_def by simp
  then show ?thesis using late_page [OF ok1 w1(1,2) p, of data] by (simp add: s')
qed

definition ten_loaded :: "(channel_row, manage) shared_table" where
  "ten_loaded = loaded (map (example_channel \<circ> int) [0..<10])"

lemma ten_loaded_next: "2 = filledPages (length (rows (view ten_loaded))) + 1" "rows (view ten_loaded) \<noteq> []"
  unfolding ten_loaded_def loaded_ok(3) by (simp_all add: filledPages_def ITEMS_PER_PAGE_def)

theorem late_page_undoes_search_witness:
  "\<exists>s1 s2. rows (view s1) = [example_channel 3] \<and>
     s2 = fst (channelsRun by_length [RowsArrive 0 (Success [example_channel 10])] s1) \<and>
     rows (view s2) = rows (view ten_loaded) @ [example_channel 10]"
proof -
  have "trim ''3'' \<noteq> []" by code_simp
  from late_page_undoes_search [OF _ _ ten_loaded_next(2,1) this refl refl, of by_length "[example_channel 3]" "[example_channel 10]"]
  show ?thesis using loaded_ok(1,2) unfolding ten_loaded_def by blast
qed

theorem double_click_doubles_page_witness:
  "rows (view (fst (channelsRun by_length [TurnPage 2, TurnPage 2, RowsArrive 0 (Success [example_channel 10]),
     RowsArrive 0 (Success [example_channel 10])] ten_loaded))) =
   map (example_channel \<circ> int) [0..<10] @ [example_channel 10, example_channel 10]"
  using double_click_doubles_page [OF _ _ ten_loaded_next(2,1) refl, of by_length "[example_channel 10]"] loaded_ok
  unfolding ten_loaded_def by simp

end
