(* ===== verification/Web_Shell.thy ===== *)
theory Web_Shell
  imports Web_Pages Web_Forms Tables Messages_Table
begin

text \<open>
  What stands around the pages: the hook that follows the width of the screen
  (\<open>helpers/responsive.js\<close>), the theme provider (\<open>context/Theme\<close>) and the theme of
  \<open>index.jsx\<close>, the code editor's view, the columns of a form group, and the two layouts of the
  list pages with their page numbers.
\<close>

section \<open>Narrow screens\<close>

record mobile_hook =
  mh_mobile :: bool
  mh_listening :: bool

text \<open>\<open>useState(matchesMobile)\<close>; then the effect, when there is a \<open>matchMedia\<close>.\<close>

definition mobileFirst :: "bool option \<Rightarrow> mobile_hook" where
  "mobileFirst media = \<lparr>mh_mobile = matchesMobile media, mh_listening = False\<rparr>"

definition mobileMounted :: "bool option \<Rightarrow> mobile_hook \<Rightarrow> mobile_hook" where
  "mobileMounted media h =
     (case media of None \<Rightarrow> h | Some matches \<Rightarrow> h\<lparr>mh_mobile := matches, mh_listening := True\<rparr>)"

definition mobileChanged :: "bool \<Rightarrow> mobile_hook \<Rightarrow> mobile_hook" where
  "mobileChanged matches h = (if mh_listening h then h\<lparr>mh_mobile := matches\<rparr> else h)"

definition mobileUnmounted :: "mobile_hook \<Rightarrow> mobile_hook" where
  "mobileUnmounted h = h\<lparr>mh_listening := False\<rparr>"

text \<open>What is shown is what the screen was last reported to be, also when it changed between the
  first render and the effect.\<close>

lemma mobile_follows_screen:
  "mh_mobile (fold mobileChanged bs (mobileMounted (Some b) (mobileFirst media))) = last (b # bs)"
proof -
  have "mh_listening h \<Longrightarrow> mh_mobile (fold mobileChanged bs h) = last (mh_mobile h # bs)" for h
    by (induction bs arbitrary: h) (simp_all add: mobileChanged_def)
  from this [of "mobileMounted (Some b) (mobileFirst media)"] show ?thesis by (simp add: mobileMounted_def)
qed

lemma mobile_after_unmount: "fold mobileChanged bs (mobileUnmounted h) = mobileUnmounted h"
  by (induction bs) (simp_all add: mobileChanged_def mobileUnmounted_def)

section \<open>The theme provider\<close>

text \<open>The chosen mode, what is stored, what the system prefers (if it can be asked), and the two
  places of the document that carry the effective theme (the second one may not exist).\<close>

record theme_page =
  tp_mode :: theme_mode
  tp_storage :: storage
  tp_dark :: "bool option"
  tp_attribute :: string
  tp_meta :: "string option"

datatype theme_event = ThemeAction theme_action | SystemTheme bool

text \<open>The effect that depends on \<open>resolved\<close>; without a change it would write what is there.\<close>

definition themeApply :: "theme_page \<Rightarrow> theme_page" where
  "themeApply p =
     (let resolved = resolveMode (tp_dark p) (tp_mode p) in
      p\<lparr>tp_attribute := mode_name resolved, tp_meta := map_option (\<lambda>_. meta_color resolved) (tp_meta p)\<rparr>)"

definition themeMounted :: "storage \<Rightarrow> bool option \<Rightarrow> string option \<Rightarrow> theme_page" where
  "themeMounted st dark meta =
     (let (mode, st') = themeStart st in
      themeApply \<lparr>tp_mode = mode, tp_storage = st', tp_dark = dark, tp_attribute = [], tp_meta = meta\<rparr>)"

definition themeEvent :: "theme_event \<Rightarrow> theme_page \<Rightarrow> theme_page" where
  "themeEvent e p =
     (case e of
        ThemeAction a \<Rightarrow>
          (let (mode, st) = themeStep a (tp_mode p, tp_storage p) in themeApply (p\<lparr>tp_mode := mode, tp_storage := st\<rparr>))
      | SystemTheme dark \<Rightarrow> if tp_dark p = None then p else themeApply (p\<lparr>tp_dark := Some dark\<rparr>))"

definition theme_ok :: "theme_page \<Rightarrow> bool" where
  "theme_ok p \<longleftrightarrow> theme_synced (tp_mode p, tp_storage p) \<and>
     tp_attribute p = mode_name (resolveMode (tp_dark p) (tp_mode p)) \<and>
     (\<forall>c. tp_meta p = Some c \<longrightarrow> c = meta_color (resolveMode (tp_dark p) (tp_mode p)))"

lemma themeApply_ok: "theme_synced (tp_mode p, tp_storage p) \<Longrightarrow> theme_ok (themeApply p)"
  by (auto simp: theme_ok_def themeApply_def Let_def)

lemma themeMounted_ok: "theme_ok (themeMounted st dark meta)"
  using themeStart_synced [of st]
  by (cases "themeStart st") (auto simp: themeMounted_def intro: themeApply_ok)

lemma themeEvent_ok:
  assumes "theme_ok p"
  shows "theme_ok (themeEvent e p)"
proof (cases e)
  case (ThemeAction a)
  have "theme_synced (themeStep a (tp_mode p, tp_storage p))"
    using assms by (intro themeStep_synced) (simp add: theme_ok_def)
  then show ?thesis
    by (cases "themeStep a (tp_mode p, tp_storage p)") (auto simp: ThemeAction themeEvent_def intro: themeApply_ok)
next
  case (SystemTheme dark)
  then show ?thesis using assms by (auto simp: themeEvent_def theme_ok_def intro!: themeApply_ok [unfolded theme_ok_def])
qed

lemma themeEvents_ok: "theme_ok p \<Longrightarrow> theme_ok (fold themeEvent es p)"
  by (induction es arbitrary: p) (simp_all add: themeEvent_ok)

text \<open>\<open>index.jsx\<close>: the design tokens of the effective theme.\<close>

definition HEADER_HEIGHT :: nat where "HEADER_HEIGHT = 48"

record root_theme =
  ro_darkAlgorithm :: bool
  ro_tokens :: theme_tokens
  ro_borderRadius :: nat
  ro_headerBg :: string
  ro_headerHeight :: nat

definition rootTheme :: "theme_mode \<Rightarrow> root_theme option" where
  "rootTheme resolved =
     map_option (\<lambda>tokens. \<lparr>ro_darkAlgorithm = (resolved = Dark), ro_tokens = tokens, ro_borderRadius = 8,
         ro_headerBg = colorBgContainer tokens, ro_headerHeight = HEADER_HEIGHT\<rparr>)
       (THEME_TOKENS resolved)"

lemma rootTheme_defined: "rootTheme (resolveMode dark mode) \<noteq> None"
  by (simp add: rootTheme_def resolveMode_resolved)

text \<open>The browser bar has the colour of the page's containers.\<close>

lemma rootTheme_meta: "rootTheme (resolveMode dark mode) = Some t \<Longrightarrow> ro_headerBg t = meta_color (resolveMode dark mode)"
  by (cases "resolveMode dark mode") (auto simp: rootTheme_def meta_color_def)

section \<open>The code editor\<close>

definition languageExtensions :: "string list" where
  "languageExtensions = [''json'', ''javascript'', ''markdown'', ''html'']"

record editor_view =
  ev_dark :: bool
  ev_value :: string
  ev_extension :: "string option"
  ev_activeLine :: string

definition codeMirror :: "theme_mode \<Rightarrow> string \<Rightarrow> string option \<Rightarrow> editor_view" where
  "codeMirror resolved language value =
     (let dark = (resolved = Dark) in
      \<lparr>ev_dark = dark, ev_value = str_or_empty value,
       ev_extension = (if language \<in> set languageExtensions then Some language else None),
       ev_activeLine = (if dark then ''#1f2226'' else ''#f5f7fa'')\<rparr>)"

datatype editor_button = FormatButton | CopyButton

text \<open>The buttons over the editor: formatting only where there is a formatter.\<close>

definition editorButtons :: "formatter option \<Rightarrow> editor_button list" where
  "editorButtons formatter = (if formatter \<noteq> None then [FormatButton] else []) @ [CopyButton]"

section \<open>The columns of a form group\<close>

text \<open>\<open>FormGroup.jsx\<close>: the span of each of \<open>n\<close> items, of 24 units.\<close>

definition group_span :: "nat \<Rightarrow> nat" where
  "group_span n = (if 0 < n then 24 div n else 24)"

lemma group_fits: "n * group_span n \<le> 24"
  by (simp add: group_span_def)

lemma group_fills: "0 < n \<Longrightarrow> 24 < n * Suc (group_span n)"
  using dividend_less_times_div [of n 24] by (simp add: group_span_def)

section \<open>The list pages\<close>

record pagination =
  pn_current :: nat
  pn_total :: nat
  pn_pageSize :: nat
  pn_simple :: bool

definition tableFooter :: "bool \<Rightarrow> nat \<Rightarrow> nat \<Rightarrow> pagination" where
  "tableFooter isMobile page n =
     \<lparr>pn_current = page, pn_total = totalPages n * ITEMS_PER_PAGE, pn_pageSize = ITEMS_PER_PAGE,
      pn_simple = isMobile\<rparr>"

datatype 'r list_view =
    CardList mobile_card "'r list" bool
  | TableView "column list" "'r list" bool

record 'r list_screen =
  ls_keyword :: string
  ls_searching :: bool
  ls_view :: "'r list_view"
  ls_add :: "string option" \<comment> \<open>where the button for a new entry leads\<close>
  ls_footer :: pagination

definition listScreen ::
    "column list \<Rightarrow> mobile_card \<Rightarrow> string option \<Rightarrow> ('r \<Rightarrow> bool) \<Rightarrow> bool \<Rightarrow> 'r table \<Rightarrow> 'r list_screen" where
  "listScreen columns mcard add deleted isMobile t =
     \<lparr>ls_keyword = searchKeyword t, ls_searching = searching t,
      ls_view = (if isMobile then CardList mcard (pagedRows deleted t) (loading t)
                 else TableView columns (pagedRows deleted t) (loading t)),
      ls_add = add, ls_footer = tableFooter isMobile (activePage t) (length (rows t))\<rparr>"

definition usersScreen :: "bool \<Rightarrow> user_row table \<Rightarrow> user_row list_screen" where
  "usersScreen = listScreen userColumns userCard (Some ''/user/add'') ur_deleted"

definition channelsScreen :: "bool \<Rightarrow> channel_row table \<Rightarrow> channel_row list_screen" where
  "channelsScreen = listScreen channelColumns channelCard (Some ''/channel/add'') cr_deleted"

definition webhooksScreen :: "bool \<Rightarrow> webhook_row table \<Rightarrow> webhook_row list_screen" where
  "webhooksScreen = listScreen webhookColumns webhookCard (Some ''/webhook/add'') wr_deleted"

definition messagesScreen :: "bool \<Rightarrow> messages_state \<Rightarrow> message_row list_screen" where
  "messagesScreen isMobile s =
     \<lparr>ls_keyword = ms_keyword s, ls_searching = ms_searching s,
      ls_view = (if isMobile then CardList messageCard (pagedMessages s) (ms_loading s)
                 else TableView messageColumns (pagedMessages s) (ms_loading s)),
      ls_add = None, ls_footer = tableFooter isMobile (ms_activePage s) (length (ms_messages s))\<rparr>"

text \<open>The button of the messages page that switches the automatic refresh: the seconds, if any.\<close>

definition refreshButton :: "messages_state \<Rightarrow> int option" where
  "refreshButton s = (if ms_autoRefresh s then Some (ms_shownSeconds s) else None)"

section \<open>A message that is viewed\<close>

text \<open>The title, if there is one; the two texts that are shown, if any.\<close>

definition modalTitle :: "inputs \<Rightarrow> json option" where
  "modalTitle message = (if truthy (jm_get ''title'' message) then jm_get ''title'' message else None)"

definition modalTexts :: "inputs \<Rightarrow> (string \<times> json option) list" where
  "modalTexts message =
     map (\<lambda>k. (k, jm_get k message)) (filter (\<lambda>k. truthy (jm_get k message)) [''description'', ''content''])"

definition modalLink :: "inputs \<Rightarrow> effect" where
  "modalLink message =
     (if truthy (jm_get ''URL'' message) then OpenPage (template (jm_get ''URL'' message))
      else OpenPage (''/message/'' @ template (jm_get ''link'' message)))"

section \<open>Page numbers\<close>

text \<open>The page numbers that the footer offers: the filled pages, and one more when the last one is
  full (so that the next rows can be asked for).\<close>

definition offeredPages :: "pagination \<Rightarrow> nat" where
  "offeredPages p = (pn_total p + pn_pageSize p - 1) div pn_pageSize p"

lemma offeredPages_footer: "offeredPages (tableFooter isMobile page n) = totalPages n"
  by (simp add: offeredPages_def tableFooter_def ITEMS_PER_PAGE_def)

text \<open>Both layouts show the same rows and the same columns.\<close>

fun view_rows :: "'r list_view \<Rightarrow> 'r list" where
  "view_rows (CardList k xs l) = xs"
| "view_rows (TableView cs xs l) = xs"

lemma layouts_agree:
  "view_rows (ls_view (listScreen columns mcard add deleted True t)) =
   view_rows (ls_view (listScreen columns mcard add deleted False t))"
  by (simp add: listScreen_def)

lemma screen_rows_fit: "length (view_rows (ls_view (listScreen columns mcard add deleted m t))) \<le> ITEMS_PER_PAGE"
  using length_filter_le [of "\<lambda>r. \<not> deleted r" "pageSlice (activePage t) (rows t)"]
  by (simp add: listScreen_def pagedRows_def pageSlice_def)

end
