(* ===== verification/Spec2Isabelle.thy ===== *)
theory Spec2Isabelle
  imports Release_Properties Runner_Properties Script_Main Summary Messages_Properties Form_Properties Client_Properties
    Store_Properties Web_Shell
begin

text \<open>
  A model of the JavaScript of this repository, and what it guarantees.

  \<^bold>\<open>The program.\<close>  The repository holds two JavaScript programs beside a Go server.  The scripts
  of the publishing action (\<open>.forgejo/scripts/*.mjs\<close>) build the container images of a release in
  several variants, push them to staging tags and, when all are there, promote them to their final
  tags; each step is a process of its own, and the steps share one state file.  The web client
  (\<open>web/src\<close>) is a React application: list pages with a live stream of messages, editors for
  channels, messages and webhooks, the settings, and the pages to log in and register.

  \<^bold>\<open>The publishing scripts.\<close>
  \<^item> \<open>JS_Prelude\<close>, \<open>JS_Number\<close>, \<open>JS_Map\<close>, \<open>Node_Path\<close>, \<open>JS_Host\<close>: strings, numbers, the \<open>Map\<close>
    object, \<open>node:path\<close>, and processes.  \<open>Action_Errors\<close> has one constructor per \<open>throw\<close>.
  \<^item> \<open>Config\<close> (\<open>config.mjs\<close>) reads the variables and the variant table; \<open>Endpoints\<close>
    (\<open>endpoints.mjs\<close>) tells mirrors from proxies and probes docker; \<open>Release_State\<close> is the state
    file; \<open>Resolve\<close> (\<open>resolve.mjs\<close>) derives the release; \<open>Meta_Rules\<close> and \<open>Meta\<close> (\<open>meta.mjs\<close>)
    compute tags and labels; \<open>Build_Push\<close>, \<open>Publish\<close>, \<open>Login\<close>, \<open>Summary\<close>, \<open>Plan_Matrix\<close>,
    \<open>Prepare\<close>, \<open>Preflight\<close>, \<open>Locate_Action\<close>, \<open>Run_Dispatch\<close> are the scripts of these names, and
    \<open>Script_Main\<close> is what they do when they start and end.
  \<^item> \<open>Pipeline\<close> composes the build and the publish step over a registry.  \<open>Release_Properties\<close>
    and \<open>Runner_Properties\<close> hold the theorems that span steps.

  A step takes the environment (a function from names to optional values), the state record and
  the outside (\<open>'w sys\<close>: an abstract world and the log of all commands), and returns a sum: the
  thrown error or the result, with the outside after it.  What is shown: no final
  tag is created unless every staged image of the plan is there, two variants never write the same tag, a dry run and a build push
  nothing but staging tags, tokens stay out of argument vectors and of the state, a staged release
  publishes, results survive a failing build, the temporary builder is always removed.

  \<^bold>\<open>The web client.\<close>
  \<^item> \<open>Web_Base\<close>, \<open>Web_Api\<close>, \<open>Web_Helpers\<close>, \<open>Web_Navigation\<close>: JSON, toasts and other effects
    (\<open>helpers\<close>, \<open>context\<close>, \<open>constants\<close>), the response interceptor with the rate limit, the theme,
    language detection, the routes, guards and swipes (\<open>App.jsx\<close>, \<open>PrivateRoute.jsx\<close>,
    \<open>SwipeNav.jsx\<close>, \<open>Header.jsx\<close>, \<open>BottomNav.jsx\<close>).
  \<^item> \<open>Paged_Table\<close> and \<open>Tables\<close>: users, channels and webhooks, one handler after the other.
    \<open>Table_Store\<close>: the same three tables with row objects and arrays at addresses, the array each
    waiting handler has captured, and answers in any order.  \<open>Messages_Table\<close>: the messages
    page as a state machine whose events are user actions, answers (in any order), the stream and
    the clock; its invariant is proved by rule induction over the reachable states.
  \<^item> \<open>Web_Forms\<close>, \<open>Edit_Channel\<close>, \<open>Edit_Message\<close>, \<open>Edit_Webhook\<close>, \<open>Settings\<close>, \<open>Auth_Forms\<close>:
    the forms.  The inputs of a form are an object of JSON values; a submission stops with a
    message or sends a request; the answer changes the form.
  \<^item> \<open>Web_Pages\<close>, \<open>Web_Shell\<close>: links in messages (\<open>helpers/markdown.js\<close>), the code editor, the
    other pages, the theme provider, the layouts of the list pages.
  \<^item> \<open>Messages_Properties\<close>, \<open>Store_Properties\<close>, \<open>Form_Properties\<close>, \<open>Client_Properties\<close> hold the
    theorems; \<open>Store_Properties\<close> shows that the store refines the handlers of \<open>Paged_Table\<close> when
    every request is answered before the next click.

  A handler takes the state of its page and, after an \<open>await\<close>, the answer, and returns the new
  state with the list of its effects.  What is shown: no message is listed twice, at most one
  stream is open and it comes back after a failure, outdated answers to list requests
  of the messages page are dropped, its automatic refresh respects the rate limit and its interval, turning pages (each answered before the next click) shows the beginning of the server's
  list, the row object of a channel whose deletion was confirmed is never shown again in any order of
  answers, and its id (of a channel received once) only by an answer that arrives later and still lists
  it; forms send what was typed
  after the checks they announce and lose nothing when saving fails.  Some theorems state a defect
  the model shows: a late search answer restores a deleted message or channel, a late page
  undoes a search, a double click on the next page lists it twice, the page after a deletion skips a
  row, a setting that is changed back is not saved, the shown countdown can differ from the one that
  runs, and the retries of the GitHub callback never happen; and one disagreement with a document: the
  only row of a variant table is the default even when it is marked \<open>false\<close>.

  \<^bold>\<open>Interfaces.\<close>  \<open>js_map\<close> (a map that keeps the order of insertions), \<open>tag_names\<close> (what a tag
  sanitiser promises), \<open>row_table\<close> (rows with an id and a mark), \<open>row_change\<close> (changes of
  a row object that keep its id and its mark), \<open>quiet_table\<close> (sorting and row changes that agree with
  the paged table), \<open>save_form\<close> (a form whose refused
  saves change nothing); each is interpreted on the definitions of the program.

  \<^bold>\<open>Bounds and fuel.\<close>  Strings are lists of characters below 256; a character stands for one code
  unit.  Finite numbers are exact (integers or rationals).  \<open>nat_text\<close> runs with a fuel of one
  more than the number, which is enough: its text reads back as the number (\<open>Web_Base\<close>).  The loop that waits for the
  docker daemon may not end (the clock is outside): it is a \<open>partial_function\<close> into an option, and
  \<open>Runner_Properties\<close> shows that it returns whenever the clock runs and the limit is finite.  The
  directory search of \<open>locate-action.mjs\<close> has the depth the code gives it.

  \<^bold>\<open>Parameters.\<close>  Outside the repository's JavaScript and therefore arguments of the definitions:
  processes and the registry, the file system, the clock, \<open>fetch\<close>, the regular expressions a
  repository writes, \<open>localeCompare\<close>, \<open>JSON.parse\<close> and \<open>JSON.stringify\<close> where their text is used,
  Prettier, the default tokenizer of \<open>marked\<close>, random bytes, and the texts of the interface that
  are not ASCII (a value of \<open>prose\<close>, or \<open>webhook_defaults\<close>).

  \<^bold>\<open>Not modelled.\<close>  Markup, styles, icons and labels (rendering belongs to React and Ant Design);
  the wording of messages; the Turnstile widget and the CodeMirror editor beyond what is handed to
  them; whether a toast is shown by the static instance or by that of the component tree
  (\<open>helpers/toast.js\<close>); scrolling; the Go server, the bundler's configuration, the workflow files and the migration
  scripts, which are not part of these two programs.
\<close>

end
